(* ===== verification/Prelude.thy ===== *)
theory Prelude
  imports Complex_Main "HOL-Library.Word" "HOL-Library.FSet" "HOL-Library.Multiset" "HOL-Library.Sublist"
begin

text \<open>
  What every component of the development shares: names for the machine types of the Rust
  sources, panics as values, the iteration order of a \<open>HashMap\<close>, the pieces of
  \<open>str\<close> and \<open>to_string\<close> the sources use, the answers of the environment (clock,
  random draw, rounding of \<open>f64\<close>, room in a bounded channel), and a locale for invariants
  of event driven components.
\<close>

named_theorems kafpy_defs \<open>definitions of small accessors that proofs may unfold\<close>

section \<open>Machine types\<close>

text \<open>
  \<open>usize\<close> counters that the code changes with atomic read-modify-write operations are
  64-bit words, so that a decrement below zero wraps as \<open>fetch_sub\<close> does. Kafka
  partitions and offsets are only compared, incremented and decremented by one: they are
  integers, and the theory of the offset tracker proves that the arithmetic stays inside
  \<open>i64\<close>.
\<close>

type_synonym usize = "64 word"
type_synonym u8 = "8 word"
type_synonym i32 = int
type_synonym i64 = int
type_synonym bytes = "u8 list"

definition i64_min :: int where "i64_min = - (2 ^ 63)"
definition i64_max :: int where "i64_max = 2 ^ 63 - 1"

definition in_i64 :: "int \<Rightarrow> bool" where
  "in_i64 x \<longleftrightarrow> i64_min \<le> x \<and> x \<le> i64_max"

definition u32_of_nat :: "nat \<Rightarrow> nat" where
  \<comment> \<open>the cast \<open>as u32\<close>\<close>
  "u32_of_nat n = n mod 2 ^ 32"

definition saturating_sub :: "'a::len word \<Rightarrow> 'a word \<Rightarrow> 'a word" where
  "saturating_sub a b = (if a < b then 0 else a - b)"

lemma unat_saturating_sub: "unat (saturating_sub a b) = unat a - unat b"
  by (auto simp: saturating_sub_def word_less_nat_alt unat_sub word_le_nat_alt)

lemma saturating_sub_self [simp]: "saturating_sub a a = 0"
  by (simp add: saturating_sub_def)

lemma saturating_sub_0 [simp]: "saturating_sub a 0 = a"
  by (simp add: saturating_sub_def)

lemma unat_succ_no_wrap: "unat (a :: 'a::len word) < 2 ^ LENGTH('a) - 1 \<Longrightarrow> unat (a + 1) = unat a + 1"
  by (simp add: unat_word_ariths)

section \<open>Panics as values\<close>

datatype panic = Panic string

type_synonym 'a res = "panic + 'a"

definition res_bind :: "'a res \<Rightarrow> ('a \<Rightarrow> 'b res) \<Rightarrow> 'b res" where
  "res_bind m f = (case m of Inl p \<Rightarrow> Inl p | Inr x \<Rightarrow> f x)"

lemma res_bind_simps [simp]:
  "res_bind (Inl p) f = Inl p"
  "res_bind (Inr x) f = f x"
  by (simp_all add: res_bind_def)

lemma res_bind_weak_cong: "m = m' \<Longrightarrow> res_bind m f = res_bind m' f"
  by simp

lemma res_bind_Inr_iff [simp]:
  "res_bind m f = Inr y \<longleftrightarrow> (\<exists>x. m = Inr x \<and> f x = Inr y)"
  by (cases m) auto

lemma res_bind_Inl_iff [simp]:
  "res_bind m f = Inl p \<longleftrightarrow> m = Inl p \<or> (\<exists>x. m = Inr x \<and> f x = Inl p)"
  by (cases m) auto

fun res_foldl :: "('s \<Rightarrow> 'e \<Rightarrow> 's res) \<Rightarrow> 's \<Rightarrow> 'e list \<Rightarrow> 's res" where
  "res_foldl f s [] = Inr s"
| "res_foldl f s (e # es) = res_bind (f s e) (\<lambda>s'. res_foldl f s' es)"

lemma res_foldl_append: "res_foldl f s (xs @ ys) = res_bind (res_foldl f s xs) (\<lambda>s'. res_foldl f s' ys)"
  by (induction xs arbitrary: s) (auto simp: res_bind_def split: sum.splits)

section \<open>Hash maps\<close>

text \<open>
  A \<open>HashMap\<close> is a partial function. Its iterators visit every key once in an order the
  standard library leaves open: an operation that iterates takes the order as a list.
\<close>

definition iterates :: "'k list \<Rightarrow> ('k \<rightharpoonup> 'v) \<Rightarrow> bool" where
  "iterates ks m \<longleftrightarrow> distinct ks \<and> set ks = dom m"

lemma iterates_empty [simp]: "iterates [] Map.empty"
  by (simp add: iterates_def)

lemma iterates_mem: "iterates ks m \<Longrightarrow> k \<in> set ks \<longleftrightarrow> (\<exists>v. m k = Some v)"
  by (auto simp: iterates_def)

section \<open>Finite sets\<close>

lemma fcard_remove_less: "x |\<in>| P \<Longrightarrow> fcard (P |-| {|x|}) < fcard P"
  using card_Diff1_less [of "fset P" x] by (simp add: fcard.rep_eq)

lemma sorted_list_of_fset_facts [simp]:
  "set (sorted_list_of_fset F) = fset F"
  "sorted (sorted_list_of_fset F)"
  "distinct (sorted_list_of_fset F)"
  "sorted_list_of_fset {||} = []"
  by (simp_all add: sorted_list_of_fset.rep_eq)

section \<open>Strings\<close>

fun str_contains :: "string \<Rightarrow> string \<Rightarrow> bool" where
  "str_contains [] n = (n = [])"
| "str_contains (c # cs) n = (take (length n) (c # cs) = n \<or> str_contains cs n)"

lemma str_contains_sublist: "str_contains h n \<longleftrightarrow> sublist n h"
proof (induction h)
  case Nil
  then show ?case by simp
next
  case (Cons c cs)
  have "take (length n) (c # cs) = n \<longleftrightarrow> prefix n (c # cs)"
    by (metis append_eq_conv_conj prefix_def)
  with Cons show ?case by (simp add: sublist_Cons_right)
qed

fun str_split :: "char \<Rightarrow> string \<Rightarrow> string list" where
  \<comment> \<open>\<open>str::split\<close> on one character: never the empty list\<close>
  "str_split d [] = [[]]"
| "str_split d (c # cs) =
     (if c = d then [] # str_split d cs
      else (case str_split d cs of [] \<Rightarrow> [[c]] | w # ws \<Rightarrow> (c # w) # ws))"

lemma str_split_nonempty [simp]: "str_split d s \<noteq> []"
  by (cases s) (auto split: list.splits)

lemma str_split_no_delim: "d \<notin> set s \<Longrightarrow> str_split d s = [s]"
  by (induction s) auto

lemma str_split_append: "d \<notin> set s \<Longrightarrow> str_split d (s @ d # t) = s # str_split d t"
  by (induction s) auto

definition str_bytes :: "string \<Rightarrow> bytes" where
  \<comment> \<open>\<open>as_bytes().to_vec()\<close>\<close>
  "str_bytes s = map of_char s"

lemma of_char_word_inject: "(of_char c :: u8) = of_char d \<Longrightarrow> c = d"
proof -
  assume "(of_char c :: u8) = of_char d"
  then have "word_of_nat (of_char c) = (word_of_nat (of_char d) :: u8)"
    by (simp add: of_nat_of_char)
  then have "(of_char c :: nat) mod 256 = of_char d mod 256"
    by (simp add: word_of_nat_eq_iff take_bit_eq_mod)
  then show "c = d"
    by (metis of_char_mod_256 of_char_eq_iff)
qed

lemma str_bytes_inject [simp]: "str_bytes s = str_bytes t \<longleftrightarrow> s = t"
proof -
  have "inj (of_char :: char \<Rightarrow> u8)"
    by (auto intro: injI dest: of_char_word_inject)
  then show ?thesis by (simp add: str_bytes_def inj_map_eq_map)
qed

subsection \<open>Decimal printing, \<open>to_string\<close> on integers\<close>

definition digit_char :: "nat \<Rightarrow> char" where
  "digit_char n = char_of (48 + n)"

fun show_nat :: "nat \<Rightarrow> string" where
  "show_nat n = (if n < 10 then [digit_char n] else show_nat (n div 10) @ [digit_char (n mod 10)])"

declare show_nat.simps [simp del]

definition show_int :: "int \<Rightarrow> string" where
  "show_int i = (if i < 0 then CHR ''-'' # show_nat (nat (- i)) else show_nat (nat i))"

definition show_bool :: "bool \<Rightarrow> string" where
  "show_bool b = (if b then ''true'' else ''false'')"

definition read_nat :: "string \<Rightarrow> nat" where
  "read_nat s = foldl (\<lambda>a c. a * 10 + (of_char c - 48)) 0 s"

lemma digit_char_value: "n < 10 \<Longrightarrow> of_char (digit_char n) - (48::nat) = n"
  by (simp add: digit_char_def)

lemma digit_char_neq_minus: "n < 10 \<Longrightarrow> digit_char n \<noteq> CHR ''-''"
  by (auto simp: digit_char_def char_of_eq_iff take_bit_eq_mod)

lemma read_show_nat [simp]: "read_nat (show_nat n) = n"
proof (induction n rule: show_nat.induct)
  case (1 n)
  show ?case
  proof (cases "n < 10")
    case True
    then show ?thesis
      by (simp add: show_nat.simps [of n] read_nat_def digit_char_value)
  next
    case False
    with "1" have "read_nat (show_nat (n div 10)) = n div 10" by simp
    with False show ?thesis
      by (simp add: show_nat.simps [of n] read_nat_def digit_char_value)
  qed
qed

lemma show_nat_inject [simp]: "show_nat m = show_nat n \<longleftrightarrow> m = n"
  by (metis read_show_nat)

lemma show_nat_no_minus: "CHR ''-'' \<notin> set (show_nat n)"
proof (induction n rule: show_nat.induct)
  case (1 n)
  then show ?case
    using digit_char_neq_minus [of n] digit_char_neq_minus [of "n mod 10"]
    by (cases "n < 10") (auto simp: show_nat.simps [of n])
qed

lemma show_int_inject [simp]: "show_int i = show_int j \<longleftrightarrow> i = j"
proof
  assume eq: "show_int i = show_int j"
  have minus: "\<And>m n. CHR ''-'' # show_nat m \<noteq> show_nat n"
    by (metis list.set_intros(1) show_nat_no_minus)
  show "i = j"
    using eq minus [of "nat (- i)" "nat j"] minus [of "nat (- j)" "nat i"]
    by (auto simp: show_int_def split: if_splits)
qed simp

section \<open>Answers of the environment\<close>

text \<open>
  What an operation reads from outside the sources while it runs: the rounding that
  \<open>f64\<close> arithmetic applies to an exact result, the draw of \<open>rand::random()\<close>,
  successive readings of \<open>chrono::Utc::now()\<close> and their RFC 3339 text, and whether
  \<open>try_send\<close> on a bounded channel of a given capacity succeeds when a number of messages
  is queued in it.
\<close>

record env =
  f64_round :: "real \<Rightarrow> real"
  random_draw :: real
  utc_now :: "nat \<Rightarrow> int"
  to_rfc3339 :: "int \<Rightarrow> string"
  try_send_ok :: "nat \<Rightarrow> nat \<Rightarrow> bool"

definition rounding :: "(real \<Rightarrow> real) \<Rightarrow> bool" where
  \<comment> \<open>IEEE 754 binary64: monotone, exact on the integers of up to 53 bits, idempotent\<close>
  "rounding r \<longleftrightarrow> (\<forall>x y. x \<le> y \<longrightarrow> r x \<le> r y)
     \<and> (\<forall>n :: int. \<bar>n\<bar> \<le> 2 ^ 53 \<longrightarrow> r (of_int n) = of_int n) \<and> (\<forall>x. r (r x) = r x)"

lemma roundingD:
  assumes "rounding r"
  shows rounding_mono: "x \<le> y \<Longrightarrow> r x \<le> r y"
    and rounding_int: "\<bar>n\<bar> \<le> 2 ^ 53 \<Longrightarrow> r (of_int n) = of_int n"
    and rounding_idem: "r (r x) = r x"
  using assms by (auto simp: rounding_def)

lemma rounding_0: "rounding r \<Longrightarrow> r 0 = 0"
  using rounding_int [of r 0] by simp

lemma rounding_1: "rounding r \<Longrightarrow> r 1 = 1"
  using rounding_int [of r 1] by simp

lemma rounding_nonneg: "rounding r \<Longrightarrow> 0 \<le> x \<Longrightarrow> 0 \<le> r x"
  by (metis rounding_0 rounding_mono)

lemma rounding_le_int: "rounding r \<Longrightarrow> x \<le> of_int n \<Longrightarrow> \<bar>n\<bar> \<le> 2 ^ 53 \<Longrightarrow> r x \<le> of_int n"
  by (metis rounding_int rounding_mono)

lemma rounding_id: "rounding (\<lambda>x. x)"
  by (simp add: rounding_def)

definition bounded_channels :: "env \<Rightarrow> bool" where
  \<comment> \<open>\<open>tokio::sync::mpsc\<close>: a full channel refuses \<open>try_send\<close>\<close>
  "bounded_channels e \<longleftrightarrow> (\<forall>cap n. try_send_ok e cap n \<longrightarrow> n < cap)"

definition open_channels :: "env \<Rightarrow> bool" where
  \<comment> \<open>while the receiver lives, only a full channel refuses\<close>
  "open_channels e \<longleftrightarrow> (\<forall>cap n. try_send_ok e cap n \<longleftrightarrow> n < cap)"

section \<open>Invariants of event driven components\<close>

text \<open>
  A component whose operations are events: what one event keeps, every run keeps. The second
  form is for operations that may panic; a run that panics has no final state.
\<close>

locale event_invariant =
  fixes step :: "'s \<Rightarrow> 'e \<Rightarrow> 's" and inv :: "'s \<Rightarrow> bool"
  assumes step_inv: "inv s \<Longrightarrow> inv (step s e)"
begin

lemma run_inv: "inv s \<Longrightarrow> inv (foldl step s es)"
  by (induction es arbitrary: s) (auto simp: step_inv)

end

locale res_invariant =
  fixes rstep :: "'s \<Rightarrow> 'e \<Rightarrow> 's res" and rinv :: "'s \<Rightarrow> bool"
  assumes rstep_inv: "rinv s \<Longrightarrow> rstep s e = Inr s' \<Longrightarrow> rinv s'"
begin

lemma res_run_inv: "rinv s \<Longrightarrow> res_foldl rstep s es = Inr s' \<Longrightarrow> rinv s'"
  by (induction es arbitrary: s) (auto intro: rstep_inv)

end

end
