(* ===== verification/Failure.thy ===== *)
theory Failure
  imports Prelude
begin

text \<open>
  The failure taxonomy (\<^verbatim>\<open>src/failure/reason.rs\<close>) and the classifier that maps a Python
  exception to it (\<^verbatim>\<open>src/failure/classifier.rs\<close>). The exception reaches the classifier as
  two strings, its debug representation and its text, which PyO3 prints: they are the
  arguments of the model.
\<close>

section \<open>Reasons and categories\<close>

datatype FailureCategory = RetryableCat | TerminalCat | NonRetryableCat

datatype RetryableKind = NetworkTimeout | BrokerUnavailable | TransientPartitionError

datatype TerminalKind = PoisonMessage | DeserializationFailed | HandlerPanic

datatype NonRetryableKind = Validation | BusinessLogic | Configuration

datatype FailureReason =
    Retryable RetryableKind
  | Terminal TerminalKind
  | NonRetryable NonRetryableKind

fun category :: "FailureReason \<Rightarrow> FailureCategory" where
  "category (Retryable _) = RetryableCat"
| "category (Terminal _) = TerminalCat"
| "category (NonRetryable _) = NonRetryableCat"

fun RetryableKind_str :: "RetryableKind \<Rightarrow> string" where
  "RetryableKind_str NetworkTimeout = ''network timeout''"
| "RetryableKind_str BrokerUnavailable = ''broker unavailable''"
| "RetryableKind_str TransientPartitionError = ''transient partition error''"

fun TerminalKind_str :: "TerminalKind \<Rightarrow> string" where
  "TerminalKind_str PoisonMessage = ''poison message detected''"
| "TerminalKind_str DeserializationFailed = ''deserialization failed''"
| "TerminalKind_str HandlerPanic = ''handler panic''"

fun NonRetryableKind_str :: "NonRetryableKind \<Rightarrow> string" where
  "NonRetryableKind_str Validation = ''validation error''"
| "NonRetryableKind_str BusinessLogic = ''business logic error''"
| "NonRetryableKind_str Configuration = ''configuration error''"

fun FailureReason_str :: "FailureReason \<Rightarrow> string" where
  \<comment> \<open>\<open>impl Display for FailureReason\<close>\<close>
  "FailureReason_str (Retryable k) = ''Retryable: '' @ RetryableKind_str k"
| "FailureReason_str (Terminal k) = ''Terminal: '' @ TerminalKind_str k"
| "FailureReason_str (NonRetryable k) = ''NonRetryable: '' @ NonRetryableKind_str k"

section \<open>Classification of exceptions\<close>

definition classify :: "string \<Rightarrow> string \<Rightarrow> FailureReason" where
  "classify error_repr traceback =
     (if str_contains error_repr ''TimeoutError'' \<or> str_contains traceback ''timeout''
      then Retryable NetworkTimeout
      else if str_contains error_repr ''KafkaError'' \<or> str_contains error_repr ''BrokerTransport''
      then Retryable BrokerUnavailable
      else if str_contains error_repr ''PartitionError''
      then Retryable TransientPartitionError
      else if str_contains error_repr ''PoisonError'' \<or> str_contains traceback ''poison''
      then Terminal PoisonMessage
      else if str_contains error_repr ''DeserializationError'' \<or> str_contains error_repr ''DecodeError''
      then Terminal DeserializationFailed
      else if str_contains error_repr ''PanicException'' \<or> str_contains error_repr ''SystemExit''
      then Terminal HandlerPanic
      else if str_contains error_repr ''ValidationError'' \<or> str_contains error_repr ''ValueError''
      then NonRetryable Validation
      else if str_contains error_repr ''BusinessLogicError'' \<or> str_contains error_repr ''DomainException''
      then NonRetryable BusinessLogic
      else if str_contains error_repr ''ConfigError'' \<or> str_contains error_repr ''ConfigurationError''
      then NonRetryable Configuration
      else NonRetryable BusinessLogic)"

definition retry_marker :: "string \<Rightarrow> string \<Rightarrow> bool" where
  "retry_marker r t \<longleftrightarrow> sublist ''TimeoutError'' r \<or> sublist ''KafkaError'' r
     \<or> sublist ''BrokerTransport'' r \<or> sublist ''PartitionError'' r \<or> sublist ''timeout'' t"

definition terminal_marker :: "string \<Rightarrow> string \<Rightarrow> bool" where
  "terminal_marker r t \<longleftrightarrow> sublist ''PoisonError'' r \<or> sublist ''DeserializationError'' r
     \<or> sublist ''DecodeError'' r \<or> sublist ''PanicException'' r \<or> sublist ''SystemExit'' r
     \<or> sublist ''poison'' t"

section \<open>Lemmas\<close>

lemma category_Terminal_iff: "category r = TerminalCat \<longleftrightarrow> (\<exists>k. r = Terminal k)"
  by (cases r) auto

lemma category_Retryable_iff: "category r = RetryableCat \<longleftrightarrow> (\<exists>k. r = Retryable k)"
  by (cases r) auto

lemma RetryableKind_str_inject: "RetryableKind_str a = RetryableKind_str b \<Longrightarrow> a = b"
  by (cases a; cases b) auto

lemma TerminalKind_str_inject: "TerminalKind_str a = TerminalKind_str b \<Longrightarrow> a = b"
  by (cases a; cases b) auto

lemma NonRetryableKind_str_inject: "NonRetryableKind_str a = NonRetryableKind_str b \<Longrightarrow> a = b"
  by (cases a; cases b) auto

lemma FailureReason_str_inject: "FailureReason_str a = FailureReason_str b \<Longrightarrow> a = b"
  by (cases a; cases b)
    (auto dest: RetryableKind_str_inject TerminalKind_str_inject NonRetryableKind_str_inject)

text \<open>
  The classifier decides the category of an exception by markers alone, retry markers
  before terminal ones: it is retryable exactly when its representation or text carries a
  retry marker, terminal exactly when it carries a terminal marker and no retry marker, and
  non-retryable in every other case.
\<close>

lemma classify_category:
  "category (classify r t) =
     (if retry_marker r t then RetryableCat
      else if terminal_marker r t then TerminalCat else NonRetryableCat)"
proof -
  have "retry_marker r t \<longleftrightarrow> category (classify r t) = RetryableCat"
    unfolding classify_def retry_marker_def str_contains_sublist by (simp split: if_split)
  moreover have "\<not> retry_marker r t \<Longrightarrow> terminal_marker r t \<longleftrightarrow> category (classify r t) = TerminalCat"
    unfolding classify_def retry_marker_def terminal_marker_def str_contains_sublist
    by (simp split: if_split)
  ultimately show ?thesis
    by (metis FailureCategory.exhaust)
qed

end
