(* ===== verification/Messages.thy ===== *)
theory Messages
  imports Failure
begin

text \<open>
  The data that flows through the pipeline: message envelopes
  (\<^verbatim>\<open>src/consumer/message.rs\<close>, \<^verbatim>\<open>src/kafka_message.rs\<close>), the execution context and the
  normalized results of a handler (\<^verbatim>\<open>src/execution/context.rs\<close>,
  \<^verbatim>\<open>src/execution/execution_result.rs\<close>), and the log line of a failure
  (\<^verbatim>\<open>src/failure/logging.rs\<close>).
\<close>

section \<open>Message envelopes\<close>

datatype MessageTimestamp = CreateTime i64 | LogAppendTime i64 | NotAvailable

fun as_millis :: "MessageTimestamp \<Rightarrow> i64 option" where
  "as_millis (CreateTime ms) = Some ms"
| "as_millis (LogAppendTime ms) = Some ms"
| "as_millis NotAvailable = None"

type_synonym header = "string \<times> bytes option"

record OwnedMessage =
  msg_topic :: string
  msg_partition :: i32
  msg_offset :: i64
  msg_key :: "bytes option"
  msg_payload :: "bytes option"
  msg_timestamp :: MessageTimestamp
  msg_headers :: "header list"

text \<open>
  A borrowed message of rdkafka is seen through its accessors: what they answer is the input
  of the conversion. Headers are a count and an indexed read that may fail.
\<close>

record borrowed_message =
  b_topic :: string
  b_partition :: i32
  b_offset :: i64
  b_key :: "bytes option"
  b_payload :: "bytes option"
  b_timestamp :: MessageTimestamp
  b_headers :: "(nat \<times> (nat \<Rightarrow> header option)) option"

fun collect_headers :: "(nat \<Rightarrow> header option) \<Rightarrow> nat list \<Rightarrow> header list" where
  "collect_headers try_get [] = []"
| "collect_headers try_get (i # is) =
     (case try_get i of Some h \<Rightarrow> h # collect_headers try_get is
      | None \<Rightarrow> collect_headers try_get is)"

definition from_borrowed :: "borrowed_message \<Rightarrow> OwnedMessage" where
  "from_borrowed b =
     \<lparr>msg_topic = b_topic b, msg_partition = b_partition b, msg_offset = b_offset b,
      msg_key = b_key b, msg_payload = b_payload b, msg_timestamp = b_timestamp b,
      msg_headers = (case b_headers b of None \<Rightarrow> []
                     | Some (n, try_get) \<Rightarrow> collect_headers try_get [0..<n])\<rparr>"

definition size_bytes :: "OwnedMessage \<Rightarrow> nat" where
  "size_bytes m =
     (case msg_payload m of Some p \<Rightarrow> length p | None \<Rightarrow> 0)
     + (case msg_key m of Some k \<Rightarrow> length k | None \<Rightarrow> 0)"

record MessageRef =
  ref_topic :: string
  ref_partition :: i32
  ref_offset :: i64
  ref_key :: "bytes option"

definition as_ref :: "OwnedMessage \<Rightarrow> MessageRef" where
  "as_ref m = \<lparr>ref_topic = msg_topic m, ref_partition = msg_partition m,
     ref_offset = msg_offset m, ref_key = msg_key m\<rparr>"

record KafkaMessage =
  km_topic :: string
  km_partition :: i32
  km_offset :: i64
  km_key :: "bytes option"
  km_payload :: "bytes option"
  km_timestamp_millis :: "i64 option"
  km_headers :: "header list"

definition KafkaMessage_from :: "OwnedMessage \<Rightarrow> KafkaMessage" where
  "KafkaMessage_from m =
     \<lparr>km_topic = msg_topic m, km_partition = msg_partition m, km_offset = msg_offset m,
      km_key = msg_key m, km_payload = msg_payload m,
      km_timestamp_millis = as_millis (msg_timestamp m), km_headers = msg_headers m\<rparr>"

section \<open>Execution context\<close>

record TraceContext =
  tr_trace_id :: "string option"
  tr_span_id :: "string option"
  tr_trace_flags :: "string option"

definition TraceContext_default :: TraceContext where
  "TraceContext_default = \<lparr>tr_trace_id = None, tr_span_id = None, tr_trace_flags = None\<rparr>"

record ExecutionContext =
  ctx_topic :: string
  ctx_partition :: i32
  ctx_offset :: i64
  ctx_worker_id :: nat
  ctx_trace :: TraceContext
  ctx_branch_id :: "nat option"
  ctx_fan_out_id :: "nat option"
  ctx_source_topic :: string

definition ExecutionContext_with_trace ::
  "string \<Rightarrow> i32 \<Rightarrow> i64 \<Rightarrow> nat \<Rightarrow> TraceContext \<Rightarrow> nat option \<Rightarrow> nat option \<Rightarrow> string
   \<Rightarrow> ExecutionContext" where
  "ExecutionContext_with_trace topic part offset worker_id trace branch_id fan_out_id source_topic =
     \<lparr>ctx_topic = topic, ctx_partition = part, ctx_offset = offset,
      ctx_worker_id = worker_id, ctx_trace = trace, ctx_branch_id = branch_id,
      ctx_fan_out_id = fan_out_id, ctx_source_topic = source_topic\<rparr>"

definition ExecutionContext_new :: "string \<Rightarrow> i32 \<Rightarrow> i64 \<Rightarrow> nat \<Rightarrow> ExecutionContext" where
  "ExecutionContext_new topic part offset worker_id =
     \<lparr>ctx_topic = topic, ctx_partition = part, ctx_offset = offset,
      ctx_worker_id = worker_id, ctx_trace = TraceContext_default, ctx_branch_id = None,
      ctx_fan_out_id = None, ctx_source_topic = ''''\<rparr>"

section \<open>Handler results\<close>

record TimeoutInfo =
  timeout_ms :: nat
  last_processed_offset :: "i64 option"

datatype ExecutionResult =
    ExOk
  | ExError FailureReason string string
  | ExRejected FailureReason string
  | ExTimeout TimeoutInfo

fun is_ok :: "ExecutionResult \<Rightarrow> bool" where
  "is_ok ExOk = True"
| "is_ok _ = False"

fun is_error :: "ExecutionResult \<Rightarrow> bool" where
  "is_error (ExError _ _ _) = True"
| "is_error _ = False"

fun is_rejected :: "ExecutionResult \<Rightarrow> bool" where
  "is_rejected (ExRejected _ _) = True"
| "is_rejected _ = False"

fun is_timeout :: "ExecutionResult \<Rightarrow> bool" where
  "is_timeout (ExTimeout _) = True"
| "is_timeout _ = False"

fun error_type_label :: "ExecutionResult \<Rightarrow> string" where
  "error_type_label ExOk = ''ok''"
| "error_type_label (ExError _ _ _) = ''error''"
| "error_type_label (ExRejected _ _) = ''rejected''"
| "error_type_label (ExTimeout _) = ''timeout''"

datatype BatchExecutionResult = AllSuccess "i64 list" | AllFailure FailureReason

section \<open>The log line of a failure\<close>

datatype log_level = LWarning | LError | LInfo

definition failure_line :: "ExecutionContext \<Rightarrow> FailureReason \<Rightarrow> string \<Rightarrow> string" where
  "failure_line ctx reason exception_name =
     ''topic='' @ ctx_topic ctx @ '' partition='' @ show_int (ctx_partition ctx)
     @ '' offset='' @ show_int (ctx_offset ctx) @ '' reason='' @ FailureReason_str reason
     @ '' exception='' @ exception_name"

definition log_failure ::
  "ExecutionContext \<Rightarrow> FailureReason \<Rightarrow> string \<Rightarrow> bool \<Rightarrow> log_level \<times> string" where
  "log_failure ctx reason exception_name is_retry =
     (case category reason of
        RetryableCat \<Rightarrow> (LWarning, failure_line ctx reason exception_name
                            @ '' is_retry='' @ show_bool is_retry)
      | TerminalCat \<Rightarrow> (LError, failure_line ctx reason exception_name)
      | NonRetryableCat \<Rightarrow> (LInfo, failure_line ctx reason exception_name))"

section \<open>Lemmas\<close>

text \<open>The label of a result says which of the four predicates holds, and the others do not.\<close>

lemma result_label_decides:
  "is_ok r \<longleftrightarrow> error_type_label r = ''ok''" "is_error r \<longleftrightarrow> error_type_label r = ''error''"
  "is_rejected r \<longleftrightarrow> error_type_label r = ''rejected''" "is_timeout r \<longleftrightarrow> error_type_label r = ''timeout''"
  by (cases r; simp)+

lemma is_ok_iff: "is_ok r \<longleftrightarrow> r = ExOk"
  by (cases r) auto

lemma collect_headers_filter:
  "collect_headers g is = map (\<lambda>i. the (g i)) (filter (\<lambda>i. g i \<noteq> None) is)"
  by (induction "is") (auto split: option.splits)

lemma from_borrowed_keeps_headers:
  assumes "b_headers b = Some (length hs, g)"
    and "\<And>i. i < length hs \<Longrightarrow> g i = Some (hs ! i)"
  shows "msg_headers (from_borrowed b) = hs"
proof -
  have "filter (\<lambda>i. g i \<noteq> None) [0..<length hs] = [0..<length hs]"
    by (rule filter_True) (simp add: assms(2))
  moreover have "map (\<lambda>i. the (g i)) [0..<length hs] = hs"
    by (rule nth_equalityI) (simp_all add: assms(2))
  ultimately show ?thesis
    using assms(1) by (simp add: from_borrowed_def collect_headers_filter)
qed

lemma KafkaMessage_from_keeps_size:
  "(case km_payload (KafkaMessage_from m) of Some p \<Rightarrow> length p | None \<Rightarrow> 0)
   + (case km_key (KafkaMessage_from m) of Some k \<Rightarrow> length k | None \<Rightarrow> 0) = size_bytes m"
  by (simp add: KafkaMessage_from_def size_bytes_def)

end
