(* ===== verification/Offsets.thy ===== *)
theory Offsets
  imports Messages
begin

text \<open>
  Offset tracking (\<^verbatim>\<open>src/offset/offset_tracker.rs\<close>): the state machine of one partition,
  the tracker of all partitions, and the interface \<open>OffsetCoordinator\<close> through which the
  worker pool uses it (\<^verbatim>\<open>src/offset/offset_coordinator.rs\<close>). A \<open>BTreeSet\<close> of
  offsets is a finite set. The operations that iterate over the tracker's map take the
  iteration order as an argument.
\<close>

section \<open>One partition\<close>

record PartitionState =
  committed_offset :: i64
  pending_offsets :: "i64 fset"
  failed_offsets :: "i64 fset"
  last_failure_reason :: "FailureReason option"
  has_terminal :: bool

definition PartitionState_new :: PartitionState where
  "PartitionState_new =
     \<lparr>committed_offset = -1, pending_offsets = {||}, failed_offsets = {||},
      last_failure_reason = None, has_terminal = False\<rparr>"

function advance :: "i64 \<Rightarrow> i64 fset \<Rightarrow> i64 \<times> i64 fset" where
  \<comment> \<open>the cursor loop of \<open>PartitionState::ack\<close>\<close>
  "advance c P = (if c + 1 |\<in>| P then advance (c + 1) (P |-| {|c + 1|}) else (c, P))"
  by pat_completeness auto
termination
proof (relation "measure (\<lambda>(c, P). fcard P)")
  fix c :: i64 and P :: "i64 fset"
  assume "c + 1 |\<in>| P"
  then have "fcard (P |-| {|c + 1|}) < fcard P" by (rule fcard_remove_less)
  then show "((c + 1, P |-| {|c + 1|}), (c, P)) \<in> measure (\<lambda>(c, P). fcard P)" by simp
qed simp

declare advance.simps [simp del]

definition PartitionState_ack :: "PartitionState \<Rightarrow> i64 \<Rightarrow> PartitionState" where
  "PartitionState_ack s offset =
     (let start = (if committed_offset s = -1 then offset - 1 else committed_offset s);
          (c, P) = advance start (finsert offset (pending_offsets s))
      in s\<lparr>committed_offset := c, pending_offsets := P,
           failed_offsets := failed_offsets s |-| {|offset|}\<rparr>)"

definition PartitionState_mark_failed :: "PartitionState \<Rightarrow> i64 \<Rightarrow> PartitionState" where
  "PartitionState_mark_failed s offset =
     s\<lparr>pending_offsets := pending_offsets s |-| {|offset|},
       failed_offsets := finsert offset (failed_offsets s)\<rparr>"

section \<open>The tracker\<close>

record TopicPartition =
  tp_topic :: string
  tp_partition :: i32

type_synonym TopicPartitionKey = "string \<times> i32"

text \<open>
  The watch sender is the list of the values sent through it so far, the runner a flag that
  it has been set; the calls to it are the results of the operations that make them.
\<close>

record OffsetTracker =
  partitions :: "TopicPartitionKey \<rightharpoonup> PartitionState"
  runner_set :: bool
  commit_tx :: "TopicPartition list option"

definition OffsetTracker_new :: OffsetTracker where
  "OffsetTracker_new = \<lparr>partitions = Map.empty, runner_set = False, commit_tx = None\<rparr>"

definition set_commit_sender :: "OffsetTracker \<Rightarrow> OffsetTracker" where
  "set_commit_sender t = t\<lparr>commit_tx := Some []\<rparr>"

definition set_runner :: "OffsetTracker \<Rightarrow> OffsetTracker" where
  "set_runner t = t\<lparr>runner_set := True\<rparr>"

definition OffsetTracker_ack :: "OffsetTracker \<Rightarrow> string \<Rightarrow> i32 \<Rightarrow> i64 \<Rightarrow> OffsetTracker res" where
  "OffsetTracker_ack t topic part offset =
     (if 0 \<le> offset then
        let state = (case partitions t (topic, part) of Some s \<Rightarrow> s | None \<Rightarrow> PartitionState_new)
        in Inr (t\<lparr>partitions := (partitions t)((topic, part) \<mapsto> PartitionState_ack state offset),
                 commit_tx := map_option (\<lambda>sent. sent @ [\<lparr>tp_topic = topic, tp_partition = part\<rparr>])
                                (commit_tx t)\<rparr>)
      else Inl (Panic ''offset must be >= 0''))"

definition highest_contiguous :: "OffsetTracker \<Rightarrow> string \<Rightarrow> i32 \<Rightarrow> i64 option" where
  "highest_contiguous t topic part = map_option committed_offset (partitions t (topic, part))"

definition OffsetTracker_should_commit :: "OffsetTracker \<Rightarrow> string \<Rightarrow> i32 \<Rightarrow> bool" where
  "OffsetTracker_should_commit t topic part =
     (case partitions t (topic, part) of
        None \<Rightarrow> False
      | Some s \<Rightarrow> if has_terminal s then False
                  else pending_offsets s \<noteq> {||} \<or> committed_offset s \<ge> 0)"

definition OffsetTracker_mark_failed :: "OffsetTracker \<Rightarrow> string \<Rightarrow> i32 \<Rightarrow> i64 \<Rightarrow> OffsetTracker" where
  "OffsetTracker_mark_failed t topic part offset =
     (case partitions t (topic, part) of
        None \<Rightarrow> t
      | Some s \<Rightarrow> t\<lparr>partitions := (partitions t)((topic, part) \<mapsto> PartitionState_mark_failed s offset)\<rparr>)"

definition OffsetTracker_committed_offset :: "OffsetTracker \<Rightarrow> string \<Rightarrow> i32 \<Rightarrow> i64" where
  "OffsetTracker_committed_offset t topic part =
     (case partitions t (topic, part) of None \<Rightarrow> -1 | Some s \<Rightarrow> committed_offset s)"

definition all_partitions :: "TopicPartitionKey list \<Rightarrow> OffsetTracker \<Rightarrow> TopicPartitionKey list" where
  "all_partitions ks t = filter (\<lambda>k. partitions t k \<noteq> None) ks"

definition offset_snapshots :: "OffsetTracker \<Rightarrow> TopicPartitionKey \<rightharpoonup> i64" where
  "offset_snapshots t = (\<lambda>k. map_option committed_offset (partitions t k))"

section \<open>The interface of the worker pool\<close>

definition record_ack :: "OffsetTracker \<Rightarrow> string \<Rightarrow> i32 \<Rightarrow> i64 \<Rightarrow> OffsetTracker res" where
  "record_ack t topic part offset = OffsetTracker_ack t topic part offset"

definition partition_fail :: "PartitionState \<Rightarrow> i64 \<Rightarrow> FailureReason \<Rightarrow> PartitionState" where
  \<comment> \<open>the body of the trait's \<open>mark_failed\<close> on a registered partition\<close>
  "partition_fail s offset reason =
     (let s1 = (PartitionState_mark_failed s offset)\<lparr>last_failure_reason := Some reason\<rparr>
      in if category reason = TerminalCat then s1\<lparr>has_terminal := True\<rparr> else s1)"

definition OffsetCoordinator_mark_failed ::
  "OffsetTracker \<Rightarrow> string \<Rightarrow> i32 \<Rightarrow> i64 \<Rightarrow> FailureReason \<Rightarrow> OffsetTracker" where
  "OffsetCoordinator_mark_failed t topic part offset reason =
     (case partitions t (topic, part) of
        None \<Rightarrow> t
      | Some s \<Rightarrow> t\<lparr>partitions := (partitions t)((topic, part) \<mapsto> partition_fail s offset reason)\<rparr>)"

text \<open>
  Calls into the consumer. \<open>store_offset\<close> is an \<open>async fn\<close>: its body runs when the
  future is polled, and \<open>drop\<close> of a future that was never polled runs nothing. \<open>commit\<close>
  is a plain function.
\<close>

datatype consumer_call = StoreOffset string i32 i64 | CommitState

definition drop_future :: "consumer_call list \<Rightarrow> consumer_call list" where
  "drop_future deferred = []"

fun shutdown_calls :: "OffsetTracker \<Rightarrow> TopicPartitionKey list \<Rightarrow> consumer_call list" where
  "shutdown_calls t [] = []"
| "shutdown_calls t ((topic, part) # ks) =
     (if \<not> OffsetTracker_should_commit t topic part then shutdown_calls t ks
      else (case highest_contiguous t topic part of
              None \<Rightarrow> shutdown_calls t ks
            | Some offset \<Rightarrow>
                (if runner_set t then drop_future [StoreOffset topic part offset] @ [CommitState] else [])
                @ shutdown_calls t ks))"

definition graceful_shutdown :: "TopicPartitionKey list \<Rightarrow> OffsetTracker \<Rightarrow> consumer_call list" where
  "graceful_shutdown ks t = shutdown_calls t (all_partitions ks t)"

section \<open>Specification: the watermark of a set of acknowledged offsets\<close>

definition is_watermark :: "i64 \<Rightarrow> i64 set \<Rightarrow> i64 \<Rightarrow> bool" where
  \<comment> \<open>\<open>w\<close> is the end of the unbroken run of acknowledged offsets that starts at \<open>b\<close>\<close>
  "is_watermark b A w \<longleftrightarrow> b - 1 \<le> w \<and> {b..w} \<subseteq> A \<and> w + 1 \<notin> A"

datatype partition_event = EvAck i64 | EvFail i64 FailureReason

fun partition_step :: "PartitionState \<Rightarrow> partition_event \<Rightarrow> PartitionState" where
  "partition_step s (EvAck x) = PartitionState_ack s x"
| "partition_step s (EvFail x r) = partition_fail s x r"

fun first_ack :: "partition_event list \<Rightarrow> i64 option" where
  "first_ack [] = None"
| "first_ack (EvAck x # es) = Some x"
| "first_ack (EvFail x r # es) = first_ack es"

fun ack_offset :: "partition_event \<Rightarrow> i64 option" where
  "ack_offset (EvAck x) = Some x"
| "ack_offset (EvFail x r) = None"

definition acked_offsets :: "partition_event list \<Rightarrow> i64 set" where
  "acked_offsets es = {x. EvAck x \<in> set es}"

fun live_acks :: "partition_event list \<Rightarrow> i64 set" where
  \<comment> \<open>offsets whose latest event is an ack; the list holds the latest event first\<close>
  "live_acks [] = {}"
| "live_acks (EvAck x # es) = insert x (live_acks es)"
| "live_acks (EvFail x r # es) = live_acks es - {x}"

definition wf_events :: "partition_event list \<Rightarrow> bool" where
  "wf_events es \<longleftrightarrow> list_all (\<lambda>e. case e of EvAck x \<Rightarrow> 0 \<le> x | EvFail x r \<Rightarrow> True) es"

datatype tracker_event =
    TAck string i32 i64
  | TFail string i32 i64 FailureReason

fun coord_step ::
  "('t \<Rightarrow> string \<Rightarrow> i32 \<Rightarrow> i64 \<Rightarrow> 't res) \<Rightarrow> ('t \<Rightarrow> string \<Rightarrow> i32 \<Rightarrow> i64 \<Rightarrow> FailureReason \<Rightarrow> 't)
   \<Rightarrow> 't \<Rightarrow> tracker_event \<Rightarrow> 't res" where
  "coord_step ack fail t (TAck topic part x) = ack t topic part x"
| "coord_step ack fail t (TFail topic part x r) = Inr (fail t topic part x r)"

abbreviation tracker_step :: "OffsetTracker \<Rightarrow> tracker_event \<Rightarrow> OffsetTracker res" where
  "tracker_step \<equiv> coord_step record_ack OffsetCoordinator_mark_failed"

definition tracker_run :: "tracker_event list \<Rightarrow> OffsetTracker res" where
  "tracker_run es = res_foldl tracker_step OffsetTracker_new es"

fun events_of :: "TopicPartitionKey \<Rightarrow> tracker_event list \<Rightarrow> partition_event list" where
  "events_of k [] = []"
| "events_of k (TAck topic part x # es) =
     (if (topic, part) = k then EvAck x # events_of k es else events_of k es)"
| "events_of k (TFail topic part x r # es) =
     (if (topic, part) = k then EvFail x r # events_of k es else events_of k es)"

section \<open>The cursor loop\<close>

lemma advance_spec:
  "advance c P = (c', P') \<Longrightarrow>
     c \<le> c' \<and> {c<..c'} \<subseteq> fset P \<and> fset P' = fset P - {c<..c'} \<and> c' + 1 |\<notin>| P"
proof (induction c P arbitrary: c' P' rule: advance.induct)
  case (1 c P)
  show ?case
  proof (cases "c + 1 |\<in>| P")
    case True
    with "1.prems" have "advance (c + 1) (P |-| {|c + 1|}) = (c', P')"
      by (simp add: advance.simps [of c P])
    from "1.IH" [OF True this] have IH: "c + 1 \<le> c'" "{c + 1<..c'} \<subseteq> fset P - {c + 1}"
      "fset P' = fset P - {c + 1} - {c + 1<..c'}" "c' + 1 |\<notin>| P |-| {|c + 1|}"
      by auto
    have "{c<..c'} = insert (c + 1) {c + 1<..c'}" using IH(1) by auto
    with IH True show ?thesis by auto
  next
    case False
    with "1.prems" show ?thesis by (simp add: advance.simps [of c P])
  qed
qed

lemma advance_step:
  "c + 1 |\<in>| P \<Longrightarrow> advance c P = advance (c + 1) (P |-| {|c + 1|})"
  "c + 1 |\<notin>| P \<Longrightarrow> advance c P = (c, P)"
  by (simp_all add: advance.simps [of c P])

lemma advanceE:
  obtains c' P' where "advance c P = (c', P')" "c \<le> c'" "{c<..c'} \<subseteq> fset P"
    "fset P' = fset P - {c<..c'}" "c' + 1 |\<notin>| P" "c' + 1 |\<notin>| P'"
  using advance_spec [of c P "fst (advance c P)" "snd (advance c P)"] that
  by (metis Diff_iff prod.collapse)

lemma is_watermark_unique: "is_watermark b A w \<Longrightarrow> is_watermark b A w' \<Longrightarrow> w = w'"
proof (rule ccontr)
  assume w: "is_watermark b A w" "is_watermark b A w'" and "w \<noteq> w'"
  then consider "w < w'" | "w' < w" by linarith
  then show False
  proof cases
    case 1
    then have "w + 1 \<in> {b..w'}" using w by (auto simp: is_watermark_def)
    then show False using w by (auto simp: is_watermark_def)
  next
    case 2
    then have "w' + 1 \<in> {b..w}" using w by (auto simp: is_watermark_def)
    then show False using w by (auto simp: is_watermark_def)
  qed
qed

section \<open>Simulation: a partition tracks the watermark of what was acknowledged\<close>

text \<open>
  The relation between a partition and its history: the base \<open>b\<close> is the first
  acknowledged offset, \<open>A\<close> the offsets that were ever acknowledged, \<open>L\<close> those whose
  latest event is an ack. Up to the cursor everything from the base was acknowledged, and
  above the cursor the pending set is exact. At or below the cursor the pending set may hold
  leftovers: offsets below the base, and offsets acknowledged again after they were absorbed.
\<close>

definition tracks :: "PartitionState \<Rightarrow> i64 \<Rightarrow> i64 set \<Rightarrow> i64 set \<Rightarrow> bool" where
  "tracks s b A L \<longleftrightarrow> 0 \<le> b \<and> b \<le> committed_offset s \<and> {b..committed_offset s} \<subseteq> A
     \<and> fset (pending_offsets s) \<subseteq> A \<and> committed_offset s + 1 |\<notin>| pending_offsets s
     \<and> (\<forall>y > committed_offset s. y |\<in>| pending_offsets s \<longleftrightarrow> y \<in> L)"

definition ack_start :: "PartitionState \<Rightarrow> i64 \<Rightarrow> i64" where
  "ack_start s x = (if committed_offset s = -1 then x - 1 else committed_offset s)"

lemma ack_cases:
  obtains c P where
    "PartitionState_ack s x = s\<lparr>committed_offset := c, pending_offsets := P,
       failed_offsets := failed_offsets s |-| {|x|}\<rparr>"
    "ack_start s x \<le> c"
    "{ack_start s x<..c} \<subseteq> insert x (fset (pending_offsets s))"
    "fset P = insert x (fset (pending_offsets s)) - {ack_start s x<..c}"
    "c + 1 \<noteq> x" "c + 1 |\<notin>| pending_offsets s"
proof -
  obtain c P where adv: "advance (ack_start s x) (finsert x (pending_offsets s)) = (c, P)" and
    props: "ack_start s x \<le> c" "{ack_start s x<..c} \<subseteq> fset (finsert x (pending_offsets s))"
      "fset P = fset (finsert x (pending_offsets s)) - {ack_start s x<..c}"
      "c + 1 |\<notin>| finsert x (pending_offsets s)"
    by (rule advanceE)
  from adv have "PartitionState_ack s x = s\<lparr>committed_offset := c, pending_offsets := P,
       failed_offsets := failed_offsets s |-| {|x|}\<rparr>"
    by (simp add: PartitionState_ack_def ack_start_def Let_def split: if_splits)
  with props show ?thesis by (intro that) auto
qed

lemma ack_first_tracks:
  assumes new: "committed_offset s = -1" "pending_offsets s = {||}" and x: "0 \<le> x"
  shows "tracks (PartitionState_ack s x) x {x} {x}"
proof -
  obtain c P where eq: "PartitionState_ack s x = s\<lparr>committed_offset := c, pending_offsets := P,
       failed_offsets := failed_offsets s |-| {|x|}\<rparr>"
    and c: "ack_start s x \<le> c" "{ack_start s x<..c} \<subseteq> insert x (fset (pending_offsets s))"
      "fset P = insert x (fset (pending_offsets s)) - {ack_start s x<..c}" "c + 1 \<noteq> x"
    by (rule ack_cases [of s x])
  have st: "ack_start s x = x - 1" using new by (simp add: ack_start_def)
  with c have "x \<le> c" by linarith
  moreover have "\<not> x < c"
  proof
    assume "x < c"
    then have "x + 1 \<in> {ack_start s x<..c}" using st by simp
    with c(2) have "x + 1 \<in> insert x (fset (pending_offsets s))" by (rule subsetD)
    with new show False by simp
  qed
  ultimately have "c = x" by linarith
  with eq c st new x show ?thesis by (auto simp: tracks_def)
qed

lemma ack_tracks:
  assumes "tracks s b A L"
  shows "tracks (PartitionState_ack s x) b (insert x A) (insert x L)"
proof -
  obtain c P where eq: "PartitionState_ack s x = s\<lparr>committed_offset := c, pending_offsets := P,
       failed_offsets := failed_offsets s |-| {|x|}\<rparr>"
    and c: "ack_start s x \<le> c" "{ack_start s x<..c} \<subseteq> insert x (fset (pending_offsets s))"
      "fset P = insert x (fset (pending_offsets s)) - {ack_start s x<..c}"
      "c + 1 \<noteq> x" "c + 1 |\<notin>| pending_offsets s"
    by (rule ack_cases [of s x])
  have st: "ack_start s x = committed_offset s" using assms by (simp add: ack_start_def tracks_def)
  have "{b..c} \<subseteq> {b..committed_offset s} \<union> {committed_offset s<..c}" by auto
  also have "\<dots> \<subseteq> insert x A" using assms c(2) unfolding tracks_def st by blast
  finally have "{b..c} \<subseteq> insert x A" .
  moreover have "fset P \<subseteq> insert x A" using assms c(3) by (auto simp: tracks_def)
  moreover have "c + 1 |\<notin>| P" using c(3-5) by auto
  moreover have "\<forall>y > c. y |\<in>| P \<longleftrightarrow> y \<in> insert x L"
    using assms c(1,3) unfolding st by (auto simp: tracks_def)
  ultimately show ?thesis
    using eq c(1) assms unfolding st by (simp add: tracks_def)
qed

lemma fail_tracks:
  assumes "tracks s b A L"
  shows "tracks (partition_fail s x r) b A (L - {x})"
  using assms by (auto simp: tracks_def partition_fail_def PartitionState_mark_failed_def Let_def)

lemma acked_offsets_simps [simp]:
  "acked_offsets [] = {}"
  "acked_offsets (EvAck x # es) = insert x (acked_offsets es)"
  "acked_offsets (EvFail x r # es) = acked_offsets es"
  by (auto simp: acked_offsets_def)

lemma acked_offsets_rev [simp]: "acked_offsets (rev es) = acked_offsets es"
  by (simp add: acked_offsets_def)

lemma wf_events_simps [simp]:
  "wf_events []"
  "wf_events (EvAck x # es) \<longleftrightarrow> 0 \<le> x \<and> wf_events es"
  "wf_events (EvFail x r # es) \<longleftrightarrow> wf_events es"
  by (simp_all add: wf_events_def)

text \<open>A run, latest event first, so that inductions peel off the last step.\<close>

definition run_back :: "PartitionState \<Rightarrow> partition_event list \<Rightarrow> PartitionState" where
  "run_back s es = foldr (\<lambda>e s. partition_step s e) es s"

lemma run_back_simps [simp]:
  "run_back s [] = s"
  "run_back s (e # es) = partition_step (run_back s es) e"
  by (simp_all add: run_back_def)

lemma foldl_run_back: "foldl partition_step s es = run_back s (rev es)"
  by (simp add: run_back_def foldr_conv_foldl)

lemma first_ack_snoc: "first_ack (es @ [e]) = (case first_ack es of Some b \<Rightarrow> Some b | None \<Rightarrow> ack_offset e)"
  by (induction es rule: first_ack.induct) (cases e; auto)+

lemma run_unseeded:
  "first_ack (rev es) = None \<Longrightarrow>
     committed_offset (run_back PartitionState_new es) = -1
     \<and> pending_offsets (run_back PartitionState_new es) = {||}"
proof (induction es)
  case Nil
  then show ?case by (simp add: PartitionState_new_def)
next
  case (Cons e es)
  then show ?case
    by (cases e) (auto simp: first_ack_snoc partition_fail_def PartitionState_mark_failed_def Let_def
        split: option.splits)
qed

lemma live_acks_subset: "live_acks es \<subseteq> acked_offsets es"
  by (induction es rule: live_acks.induct) auto

lemma first_ack_None: "first_ack es = None \<Longrightarrow> acked_offsets es = {}"
  by (induction es rule: first_ack.induct) auto

lemma run_tracks:
  "wf_events es \<Longrightarrow> first_ack (rev es) = Some b \<Longrightarrow>
     tracks (run_back PartitionState_new es) b (acked_offsets es) (live_acks es)"
proof (induction es)
  case Nil
  then show ?case by simp
next
  case (Cons e es)
  show ?case
  proof (cases "first_ack (rev es)")
    case None
    with Cons.prems have e: "e = EvAck b" "0 \<le> b"
      by (cases e; simp add: first_ack_snoc)+
    have "acked_offsets es = {}" using first_ack_None [OF None] by simp
    moreover have "live_acks es = {}" using live_acks_subset [of es] \<open>acked_offsets es = {}\<close> by simp
    ultimately show ?thesis
      using e run_unseeded [OF None] ack_first_tracks [of "run_back PartitionState_new es" b] by simp
  next
    case (Some b')
    with Cons have "tracks (run_back PartitionState_new es) b (acked_offsets es) (live_acks es)"
      by (cases e) (auto simp: first_ack_snoc)
    then show ?thesis
      by (cases e) (auto intro: ack_tracks fail_tracks)
  qed
qed

section \<open>The tracker is the product of its partitions\<close>

fun opt_step :: "PartitionState option \<Rightarrow> partition_event \<Rightarrow> PartitionState option" where
  \<comment> \<open>a failure on a partition that was never acknowledged is not recorded\<close>
  "opt_step None (EvFail x r) = None"
| "opt_step None (EvAck x) = Some (PartitionState_ack PartitionState_new x)"
| "opt_step (Some s) e = Some (partition_step s e)"

lemma opt_step_Some: "foldl opt_step (Some s) es = Some (foldl partition_step s es)"
  by (induction es arbitrary: s) auto

lemma tracker_run_partition:
  "res_foldl tracker_step t es = Inr t' \<Longrightarrow>
     partitions t' k = foldl opt_step (partitions t k) (events_of k es)"
proof (induction es arbitrary: t)
  case Nil
  then show ?case by simp
next
  case (Cons e es)
  then obtain t1 where t1: "tracker_step t e = Inr t1" "res_foldl tracker_step t1 es = Inr t'"
    by auto
  show ?case
  proof (cases e)
    case (TAck topic part x)
    with t1(1) have "partitions t1 k =
      (if (topic, part) = k then opt_step (partitions t k) (EvAck x) else partitions t k)"
      by (auto simp: record_ack_def OffsetTracker_ack_def Let_def split: if_splits option.splits)
    with Cons.IH [OF t1(2)] TAck show ?thesis by simp
  next
    case (TFail topic part x r)
    with t1(1) have "partitions t1 k =
      (if (topic, part) = k then opt_step (partitions t k) (EvFail x r) else partitions t k)"
      by (auto simp: OffsetCoordinator_mark_failed_def split: option.splits)
    with Cons.IH [OF t1(2)] TFail show ?thesis by simp
  qed
qed

lemma tracker_run_wf: "res_foldl tracker_step t es = Inr t' \<Longrightarrow> wf_events (events_of k es)"
proof (induction es arbitrary: t)
  case (Cons e es)
  then show ?case
    by (cases e) (auto simp: record_ack_def OffsetTracker_ack_def split: if_splits)
qed simp

lemma events_of_TAck: "EvAck x \<in> set (events_of (topic, part) es) \<longleftrightarrow> TAck topic part x \<in> set es"
  by (induction "(topic, part)" es rule: events_of.induct) auto

lemma live_acks_oldest_fail: "live_acks (es @ [EvFail x r]) = live_acks es"
  by (induction es rule: live_acks.induct) auto

lemma fold_opt_step_new:
  "foldl opt_step None es = Some s \<Longrightarrow> wf_events es \<Longrightarrow>
     \<exists>b. first_ack es = Some b \<and> tracks s b (acked_offsets es) (live_acks (rev es))"
proof (induction es rule: first_ack.induct)
  case (2 x es)
  have "wf_events (rev (EvAck x # es))" using "2.prems"(2) by (simp add: wf_events_def)
  then have "tracks (run_back PartitionState_new (rev (EvAck x # es))) x
       (acked_offsets (EvAck x # es)) (live_acks (rev (EvAck x # es)))"
    using run_tracks [of "rev (EvAck x # es)" x] acked_offsets_rev [of "EvAck x # es"] by simp
  moreover have "s = run_back PartitionState_new (rev (EvAck x # es))"
    using "2.prems"(1) opt_step_Some foldl_run_back [of PartitionState_new "EvAck x # es"] by simp
  ultimately show ?case by simp
next
  case (3 x r es)
  then obtain b where b: "first_ack es = Some b" "tracks s b (acked_offsets es) (live_acks (rev es))"
    by auto
  then show ?case by (simp add: live_acks_oldest_fail)
qed simp

lemma tracker_tracks:
  assumes "tracker_run es = Inr t" "partitions t (topic, part) = Some s"
  obtains b where "first_ack (events_of (topic, part) es) = Some b"
    "tracks s b (acked_offsets (events_of (topic, part) es))
       (live_acks (rev (events_of (topic, part) es)))"
  using assms tracker_run_partition [of OffsetTracker_new es t "(topic, part)"]
    tracker_run_wf [of OffsetTracker_new es t "(topic, part)"]
    fold_opt_step_new [of "events_of (topic, part) es" s]
  by (auto simp: tracker_run_def OffsetTracker_new_def)

lemma tracker_partition_valid:
  assumes "tracker_run es = Inr t" "partitions t (topic, part) = Some s"
  shows "0 \<le> committed_offset s"
  using assms by (rule tracker_tracks) (auto simp: tracks_def)

section \<open>The contract of an offset coordinator\<close>

text \<open>
  What the worker pool relies on, whatever object implements the trait: acknowledging a
  non-negative offset never fails, no operation moves a watermark backwards, an operation on
  one partition leaves the others alone, a failure moves no watermark, and a terminal failure
  on a partition with a watermark closes it for commits for good.
\<close>

locale offset_coordinator =
  fixes ack :: "'t \<Rightarrow> string \<Rightarrow> i32 \<Rightarrow> i64 \<Rightarrow> 't res"
    and fail :: "'t \<Rightarrow> string \<Rightarrow> i32 \<Rightarrow> i64 \<Rightarrow> FailureReason \<Rightarrow> 't"
    and mark :: "'t \<Rightarrow> string \<Rightarrow> i32 \<Rightarrow> i64 option"
    and ready :: "'t \<Rightarrow> string \<Rightarrow> i32 \<Rightarrow> bool"
    and valid :: "'t \<Rightarrow> bool"
  assumes ack_total: "0 \<le> x \<Longrightarrow> \<exists>t'. ack t topic part x = Inr t'"
    and ack_valid: "valid t \<Longrightarrow> ack t topic part x = Inr t' \<Longrightarrow> valid t'"
    and fail_valid: "valid t \<Longrightarrow> valid (fail t topic part x r)"
    and ack_mark: "valid t \<Longrightarrow> ack t topic part x = Inr t' \<Longrightarrow> mark t topic part = Some w
       \<Longrightarrow> \<exists>w' \<ge> w. mark t' topic part = Some w'"
    and ack_mark_other: "ack t topic part x = Inr t' \<Longrightarrow> (topic', part') \<noteq> (topic, part)
       \<Longrightarrow> mark t' topic' part' = mark t topic' part'"
    and fail_mark: "mark (fail t topic part x r) topic' part' = mark t topic' part'"
    and fail_terminal: "mark t topic part = Some w \<Longrightarrow> category r = TerminalCat
       \<Longrightarrow> \<not> ready (fail t topic part x r) topic part"
    and closed_ack: "valid t \<Longrightarrow> ack t topic' part' x = Inr t' \<Longrightarrow> mark t topic part = Some w
       \<Longrightarrow> \<not> ready t topic part \<Longrightarrow> \<not> ready t' topic part"
    and closed_fail: "valid t \<Longrightarrow> mark t topic part = Some w \<Longrightarrow> \<not> ready t topic part
       \<Longrightarrow> \<not> ready (fail t topic' part' x r) topic part"
begin

lemma coord_step_valid: "valid t \<Longrightarrow> coord_step ack fail t e = Inr t' \<Longrightarrow> valid t'"
  by (cases e) (auto intro: ack_valid fail_valid)

lemma coord_step_mark:
  "valid t \<Longrightarrow> coord_step ack fail t e = Inr t' \<Longrightarrow> mark t topic part = Some w
     \<Longrightarrow> \<exists>w' \<ge> w. mark t' topic part = Some w'"
proof (cases e)
  case (TAck topic' part' x)
  assume "valid t" "coord_step ack fail t e = Inr t'" "mark t topic part = Some w"
  with TAck show ?thesis
    using ack_mark [of t topic part x t' w] ack_mark_other [of t topic' part' x t' topic part]
    by (cases "(topic', part') = (topic, part)") auto
qed (auto simp: fail_mark)

lemma coord_run_mark:
  "valid t \<Longrightarrow> res_foldl (coord_step ack fail) t es = Inr t' \<Longrightarrow> mark t topic part = Some w
     \<Longrightarrow> \<exists>w' \<ge> w. mark t' topic part = Some w'"
proof (induction es arbitrary: t w)
  case (Cons e es)
  then obtain t1 where t1: "coord_step ack fail t e = Inr t1" "res_foldl (coord_step ack fail) t1 es = Inr t'"
    by auto
  then obtain w1 where "w \<le> w1" "mark t1 topic part = Some w1"
    using coord_step_mark Cons.prems by blast
  then show ?case
    using Cons.IH [of t1 w1] t1 Cons.prems(1) coord_step_valid by fastforce
qed auto

lemma coord_step_closed:
  "valid t \<Longrightarrow> coord_step ack fail t e = Inr t' \<Longrightarrow> mark t topic part = Some w
     \<Longrightarrow> \<not> ready t topic part \<Longrightarrow> \<not> ready t' topic part"
  by (cases e) (auto dest: closed_ack closed_fail)

lemma coord_run_closed:
  "valid t \<Longrightarrow> res_foldl (coord_step ack fail) t es = Inr t' \<Longrightarrow> mark t topic part = Some w
     \<Longrightarrow> \<not> ready t topic part \<Longrightarrow> \<not> ready t' topic part"
proof (induction es arbitrary: t w)
  case (Cons e es)
  then obtain t1 where t1: "coord_step ack fail t e = Inr t1" "res_foldl (coord_step ack fail) t1 es = Inr t'"
    by auto
  then obtain w1 where "mark t1 topic part = Some w1" "\<not> ready t1 topic part"
    using coord_step_mark coord_step_closed Cons.prems by blast
  then show ?case
    using Cons.IH [of t1 w1] t1 Cons.prems(1) coord_step_valid by blast
qed simp

lemma terminal_closes_run:
  assumes "valid t" "mark t topic part = Some w" "category r = TerminalCat"
    "res_foldl (coord_step ack fail) t (TFail topic part x r # es) = Inr t'"
  shows "\<not> ready t' topic part"
  using assms coord_run_closed [of "fail t topic part x r" es t' topic part w]
  by (simp add: fail_valid fail_mark fail_terminal)

end

definition tracker_valid :: "OffsetTracker \<Rightarrow> bool" where
  "tracker_valid t \<longleftrightarrow> (\<forall>k s. partitions t k = Some s \<longrightarrow> 0 \<le> committed_offset s)"

lemma ack_committed_ge:
  "0 \<le> x \<Longrightarrow> -1 \<le> committed_offset s \<Longrightarrow>
     0 \<le> committed_offset (PartitionState_ack s x) \<and>
     committed_offset s \<le> committed_offset (PartitionState_ack s x)"
  by (rule ack_cases [of s x]) (auto simp: ack_start_def split: if_splits)

lemma ack_committed_nonneg: "0 \<le> x \<Longrightarrow> 0 \<le> committed_offset s \<Longrightarrow> 0 \<le> committed_offset (PartitionState_ack s x)"
  using ack_committed_ge [of x s] by simp

lemma ack_new_committed: "0 \<le> x \<Longrightarrow> 0 \<le> committed_offset (PartitionState_ack PartitionState_new x)"
  using ack_committed_ge [of x PartitionState_new] by (simp add: PartitionState_new_def)

lemma partition_fail_simps [simp]:
  "committed_offset (partition_fail s x r) = committed_offset s"
  "has_terminal (partition_fail s x r) \<longleftrightarrow> has_terminal s \<or> category r = TerminalCat"
  by (simp_all add: partition_fail_def PartitionState_mark_failed_def Let_def)

lemma ack_has_terminal [simp]: "has_terminal (PartitionState_ack s x) = has_terminal s"
  by (rule ack_cases [of s x]) simp

interpretation tracker: offset_coordinator record_ack OffsetCoordinator_mark_failed
  highest_contiguous OffsetTracker_should_commit tracker_valid
proof (unfold_locales, goal_cases)
  case (1 x t topic part)
  then show ?case by (simp add: record_ack_def OffsetTracker_ack_def Let_def)
next
  case (2 t topic part x t')
  then have x: "0 \<le> x" and t': "partitions t' = (partitions t)((topic, part) \<mapsto>
      PartitionState_ack (case partitions t (topic, part) of Some s \<Rightarrow> s | None \<Rightarrow> PartitionState_new) x)"
    by (auto simp: record_ack_def OffsetTracker_ack_def Let_def split: if_splits)
  have "0 \<le> committed_offset (PartitionState_ack
      (case partitions t (topic, part) of Some s \<Rightarrow> s | None \<Rightarrow> PartitionState_new) x)"
    using 2(1) x unfolding tracker_valid_def
    by (cases "partitions t (topic, part)") (simp_all add: ack_new_committed ack_committed_nonneg)
  with 2(1) t' show ?case by (simp add: tracker_valid_def)
next
  case (3 t topic part x r)
  then show ?case
    by (auto simp: OffsetCoordinator_mark_failed_def tracker_valid_def split: option.splits)
next
  case (4 t topic part x t' w)
  then obtain s where s: "partitions t (topic, part) = Some s" "w = committed_offset s" "0 \<le> x"
    by (auto simp: highest_contiguous_def record_ack_def OffsetTracker_ack_def split: if_splits)
  moreover have "0 \<le> committed_offset s" using 4(1) s(1) unfolding tracker_valid_def by blast
  ultimately show ?case
    using 4(2) ack_committed_ge [of x s]
    by (auto simp: highest_contiguous_def record_ack_def OffsetTracker_ack_def tracker_valid_def Let_def)
next
  case (5 t topic part x t' topic' part')
  then show ?case
    by (auto simp: highest_contiguous_def record_ack_def OffsetTracker_ack_def Let_def split: if_splits)
next
  case (6 t topic part x r topic' part')
  then show ?case
    by (auto simp: highest_contiguous_def OffsetCoordinator_mark_failed_def split: option.splits)
next
  case (7 t topic part w r x)
  then show ?case
    by (auto simp: highest_contiguous_def OffsetTracker_should_commit_def OffsetCoordinator_mark_failed_def)
next
  case (8 t topic' part' x t' topic part w)
  then show ?case
    by (auto simp: highest_contiguous_def OffsetTracker_should_commit_def tracker_valid_def
        record_ack_def OffsetTracker_ack_def Let_def split: if_splits)
next
  case (9 t topic part w topic' part' x r)
  then show ?case
    by (auto simp: highest_contiguous_def OffsetTracker_should_commit_def tracker_valid_def
        OffsetCoordinator_mark_failed_def split: option.splits if_splits)
qed

section \<open>Properties of the tracker\<close>

lemma tracker_watermarkE:
  assumes "tracker_run es = Inr t" "highest_contiguous t topic part = Some w"
  obtains b where "first_ack (events_of (topic, part) es) = Some b" "0 \<le> b" "b \<le> w"
    "{b..w} \<subseteq> acked_offsets (events_of (topic, part) es)"
    "w + 1 \<notin> live_acks (rev (events_of (topic, part) es))"
proof -
  from assms(2) obtain s where s: "partitions t (topic, part) = Some s" "w = committed_offset s"
    by (auto simp: highest_contiguous_def)
  show ?thesis
    by (rule tracker_tracks [OF assms(1) s(1)]) (use that s(2) in \<open>auto simp: tracks_def\<close>)
qed

lemma should_commit_registered:
  "OffsetTracker_should_commit t topic part \<Longrightarrow> \<exists>s. partitions t (topic, part) = Some s"
  by (auto simp: OffsetTracker_should_commit_def split: option.splits)

lemma tracker_run_valid: "tracker_run es = Inr t \<Longrightarrow> tracker_valid t"
  unfolding tracker_valid_def using tracker_partition_valid by (metis surj_pair)

fun ack_only :: "partition_event list \<Rightarrow> bool" where
  "ack_only [] = True"
| "ack_only (EvAck x # es) = ack_only es"
| "ack_only (EvFail x r # es) = False"

lemma ack_only_live: "ack_only es \<Longrightarrow> live_acks (rev es) = acked_offsets es"
proof -
  have app: "live_acks (fs @ [EvAck x]) = insert x (live_acks fs)" if "ack_only fs" for fs x
    using that by (induction fs rule: ack_only.induct) auto
  have rv: "ack_only (rev fs)" if "ack_only fs" for fs
  proof -
    have "ack_only (gs @ [EvAck x])" if "ack_only gs" for gs x
      using that by (induction gs rule: ack_only.induct) auto
    with that show ?thesis by (induction fs rule: ack_only.induct) auto
  qed
  assume "ack_only es"
  then show ?thesis by (induction es rule: ack_only.induct) (auto simp: app rv)
qed

lemma ack_only_watermark:
  assumes "tracker_run es = Inr t" "ack_only (events_of (topic, part) es)"
    "first_ack (events_of (topic, part) es) = Some b"
  shows "\<exists>w. highest_contiguous t topic part = Some w
           \<and> is_watermark b (acked_offsets (events_of (topic, part) es)) w"
proof -
  have "foldl opt_step None (events_of (topic, part) es) \<noteq> None"
    using assms(2,3) opt_step_Some by (cases "(events_of (topic, part) es)" rule: ack_only.cases) auto
  then obtain w where w: "highest_contiguous t topic part = Some w"
    using tracker_run_partition [of OffsetTracker_new es t "(topic, part)"] assms(1)
    by (auto simp: tracker_run_def OffsetTracker_new_def highest_contiguous_def)
  show ?thesis
    by (rule tracker_watermarkE [OF assms(1) w])
      (use assms(2,3) w in \<open>auto simp: ack_only_live is_watermark_def\<close>)
qed

definition sample_events :: "tracker_event list" where
  "sample_events =
     [TAck ''t'' 0 10, TAck ''t'' 0 12, TFail ''t'' 0 13 (Terminal HandlerPanic), TAck ''u'' 1 4,
      TAck ''t'' 0 11]"

lemmas tracker_eval = tracker_run_def OffsetTracker_new_def record_ack_def OffsetTracker_ack_def
  OffsetCoordinator_mark_failed_def PartitionState_ack_def PartitionState_new_def partition_fail_def
  PartitionState_mark_failed_def advance_step highest_contiguous_def OffsetTracker_should_commit_def Let_def

lemma sample_run:
  "\<exists>t. tracker_run sample_events = Inr t \<and> highest_contiguous t ''t'' 0 = Some 12"
  by (simp add: sample_events_def tracker_eval cong: res_bind_weak_cong)



text \<open>
  C18 (functional). On a partition that saw no failure the watermark is a function of the first
  acknowledged offset and of the set of acknowledged offsets: the order in which concurrent
  workers finish, and repeated acknowledgements, do not change it.
\<close>

theorem watermark_order_independent:
  assumes "tracker_run es = Inr t" "tracker_run es' = Inr t'"
    "ack_only (events_of (topic, part) es)" "ack_only (events_of (topic, part) es')"
    "first_ack (events_of (topic, part) es) = first_ack (events_of (topic, part) es')"
    "acked_offsets (events_of (topic, part) es) = acked_offsets (events_of (topic, part) es')"
  shows "highest_contiguous t topic part = highest_contiguous t' topic part"
proof (cases "first_ack (events_of (topic, part) es)")
  case None
  then have "events_of (topic, part) es = []" "events_of (topic, part) es' = []"
    using assms(3-5) by (metis ack_only.elims(2) first_ack.simps(2) option.discI)+
  then show ?thesis
    using assms(1,2) tracker_run_partition [of OffsetTracker_new es t "(topic, part)"]
      tracker_run_partition [of OffsetTracker_new es' t' "(topic, part)"]
    by (simp add: tracker_run_def highest_contiguous_def OffsetTracker_new_def)
next
  case (Some b)
  then show ?thesis
    using ack_only_watermark [OF assms(1,3), of b] ack_only_watermark [OF assms(2,4), of b]
      assms(5,6) is_watermark_unique by fastforce
qed

theorem watermark_order_independent_witness:
  "\<exists>t t'. tracker_run [TAck ''t'' 0 5, TAck ''t'' 0 7, TAck ''t'' 0 6] = Inr t
     \<and> tracker_run [TAck ''t'' 0 5, TAck ''t'' 0 6, TAck ''t'' 0 7, TAck ''t'' 0 6] = Inr t'
     \<and> highest_contiguous t ''t'' 0 = highest_contiguous t' ''t'' 0"
proof -
  let ?es = "[TAck ''t'' 0 5, TAck ''t'' 0 7, TAck ''t'' 0 6]"
  let ?es' = "[TAck ''t'' 0 5, TAck ''t'' 0 6, TAck ''t'' 0 7, TAck ''t'' 0 6]"
  obtain t t' where "tracker_run ?es = Inr t" "tracker_run ?es' = Inr t'"
    by (simp add: tracker_eval cong: res_bind_weak_cong)
  moreover from this have "highest_contiguous t ''t'' 0 = highest_contiguous t' ''t'' 0"
    by (rule watermark_order_independent) auto
  ultimately show ?thesis by blast
qed



text \<open>
  C19 (safety). A terminal failure on a partition that has a watermark closes it: whatever is
  acknowledged or fails afterwards, \<open>should_commit\<close> answers false for it for good.
\<close>

theorem terminal_failure_blocks_commit:
  assumes "tracker_run es = Inr t" "highest_contiguous t topic part = Some w"
    "category r = TerminalCat"
    "res_foldl tracker_step t (TFail topic part x r # es') = Inr t'"
  shows "\<not> OffsetTracker_should_commit t' topic part"
  using tracker.terminal_closes_run [OF tracker_run_valid [OF assms(1)] assms(2-4)] .

theorem terminal_failure_blocks_commit_witness:
  "\<exists>t t'. tracker_run sample_events = Inr t
     \<and> res_foldl tracker_step t [TFail ''t'' 0 9 (Terminal PoisonMessage), TAck ''t'' 0 13] = Inr t'
     \<and> \<not> OffsetTracker_should_commit t' ''t'' 0"
proof -
  obtain t where t: "tracker_run sample_events = Inr t" "highest_contiguous t ''t'' 0 = Some 12"
    using sample_run by blast
  obtain t' where t': "res_foldl tracker_step t [TFail ''t'' 0 9 (Terminal PoisonMessage), TAck ''t'' 0 13] = Inr t'"
    using tracker.ack_total [of 13 "OffsetCoordinator_mark_failed t ''t'' 0 9 (Terminal PoisonMessage)" "''t''" 0]
    by auto
  from terminal_failure_blocks_commit [OF t(1,2) _ t'] t t' show ?thesis by auto
qed

text \<open>
  While every acknowledged offset is below the largest \<open>i64\<close>, the cursor
  arithmetic of the acknowledgement loop stays inside \<open>i64\<close>: neither the seed
  \<open>offset - 1\<close> nor the next cursor position overflows.
\<close>

lemma cursor_in_i64:
  assumes "tracker_run es = Inr t" "highest_contiguous t topic part = Some w"
    "list_all (\<lambda>e. case e of TAck _ _ x \<Rightarrow> x < i64_max | _ \<Rightarrow> True) es"
  shows "0 \<le> w \<and> in_i64 (w + 1)
    \<and> (\<forall>b. first_ack (events_of (topic, part) es) = Some b \<longrightarrow> in_i64 (b - 1))"
proof -
  obtain b where b: "first_ack (events_of (topic, part) es) = Some b" "0 \<le> b" "b \<le> w"
    "{b..w} \<subseteq> acked_offsets (events_of (topic, part) es)"
    by (rule tracker_watermarkE [OF assms(1,2)])
  then have "TAck topic part w \<in> set es" by (auto simp: acked_offsets_def events_of_TAck subset_iff)
  with assms(3) have "w < i64_max" by (fastforce simp: list_all_iff)
  with b show ?thesis by (auto simp: in_i64_def i64_min_def i64_max_def)
qed

text \<open>
  The tracker panics on exactly the histories that acknowledge a negative offset;
  otherwise every sequence of acknowledgements and failures is accepted.
\<close>

lemma tracker_panics_iff:
  "(\<exists>t. tracker_run es = Inr t)
     \<longleftrightarrow> list_all (\<lambda>e. case e of TAck _ _ x \<Rightarrow> 0 \<le> x | TFail _ _ _ _ \<Rightarrow> True) es"
proof -
  have "(\<exists>t'. res_foldl tracker_step t es = Inr t')
     \<longleftrightarrow> list_all (\<lambda>e. case e of TAck _ _ x \<Rightarrow> 0 \<le> x | TFail _ _ _ _ \<Rightarrow> True) es" for t
    by (induction es arbitrary: t)
      (auto simp: record_ack_def OffsetTracker_ack_def Let_def split: tracker_event.splits)
  then show ?thesis by (simp add: tracker_run_def)
qed

text \<open>
  What \<open>graceful_shutdown\<close> really asks of the consumer: one state commit for
  every partition that is ready, and no offset is ever stored, because the future that would
  store it is dropped before it runs.
\<close>

lemma graceful_shutdown_stores_nothing:
  "graceful_shutdown ks t =
     (if runner_set t
      then replicate (length (filter (\<lambda>(topic, part). OffsetTracker_should_commit t topic part) ks)) CommitState
      else [])"
proof -
  have "shutdown_calls t (filter (\<lambda>k. partitions t k \<noteq> None) ks) =
     (if runner_set t
      then replicate (length (filter (\<lambda>(topic, part). OffsetTracker_should_commit t topic part) ks)) CommitState
      else [])"
    by (induction ks) (auto simp: drop_future_def highest_contiguous_def dest: should_commit_registered)
  then show ?thesis by (simp add: graceful_shutdown_def all_partitions_def)
qed

text \<open>
  Three corners of the bookkeeping. A first acknowledgement that overtakes earlier
  messages sets the watermark past them; an earlier message acknowledged later stays in the
  pending set below the watermark; and a terminal failure that precedes every acknowledgement of
  its partition leaves no trace, so the partition still commits.
\<close>

lemma tracker_corner_cases:
  "\<exists>t u. tracker_run [TAck ''t'' 0 5, TAck ''t'' 0 3] = Inr t
     \<and> highest_contiguous t ''t'' 0 = Some 5
     \<and> map_option pending_offsets (partitions t (''t'', 0)) = Some {|3|}
     \<and> tracker_run [TFail ''t'' 0 4 (Terminal PoisonMessage), TAck ''t'' 0 5] = Inr u
     \<and> map_option failed_offsets (partitions u (''t'', 0)) = Some {||}
     \<and> OffsetTracker_should_commit u ''t'' 0"
  by (simp add: tracker_eval cong: res_bind_weak_cong)

end
