(* ===== verification/Retry.thy ===== *)
theory Retry
  imports Messages
begin

text \<open>
  Retries (\<^verbatim>\<open>src/retry/policy.rs\<close>, \<^verbatim>\<open>src/retry/retry_coordinator.rs\<close>): the backoff schedule
  and the per-message retry state. A \<open>Duration\<close> is its number of nanoseconds. The
  arithmetic on \<open>f64\<close> is exact real arithmetic followed by the rounding of the environment;
  a configured jitter factor is a finite number.
\<close>

section \<open>Durations\<close>

type_synonym duration = nat

definition nanos_per_sec :: nat where "nanos_per_sec = 1000000000"

definition from_millis :: "nat \<Rightarrow> duration" where "from_millis ms = ms * 1000000"
definition from_secs :: "nat \<Rightarrow> duration" where "from_secs s = s * nanos_per_sec"

definition as_secs_f64 :: "(real \<Rightarrow> real) \<Rightarrow> duration \<Rightarrow> real" where
  "as_secs_f64 rnd d =
     rnd (rnd (real (d div nanos_per_sec)) + rnd (real (d mod nanos_per_sec) / real nanos_per_sec))"

definition round_half_even :: "real \<Rightarrow> int" where
  "round_half_even x =
     (let f = \<lfloor>x\<rfloor>; d = x - of_int f
      in if d < 1 / 2 then f else if 1 / 2 < d then f + 1 else if even f then f else f + 1)"

definition from_secs_f64 :: "real \<Rightarrow> duration res" where
  \<comment> \<open>panics on a negative number and on one that does not fit; rounds to the nanosecond\<close>
  "from_secs_f64 x =
     (if x < 0 then Inl (Panic ''cannot convert float seconds to Duration: value is negative'')
      else let n = round_half_even (x * real nanos_per_sec)
           in if n < 2 ^ 64 * int nanos_per_sec then Inr (nat n)
              else Inl (Panic ''cannot convert float seconds to Duration: value is too large''))"

section \<open>Policy and schedule\<close>

record RetryPolicy =
  max_attempts :: nat
  base_delay :: duration
  max_delay :: duration
  jitter_factor :: real

definition RetryPolicy_new :: "nat \<Rightarrow> duration \<Rightarrow> duration \<Rightarrow> real \<Rightarrow> RetryPolicy" where
  "RetryPolicy_new attempts base cap jitter =
     \<lparr>max_attempts = attempts, base_delay = base, max_delay = cap, jitter_factor = jitter\<rparr>"

definition RetryPolicy_default :: "(real \<Rightarrow> real) \<Rightarrow> RetryPolicy" where
  "RetryPolicy_default rnd =
     \<lparr>max_attempts = 3, base_delay = from_millis 100, max_delay = from_secs 30,
      jitter_factor = rnd (1 / 10)\<rparr>"

record RetrySchedule =
  sched_base_delay :: duration
  sched_max_delay :: duration
  sched_jitter_factor :: real

definition schedule :: "RetryPolicy \<Rightarrow> RetrySchedule" where
  "schedule p = \<lparr>sched_base_delay = base_delay p, sched_max_delay = max_delay p,
     sched_jitter_factor = jitter_factor p\<rparr>"

definition capped_secs :: "(real \<Rightarrow> real) \<Rightarrow> RetrySchedule \<Rightarrow> nat \<Rightarrow> real" where
  \<comment> \<open>from 1024 on the power of two is infinite, and the product infinite or not a number:
      \<open>f64::min\<close> answers the cap\<close>
  "capped_secs rnd s attempt =
     (let base_ms = as_secs_f64 rnd (sched_base_delay s);
          max_ms = as_secs_f64 rnd (sched_max_delay s)
      in if 1024 \<le> attempt then max_ms else min (rnd (base_ms * 2 ^ attempt)) max_ms)"

definition jitter_multiplier :: "(real \<Rightarrow> real) \<Rightarrow> RetrySchedule \<Rightarrow> real \<Rightarrow> real" where
  "jitter_multiplier rnd s jitter =
     rnd (rnd (1 - sched_jitter_factor s) + rnd (rnd (jitter * sched_jitter_factor s) * 2))"

definition next_delay :: "env \<Rightarrow> RetrySchedule \<Rightarrow> nat \<Rightarrow> duration res" where
  "next_delay e s attempt =
     from_secs_f64 (f64_round e (capped_secs (f64_round e) s attempt
                                 * jitter_multiplier (f64_round e) s (random_draw e)))"

section \<open>The coordinator\<close>

datatype RetryState = Retrying nat | Exhausted

fun attempt :: "RetryState \<Rightarrow> nat" where
  "attempt (Retrying n) = n"
| "attempt Exhausted = 0"

type_synonym RetryKey = "string \<times> i32 \<times> i64"

record RetryCoordinator =
  retry_state :: "RetryKey \<rightharpoonup> RetryState"
  default_policy :: RetryPolicy

definition RetryCoordinator_new :: "RetryPolicy \<Rightarrow> RetryCoordinator" where
  "RetryCoordinator_new p = \<lparr>retry_state = Map.empty, default_policy = p\<rparr>"

type_synonym decision = "bool \<times> bool \<times> duration option"

definition to_dlq :: decision where "to_dlq = (False, True, None)"

definition set_retry_state :: "RetryCoordinator \<Rightarrow> RetryKey \<Rightarrow> RetryState \<Rightarrow> RetryCoordinator" where
  "set_retry_state c k st = c\<lparr>retry_state := (retry_state c)(k \<mapsto> st)\<rparr>"

definition record_failure ::
  "env \<Rightarrow> RetryCoordinator \<Rightarrow> string \<Rightarrow> i32 \<Rightarrow> i64 \<Rightarrow> FailureReason \<Rightarrow> (RetryCoordinator \<times> decision) res" where
  "record_failure e c topic part offset reason =
     (let key = (topic, part, offset) in
      if category reason \<noteq> RetryableCat then Inr (c, to_dlq)
      else case retry_state c key of
        Some Exhausted \<Rightarrow> Inr (c, to_dlq)
      | Some (Retrying n) \<Rightarrow>
          if n + 1 \<ge> max_attempts (default_policy c) then Inr (set_retry_state c key Exhausted, to_dlq)
          else res_bind (next_delay e (schedule (default_policy c)) (n + 1 - 1))
                 (\<lambda>delay. Inr (set_retry_state c key (Retrying (n + 1)), (True, False, Some delay)))
      | None \<Rightarrow>
          if 1 \<ge> max_attempts (default_policy c) then Inr (set_retry_state c key Exhausted, to_dlq)
          else res_bind (next_delay e (schedule (default_policy c)) 0)
                 (\<lambda>delay. Inr (set_retry_state c key (Retrying 1), (True, False, Some delay))))"

definition record_success :: "RetryCoordinator \<Rightarrow> string \<Rightarrow> i32 \<Rightarrow> i64 \<Rightarrow> RetryCoordinator" where
  "record_success c topic part offset =
     c\<lparr>retry_state := (retry_state c)((topic, part, offset) := None)\<rparr>"

definition attempt_count :: "RetryCoordinator \<Rightarrow> string \<Rightarrow> i32 \<Rightarrow> i64 \<Rightarrow> nat" where
  "attempt_count c topic part offset =
     (case retry_state c (topic, part, offset) of Some st \<Rightarrow> attempt st | None \<Rightarrow> 0)"

section \<open>Specification: counting failures\<close>

datatype retry_event =
    RFail env string i32 i64 FailureReason
  | RSuccess string i32 i64

fun retry_step :: "RetryCoordinator \<Rightarrow> retry_event \<Rightarrow> RetryCoordinator res" where
  "retry_step c (RFail e topic part offset reason) =
     res_bind (record_failure e c topic part offset reason) (\<lambda>(c', d). Inr c')"
| "retry_step c (RSuccess topic part offset) = Inr (record_success c topic part offset)"

fun count_event :: "RetryKey \<Rightarrow> nat \<Rightarrow> retry_event \<Rightarrow> nat" where
  \<comment> \<open>retryable failures of one message since its last success\<close>
  "count_event k n (RFail e topic part offset reason) =
     (if (topic, part, offset) = k \<and> category reason = RetryableCat then n + 1 else n)"
| "count_event k n (RSuccess topic part offset) = (if (topic, part, offset) = k then 0 else n)"

definition counted_state :: "nat \<Rightarrow> nat \<Rightarrow> RetryState option" where
  "counted_state limit n =
     (if n = 0 then None else if limit \<le> n then Some Exhausted else Some (Retrying n))"

section \<open>Lemmas on durations\<close>

lemma round_half_even_int [simp]: "round_half_even (of_int n) = n"
  by (simp add: round_half_even_def)

lemma round_half_even_mono:
  assumes "x \<le> y" shows "round_half_even x \<le> round_half_even y"
proof (cases "\<lfloor>x\<rfloor> = \<lfloor>y\<rfloor>")
  case True
  then have "x - of_int \<lfloor>x\<rfloor> \<le> y - of_int \<lfloor>y\<rfloor>" using assms by simp
  then show ?thesis unfolding round_half_even_def Let_def using True by auto
next
  case False
  then have "\<lfloor>x\<rfloor> + 1 \<le> \<lfloor>y\<rfloor>" using floor_mono [OF assms] by linarith
  moreover have "round_half_even x \<le> \<lfloor>x\<rfloor> + 1" "\<lfloor>y\<rfloor> \<le> round_half_even y"
    by (auto simp: round_half_even_def Let_def)
  ultimately show ?thesis by linarith
qed

lemma as_secs_nonneg: "rounding r \<Longrightarrow> 0 \<le> as_secs_f64 r d"
  by (simp add: as_secs_f64_def rounding_nonneg nanos_per_sec_def)

lemma as_secs_le:
  assumes "rounding r" "d \<le> from_secs n" "n \<le> 2 ^ 52"
  shows "as_secs_f64 r d \<le> real n + 1"
proof -
  have "d div nanos_per_sec \<le> n * nanos_per_sec div nanos_per_sec"
    using assms(2) unfolding from_secs_def by (rule div_le_mono)
  then have "d div nanos_per_sec \<le> n" by (simp add: nanos_per_sec_def)
  then have "real (d div nanos_per_sec) \<le> of_int (int n)" by simp
  then have "r (real (d div nanos_per_sec)) \<le> of_int (int n)"
    using assms(3) by (intro rounding_le_int [OF assms(1)]) simp_all
  moreover have "real (d mod nanos_per_sec) / real nanos_per_sec \<le> 1"
    by (simp add: nanos_per_sec_def)
  then have "r (real (d mod nanos_per_sec) / real nanos_per_sec) \<le> 1"
    using assms(1) rounding_mono rounding_1 by metis
  ultimately have "r (real (d div nanos_per_sec)) + r (real (d mod nanos_per_sec) / real nanos_per_sec)
      \<le> of_int (int n + 1)" by simp
  then have "as_secs_f64 r d \<le> of_int (int n + 1)"
    unfolding as_secs_f64_def using assms(3) by (intro rounding_le_int [OF assms(1)]) simp_all
  then show ?thesis by simp
qed

lemma from_secs_f64_total:
  assumes "0 \<le> x" "x \<le> 2 ^ 52"
  shows "\<exists>d \<le> from_secs (2 ^ 52). from_secs_f64 x = Inr d"
proof -
  let ?n = "round_half_even (x * real nanos_per_sec)"
  have "x * real nanos_per_sec \<le> of_int (2 ^ 52 * int nanos_per_sec)"
    using assms by (simp add: nanos_per_sec_def)
  then have n: "?n \<le> 2 ^ 52 * int nanos_per_sec"
    using round_half_even_mono round_half_even_int by metis
  then have "?n < 2 ^ 64 * int nanos_per_sec" by (simp add: nanos_per_sec_def)
  with assms n show ?thesis by (auto simp: from_secs_f64_def from_secs_def Let_def nanos_per_sec_def)
qed


lemma capped_nonneg: "rounding r \<Longrightarrow> 0 \<le> capped_secs r s n"
  by (simp add: capped_secs_def Let_def rounding_nonneg as_secs_nonneg)

lemma capped_le: "capped_secs r s n \<le> as_secs_f64 r (sched_max_delay s)"
  by (simp add: capped_secs_def Let_def)

lemma capped_mono:
  assumes "rounding r" "m \<le> n"
  shows "capped_secs r s m \<le> capped_secs r s n"
proof -
  let ?b = "as_secs_f64 r (sched_base_delay s)"
  have "?b * 2 ^ m \<le> ?b * 2 ^ n"
    using assms as_secs_nonneg by (intro mult_left_mono power_increasing) auto
  then have "r (?b * 2 ^ m) \<le> r (?b * 2 ^ n)" using assms(1) by (rule rounding_mono [rotated])
  with assms(2) show ?thesis by (auto simp: capped_secs_def Let_def min_def)
qed

lemma jitter_multiplier_bounds:
  assumes "rounding r" "0 \<le> sched_jitter_factor s" "sched_jitter_factor s \<le> 1" "0 \<le> j" "j \<le> 1"
  shows "0 \<le> jitter_multiplier r s j \<and> jitter_multiplier r s j \<le> 3"
proof -
  let ?f = "sched_jitter_factor s"
  note nonneg = rounding_nonneg [OF assms(1)] and le = rounding_le_int [OF assms(1)]
  have f: "0 \<le> r (1 - ?f)" "r (1 - ?f) \<le> 1"
    using assms nonneg [of "1 - ?f"] le [of "1 - ?f" 1] by simp_all
  have j: "0 \<le> r (j * ?f)" "r (j * ?f) \<le> 1"
    using assms nonneg [of "j * ?f"] le [of "j * ?f" 1] by (simp_all add: mult_le_one)
  then have d: "0 \<le> r (r (j * ?f) * 2)" "r (r (j * ?f) * 2) \<le> 2"
    using nonneg [of "r (j * ?f) * 2"] le [of "r (j * ?f) * 2" 2] by simp_all
  have "r (1 - ?f) + r (r (j * ?f) * 2) \<le> of_int 3" using f d by simp
  then have "jitter_multiplier r s j \<le> of_int 3"
    unfolding jitter_multiplier_def by (intro le) simp_all
  moreover have "0 \<le> jitter_multiplier r s j"
    unfolding jitter_multiplier_def using f d by (intro nonneg) simp
  ultimately show ?thesis by simp
qed

lemma jitter_multiplier_0:
  "rounding r \<Longrightarrow> sched_jitter_factor s = 0 \<Longrightarrow> jitter_multiplier r s j = 1"
  by (simp add: jitter_multiplier_def rounding_0 rounding_1)

definition sane_policy :: "RetryPolicy \<Rightarrow> bool" where
  \<comment> \<open>the documented range of the jitter factor, and a cap of less than 35 million years\<close>
  "sane_policy p \<longleftrightarrow> 0 \<le> jitter_factor p \<and> jitter_factor p \<le> 1 \<and> max_delay p \<le> from_secs (2 ^ 50)"

definition sane_env :: "env \<Rightarrow> bool" where
  \<comment> \<open>IEEE rounding, and \<open>rand::random::<f64>()\<close> draws from the unit interval\<close>
  "sane_env e \<longleftrightarrow> rounding (f64_round e) \<and> 0 \<le> random_draw e \<and> random_draw e < 1"

lemma next_delay_ok:
  assumes "sane_policy p" "sane_env e"
  shows "\<exists>d \<le> from_secs (2 ^ 52). next_delay e (schedule p) n = Inr d"
proof -
  let ?r = "f64_round e" and ?s = "schedule p"
  have r: "rounding ?r" using assms(2) by (simp add: sane_env_def)
  have m: "0 \<le> jitter_multiplier ?r ?s (random_draw e)" "jitter_multiplier ?r ?s (random_draw e) \<le> 3"
    using jitter_multiplier_bounds [OF r, of ?s "random_draw e"] assms
    by (auto simp: sane_policy_def sane_env_def schedule_def)
  have c: "0 \<le> capped_secs ?r ?s n" "capped_secs ?r ?s n \<le> 2 ^ 50 + 1"
    using capped_nonneg [OF r] capped_le [of ?r ?s n] as_secs_le [OF r, of "max_delay p" "2 ^ 50"] assms(1)
    by (auto simp: sane_policy_def schedule_def)
  have "capped_secs ?r ?s n * jitter_multiplier ?r ?s (random_draw e) \<le> (2 ^ 50 + 1) * 3"
    using c m by (intro mult_mono) auto
  then have "capped_secs ?r ?s n * jitter_multiplier ?r ?s (random_draw e) \<le> of_int (2 ^ 52)" by simp
  then have "?r (capped_secs ?r ?s n * jitter_multiplier ?r ?s (random_draw e)) \<le> of_int (2 ^ 52)"
    by (rule rounding_le_int [OF r]) simp
  moreover have "0 \<le> ?r (capped_secs ?r ?s n * jitter_multiplier ?r ?s (random_draw e))"
    using c m by (intro rounding_nonneg [OF r]) simp
  ultimately show ?thesis unfolding next_delay_def by (intro from_secs_f64_total) auto
qed

section \<open>The coordinator counts\<close>

definition retry_wf :: "RetryCoordinator \<Rightarrow> bool" where
  \<comment> \<open>a live attempt number is positive and below the limit\<close>
  "retry_wf c \<longleftrightarrow> (\<forall>k n. retry_state c k = Some (Retrying n)
     \<longrightarrow> 1 \<le> n \<and> n < max_attempts (default_policy c))"

lemma set_retry_state_simps [simp]:
  "retry_state (set_retry_state c k st) = (retry_state c)(k \<mapsto> st)"
  "default_policy (set_retry_state c k st) = default_policy c"
  by (simp_all add: set_retry_state_def)

lemmas record_failure_splits = if_splits option.splits RetryState.splits

lemma retry_step_policy: "retry_step c ev = Inr c' \<Longrightarrow> default_policy c' = default_policy c"
  by (cases ev) (auto simp: record_failure_def record_success_def Let_def split: record_failure_splits)

interpretation retry_inv: res_invariant retry_step retry_wf
proof (unfold_locales, goal_cases)
  case (1 c ev c')
  then show ?case
    by (cases ev) (auto simp: retry_wf_def record_failure_def record_success_def Let_def
        split: record_failure_splits)
qed

lemma counted_state_step:
  "retry_state c k = counted_state (max_attempts (default_policy c)) n \<Longrightarrow> retry_step c ev = Inr c'
     \<Longrightarrow> retry_state c' k = counted_state (max_attempts (default_policy c)) (count_event k n ev)"
  by (cases ev) (auto simp: counted_state_def record_failure_def record_success_def Let_def
      split: record_failure_splits)

lemma retry_run_counts:
  "res_foldl retry_step c es = Inr c' \<Longrightarrow>
     retry_state c k = counted_state (max_attempts (default_policy c)) n \<Longrightarrow>
     default_policy c' = default_policy c \<and>
     retry_state c' k = counted_state (max_attempts (default_policy c)) (foldl (count_event k) n es)"
proof (induction es arbitrary: c n)
  case (Cons ev es)
  then obtain c1 where c1: "retry_step c ev = Inr c1" "res_foldl retry_step c1 es = Inr c'" by auto
  then show ?case
    using Cons.IH [OF c1(2)] Cons.prems(2) retry_step_policy [OF c1(1)] counted_state_step [OF _ c1(1)]
    by simp
qed simp

lemma record_failure_total:
  assumes "sane_policy (default_policy c)" "sane_env e"
  shows "\<exists>c' d. record_failure e c topic part offset reason = Inr (c', d)"
proof -
  have "\<exists>d. next_delay e (schedule (default_policy c)) n = Inr d" for n
    using next_delay_ok [OF assms] by blast
  then have "\<exists>c'. record_failure e c topic part offset reason = Inr c'"
    unfolding record_failure_def Let_def
    by (auto simp: to_dlq_def split: if_split option.split RetryState.split)
  then show ?thesis by auto
qed

text \<open>What a client may rely on: a decision is one of two, and it names a delay to wait for
  exactly when it asks for a retry.\<close>

lemma record_failure_decision:
  assumes "record_failure e c topic part offset reason = Inr (c', retry, dlq, delay)"
  shows "retry \<noteq> dlq" and "retry \<longleftrightarrow> delay \<noteq> None"
    and "category reason \<noteq> RetryableCat \<Longrightarrow> dlq \<and> c' = c"
    and "k \<noteq> (topic, part, offset) \<Longrightarrow> retry_state c' k = retry_state c k"
    and "default_policy c' = default_policy c"
  using assms by (auto simp: record_failure_def to_dlq_def Let_def split: record_failure_splits)

section \<open>Properties of the retry coordinator\<close>

text \<open>
  C17 (refinement). The coordinator implements a counter per message: after any interleaving of
  failures and successes of any messages, the state of a message is absent, \<open>Retrying n\<close> or
  \<open>Exhausted\<close> as its number of retryable failures since its last success is zero, below the
  configured limit, or at the limit. Non-retryable failures do not count.
\<close>

theorem retry_state_counts_failures:
  assumes "res_foldl retry_step (RetryCoordinator_new p) es = Inr c"
  shows "retry_state c k = counted_state (max_attempts p) (foldl (count_event k) 0 es)"
  using retry_run_counts [OF assms, of k 0] by (simp add: RetryCoordinator_new_def counted_state_def)

definition plain_env :: env where
  \<comment> \<open>exact arithmetic, the middle draw, a clock that counts readings, channels that refuse only when full\<close>
  "plain_env = \<lparr>f64_round = (\<lambda>x. x), random_draw = 1 / 2, utc_now = int,
     to_rfc3339 = show_int, try_send_ok = (\<lambda>cap n. n < cap)\<rparr>"

lemma plain_env_sane [simp]: "sane_env plain_env"
  by (simp add: sane_env_def plain_env_def rounding_id)

definition sample_policy :: RetryPolicy where
  "sample_policy = RetryPolicy_new 3 (from_millis 100) (from_secs 30) 0"

lemma sample_policy_simps [simp]:
  "sane_policy sample_policy" "max_attempts sample_policy = 3"
  by (simp_all add: sample_policy_def RetryPolicy_new_def sane_policy_def from_secs_def nanos_per_sec_def)

lemma retry_run_total:
  assumes "sane_policy (default_policy c)"
    "list_all (\<lambda>ev. case ev of RFail e _ _ _ _ \<Rightarrow> sane_env e | RSuccess _ _ _ \<Rightarrow> True) es"
  shows "\<exists>c'. res_foldl retry_step c es = Inr c'"
  using assms
proof (induction es arbitrary: c)
  case (Cons ev es)
  have "\<exists>c1. retry_step c ev = Inr c1"
    using Cons.prems record_failure_total by (cases ev) (fastforce split: prod.splits)+
  then show ?case using Cons retry_step_policy by fastforce
qed simp

theorem retry_state_counts_failures_witness:
  "\<exists>c. res_foldl retry_step (RetryCoordinator_new sample_policy)
         [RFail plain_env ''t'' 0 7 (Retryable NetworkTimeout), RSuccess ''t'' 0 8] = Inr c
     \<and> retry_state c (''t'', 0, 7) = Some (Retrying 1)"
proof -
  let ?es = "[RFail plain_env ''t'' 0 7 (Retryable NetworkTimeout), RSuccess ''t'' 0 8]"
  obtain c where c: "res_foldl retry_step (RetryCoordinator_new sample_policy) ?es = Inr c"
    using retry_run_total [of "RetryCoordinator_new sample_policy" ?es]
    by (auto simp: RetryCoordinator_new_def)
  from retry_state_counts_failures [OF c, of "(''t'', 0, 7)"] c show ?thesis
    by (auto simp: counted_state_def)
qed

text \<open>
  The retry budget. On a message that has failed \<open>n\<close> times since its last
  success, the next retryable failure is answered by a retry exactly when \<open>n + 1\<close> is below
  \<open>max_attempts\<close>, and by the dead-letter queue otherwise: a handler that keeps failing is
  called \<open>max_attempts\<close> times (once when the limit is zero), so the limit counts
  invocations and not retries. After the budget is spent the reported attempt count is zero.
\<close>

lemma retry_budget:
  assumes "res_foldl retry_step (RetryCoordinator_new p) es = Inr c"
    and "category reason = RetryableCat"
    and "record_failure e c topic part offset reason = Inr (c', retry, dlq, delay)"
  shows "(retry \<longleftrightarrow> foldl (count_event (topic, part, offset)) 0 es + 1 < max_attempts p)
     \<and> dlq = (\<not> retry) \<and> (delay \<noteq> None) = retry
     \<and> attempt_count c' topic part offset =
         (if retry then foldl (count_event (topic, part, offset)) 0 es + 1 else 0)"
proof -
  have "default_policy c = p" "retry_state c (topic, part, offset) =
      counted_state (max_attempts p) (foldl (count_event (topic, part, offset)) 0 es)"
    using retry_run_counts [OF assms(1), of "(topic, part, offset)" 0]
    by (simp_all add: RetryCoordinator_new_def counted_state_def)
  with assms(2,3) show ?thesis
    by (auto simp: counted_state_def record_failure_def attempt_count_def to_dlq_def Let_def
        split: record_failure_splits)
qed

text \<open>
  C32 (bounds). With a jitter factor in its documented range and a cap below \<open>2^50\<close> seconds
  no delay computation panics, whatever the attempt number (the power of two overflows
  \<open>f64\<close> from 1024 on) and whatever the random draw, and the delay fits a \<open>Duration\<close>.
\<close>

theorem next_delay_never_panics:
  assumes "sane_policy p" "sane_env e"
  shows "\<exists>d. next_delay e (schedule p) n = Inr d \<and> d \<le> from_secs (2 ^ 52)"
  using next_delay_ok [OF assms] by blast

theorem next_delay_never_panics_witness:
  "\<exists>d. next_delay plain_env (schedule sample_policy) 2000 = Inr d \<and> d \<le> from_secs (2 ^ 52)"
  using next_delay_never_panics [of sample_policy plain_env 2000] by simp

lemma next_delay_no_jitter:
  "rounding (f64_round e) \<Longrightarrow> sched_jitter_factor s = 0 \<Longrightarrow>
     next_delay e s n = from_secs_f64 (f64_round e (capped_secs (f64_round e) s n))"
  by (simp add: next_delay_def jitter_multiplier_0)

text \<open>
  Without jitter the backoff grows with the attempt number and never exceeds
  the configured cap, read back from its \<open>f64\<close> form.
\<close>

lemma backoff_grows_to_the_cap:
  assumes "rounding (f64_round e)" "jitter_factor p = 0" "m \<le> n"
    and "next_delay e (schedule p) m = Inr d" "next_delay e (schedule p) n = Inr d'"
    and "from_secs_f64 (as_secs_f64 (f64_round e) (max_delay p)) = Inr cap"
  shows "d \<le> d' \<and> d' \<le> cap"
proof -
  let ?r = "f64_round e" and ?s = "schedule p"
  have z: "sched_jitter_factor ?s = 0" using assms(2) by (simp add: schedule_def)
  have mono: "a \<le> b" if "from_secs_f64 x = Inr a" "from_secs_f64 y = Inr b" "x \<le> y" for x y a b
  proof -
    have "round_half_even (x * real nanos_per_sec) \<le> round_half_even (y * real nanos_per_sec)"
      using that(3) by (intro round_half_even_mono mult_right_mono) auto
    with that show ?thesis by (auto simp: from_secs_f64_def Let_def split: if_splits)
  qed
  have "?r (capped_secs ?r ?s m) \<le> ?r (capped_secs ?r ?s n)"
    using capped_mono [OF assms(1,3)] by (rule rounding_mono [OF assms(1)])
  moreover have "?r (capped_secs ?r ?s n) \<le> ?r (as_secs_f64 ?r (max_delay p))"
    using capped_le [of ?r ?s n] by (intro rounding_mono [OF assms(1)]) (simp add: schedule_def)
  moreover have "?r (as_secs_f64 ?r (max_delay p)) = as_secs_f64 ?r (max_delay p)"
    by (simp add: as_secs_f64_def rounding_idem [OF assms(1)])
  ultimately show ?thesis
    using assms(4-6) mono by (simp add: next_delay_no_jitter [OF assms(1) z])
qed

lemma sample_delays:
  "next_delay plain_env (schedule sample_policy) 1 = Inr (from_millis 200)"
  "next_delay plain_env (schedule sample_policy) 20 = Inr (from_secs 30)"
  "from_secs_f64 (as_secs_f64 (f64_round plain_env) (max_delay sample_policy)) = Inr (from_secs 30)"
  by (simp_all add: next_delay_def capped_secs_def jitter_multiplier_def schedule_def sample_policy_def
      RetryPolicy_new_def plain_env_def from_secs_f64_def as_secs_f64_def round_half_even_def Let_def
      from_millis_def from_secs_def nanos_per_sec_def)

end
