(* ===== verification/Dlq.thy ===== *)
theory Dlq
  imports Offsets Retry
begin

text \<open>
  Dead letters (\<^verbatim>\<open>src/dlq/metadata.rs\<close>, \<^verbatim>\<open>src/dlq/router.rs\<close>,
  \<^verbatim>\<open>src/dlq/produce.rs\<close>): the metadata envelope, routing, the bounded channel in front of
  the broker, and the flush of the tracker's failed offsets into it
  (\<open>flush_failed_to_dlq\<close> of \<^verbatim>\<open>src/offset/offset_tracker.rs\<close>). Whether the broker accepts
  a record is an argument of the operation that sends it.
\<close>

section \<open>Metadata\<close>

record OriginalMessage =
  orig_topic :: string
  orig_partition :: i32
  orig_offset :: i64

record DlqMetadata =
  original :: OriginalMessage
  failure_reason :: string
  dlq_attempt_count :: nat
  first_failure_timestamp :: int
  last_failure_timestamp :: int
  timeout_duration :: "nat option"
  dlq_last_processed_offset :: "i64 option"
  dlq_branch_id :: "nat option"
  dlq_fan_out_id :: "nat option"

definition DlqMetadata_new ::
  "string \<Rightarrow> i32 \<Rightarrow> i64 \<Rightarrow> string \<Rightarrow> nat \<Rightarrow> int \<Rightarrow> int \<Rightarrow> nat option \<Rightarrow> i64 option
   \<Rightarrow> nat option \<Rightarrow> nat option \<Rightarrow> DlqMetadata" where
  "DlqMetadata_new topic part offset reason attempts first_ts last_ts timeout processed branch fan_out =
     \<lparr>original = \<lparr>orig_topic = topic, orig_partition = part, orig_offset = offset\<rparr>,
      failure_reason = reason, dlq_attempt_count = attempts, first_failure_timestamp = first_ts,
      last_failure_timestamp = last_ts, timeout_duration = timeout,
      dlq_last_processed_offset = processed, dlq_branch_id = branch, dlq_fan_out_id = fan_out\<rparr>"

definition metadata_to_headers :: "env \<Rightarrow> DlqMetadata \<Rightarrow> (string \<times> bytes) list" where
  "metadata_to_headers e m =
     [(''dlq.original_topic'', str_bytes (orig_topic (original m))),
      (''dlq.partition'', str_bytes (show_int (orig_partition (original m)))),
      (''dlq.offset'', str_bytes (show_int (orig_offset (original m)))),
      (''dlq.reason'', str_bytes (failure_reason m)),
      (''dlq.attempts'', str_bytes (show_nat (dlq_attempt_count m))),
      (''dlq.first_failure'', str_bytes (to_rfc3339 e (first_failure_timestamp m))),
      (''dlq.last_failure'', str_bytes (to_rfc3339 e (last_failure_timestamp m)))]"

section \<open>Routing\<close>

type_synonym router = "DlqMetadata \<Rightarrow> TopicPartition"

record DefaultDlqRouter =
  dlq_topic_prefix :: string

definition DefaultDlqRouter_new :: "string \<Rightarrow> DefaultDlqRouter" where
  "DefaultDlqRouter_new pre = \<lparr>dlq_topic_prefix = pre\<rparr>"

definition with_default_prefix :: DefaultDlqRouter where
  "with_default_prefix = DefaultDlqRouter_new ''dlq.''"

definition route :: "DefaultDlqRouter \<Rightarrow> router" where
  "route r m = \<lparr>tp_topic = dlq_topic_prefix r @ orig_topic (original m),
     tp_partition = orig_partition (original m)\<rparr>"

section \<open>The producer\<close>

definition DLQ_CHANNEL_CAPACITY :: nat where "DLQ_CHANNEL_CAPACITY = 100"

record DLQMessage =
  dlq_topic :: string
  dlq_original_topic :: string
  dlq_partition :: i32
  dlq_payload :: bytes
  dlq_key :: "bytes option"
  dlq_headers :: "(string \<times> bytes) list"

text \<open>The state of the producer is what waits in its channel, oldest message first.\<close>

record SharedDlqProducer =
  dlq_queue :: "DLQMessage list"

definition SharedDlqProducer_new :: SharedDlqProducer where
  "SharedDlqProducer_new = \<lparr>dlq_queue = []\<rparr>"

definition produce_async ::
  "env \<Rightarrow> SharedDlqProducer \<Rightarrow> string \<Rightarrow> i32 \<Rightarrow> bytes \<Rightarrow> bytes option \<Rightarrow> DlqMetadata \<Rightarrow> SharedDlqProducer" where
  "produce_async e p topic part payload key m =
     (let msg = \<lparr>dlq_topic = topic, dlq_original_topic = orig_topic (original m),
                 dlq_partition = part, dlq_payload = payload, dlq_key = key,
                 dlq_headers = metadata_to_headers e m\<rparr>
      in if try_send_ok e DLQ_CHANNEL_CAPACITY (length (dlq_queue p))
         then p\<lparr>dlq_queue := dlq_queue p @ [msg]\<rparr> else p)"

record future_record =
  rec_topic :: string
  rec_payload :: bytes
  rec_partition :: i32
  rec_headers :: "header list"
  rec_key :: "bytes option"

definition build_headers :: "(string \<times> bytes) list \<Rightarrow> header list" where
  "build_headers hs = map (\<lambda>(k, v). (k, Some v)) hs"

text \<open>What the broker was given, and the metric that counts a delivery
  (\<open>DlqMetrics::record_dlq_message\<close>).\<close>

datatype dlq_effect = Delivered future_record | CountDlq string string | DeliveryFailed string i32

definition do_produce :: "(future_record \<Rightarrow> bool) \<Rightarrow> DLQMessage \<Rightarrow> dlq_effect list" where
  "do_produce broker msg =
     (let r = \<lparr>rec_topic = dlq_topic msg, rec_payload = dlq_payload msg,
               rec_partition = dlq_partition msg, rec_headers = build_headers (dlq_headers msg),
               rec_key = dlq_key msg\<rparr>
      in if broker r then [Delivered r, CountDlq (dlq_topic msg) (dlq_original_topic msg)]
         else [DeliveryFailed (dlq_topic msg) (dlq_partition msg)])"

fun drain :: "(future_record \<Rightarrow> bool) \<Rightarrow> DLQMessage list \<Rightarrow> dlq_effect list" where
  \<comment> \<open>the background task of \<open>SharedDlqProducer::new\<close>\<close>
  "drain broker [] = []"
| "drain broker (msg # q) = do_produce broker msg @ drain broker q"

definition take_letter :: "SharedDlqProducer \<Rightarrow> SharedDlqProducer" where
  \<comment> \<open>the task receives the first letter of the channel\<close>
  "take_letter p = p\<lparr>dlq_queue := tl (dlq_queue p)\<rparr>"

section \<open>Flushing failed offsets\<close>

definition flush_metadata :: "env \<Rightarrow> string \<Rightarrow> i32 \<Rightarrow> string \<Rightarrow> i64 \<Rightarrow> DlqMetadata" where
  "flush_metadata e topic part reason_str offset =
     DlqMetadata_new topic part offset reason_str 1 (utc_now e 0) (utc_now e 0) None None None None"

definition flush_one :: "env \<Rightarrow> router \<Rightarrow> string \<Rightarrow> i32 \<Rightarrow> string \<Rightarrow> SharedDlqProducer \<Rightarrow> i64 \<Rightarrow> SharedDlqProducer" where
  "flush_one e router topic part reason_str p offset =
     (let m = flush_metadata e topic part reason_str offset; tp = router m
      in produce_async e p (tp_topic tp) (tp_partition tp) [] None m)"

definition reason_text :: "PartitionState \<Rightarrow> string" where
  "reason_text s =
     (case last_failure_reason s of Some r \<Rightarrow> FailureReason_str r | None \<Rightarrow> ''unknown'')"

definition flush_partition ::
  "env \<Rightarrow> router \<Rightarrow> OffsetTracker \<Rightarrow> SharedDlqProducer \<Rightarrow> TopicPartitionKey \<Rightarrow> SharedDlqProducer" where
  "flush_partition e router t p k =
     (case partitions t k of
        None \<Rightarrow> p
      | Some s \<Rightarrow>
          if failed_offsets s = {||} then p
          else foldl (flush_one e router (fst k) (snd k) (reason_text s)) p
                 (sorted_list_of_fset (failed_offsets s)))"

definition flush_failed_to_dlq ::
  "env \<Rightarrow> router \<Rightarrow> TopicPartitionKey list \<Rightarrow> OffsetTracker \<Rightarrow> SharedDlqProducer \<Rightarrow> SharedDlqProducer" where
  "flush_failed_to_dlq e router ks t p = foldl (flush_partition e router t) p (all_partitions ks t)"

section \<open>The flush as a list\<close>

text \<open>What one flushed offset looks like in the channel, and the flush as a list of them.\<close>

definition flush_message :: "env \<Rightarrow> router \<Rightarrow> OffsetTracker \<Rightarrow> TopicPartitionKey \<times> i64 \<Rightarrow> DLQMessage" where
  "flush_message e router t = (\<lambda>((topic, part), offset).
     let m = flush_metadata e topic part (reason_text (the (partitions t (topic, part)))) offset
     in \<lparr>dlq_topic = tp_topic (router m), dlq_original_topic = topic,
         dlq_partition = tp_partition (router m), dlq_payload = [], dlq_key = None,
         dlq_headers = metadata_to_headers e m\<rparr>)"

definition failed_list :: "OffsetTracker \<Rightarrow> TopicPartitionKey list \<Rightarrow> (TopicPartitionKey \<times> i64) list" where
  "failed_list t ks =
     concat (map (\<lambda>k. case partitions t k of None \<Rightarrow> []
                      | Some s \<Rightarrow> map (Pair k) (sorted_list_of_fset (failed_offsets s))) ks)"

definition send_all :: "env \<Rightarrow> SharedDlqProducer \<Rightarrow> DLQMessage list \<Rightarrow> SharedDlqProducer" where
  "send_all e p msgs = foldl (\<lambda>p msg.
     if try_send_ok e DLQ_CHANNEL_CAPACITY (length (dlq_queue p))
     then p\<lparr>dlq_queue := dlq_queue p @ [msg]\<rparr> else p) p msgs"

lemma send_all_simps [simp]:
  "send_all e p [] = p"
  "send_all e p (a @ b) = send_all e (send_all e p a) b"
  by (simp_all add: send_all_def)

lemma flush_one_send:
  assumes "partitions t (topic, part) = Some s"
  shows "flush_one e router topic part (reason_text s) p offset
     = send_all e p [flush_message e router t ((topic, part), offset)]"
  using assms
  by (simp add: flush_one_def send_all_def flush_message_def produce_async_def flush_metadata_def
      DlqMetadata_new_def Let_def)

lemma flush_offsets_send:
  assumes "partitions t (topic, part) = Some s"
  shows "foldl (flush_one e router topic part (reason_text s)) p xs
     = send_all e p (map (\<lambda>x. flush_message e router t ((topic, part), x)) xs)"
  by (induction xs arbitrary: p)
    (simp_all add: flush_one_send [OF assms] send_all_def)

lemma flush_partition_send:
  "flush_partition e router t p k = send_all e p (map (flush_message e router t) (failed_list t [k]))"
proof (cases "partitions t k")
  case None
  then show ?thesis by (simp add: flush_partition_def failed_list_def)
next
  case (Some s)
  then show ?thesis
    using flush_offsets_send [of t "fst k" "snd k" s e router p]
    by (simp add: flush_partition_def failed_list_def comp_def)
qed

lemma failed_list_Cons: "failed_list t (k # ks) = failed_list t [k] @ failed_list t ks"
  by (simp add: failed_list_def)

lemma failed_list_registered: "failed_list t (all_partitions ks t) = failed_list t ks"
  by (induction ks) (auto simp: failed_list_def all_partitions_def)

lemma flush_send_all:
  "flush_failed_to_dlq e router ks t p = send_all e p (map (flush_message e router t) (failed_list t ks))"
proof -
  have "foldl (flush_partition e router t) p ks = send_all e p (map (flush_message e router t) (failed_list t ks))" for ks
  proof (induction ks arbitrary: p)
    case Nil
    then show ?case by (simp add: failed_list_def)
  next
    case (Cons k ks)
    then show ?case by (simp add: flush_partition_send failed_list_Cons [of t k ks])
  qed
  then show ?thesis by (simp add: flush_failed_to_dlq_def failed_list_registered)
qed

lemma send_all_bounded:
  assumes "bounded_channels e" "length (dlq_queue p) \<le> DLQ_CHANNEL_CAPACITY"
  shows "length (dlq_queue (send_all e p msgs)) \<le> DLQ_CHANNEL_CAPACITY"
  using assms(2)
proof (induction msgs arbitrary: p)
  case (Cons m msgs)
  have "length (dlq_queue (send_all e p [m])) \<le> DLQ_CHANNEL_CAPACITY"
    using Cons.prems assms(1) by (auto simp: send_all_def bounded_channels_def Suc_le_eq)
  then show ?case using Cons.IH send_all_simps(2) [of e p "[m]" msgs] by simp
qed simp

lemma send_all_open:
  assumes "open_channels e"
  shows "dlq_queue (send_all e p msgs) = dlq_queue p @ take (DLQ_CHANNEL_CAPACITY - length (dlq_queue p)) msgs"
proof (induction msgs arbitrary: p)
  case (Cons m msgs)
  have "send_all e p (m # msgs) = send_all e (send_all e p [m]) msgs"
    using send_all_simps(2) [of e p "[m]" msgs] by simp
  also have "dlq_queue \<dots> = dlq_queue p @ take (DLQ_CHANNEL_CAPACITY - length (dlq_queue p)) (m # msgs)"
    unfolding Cons.IH using assms
    by (auto simp: send_all_def open_channels_def take_Cons')
  finally show ?case .
qed simp

section \<open>Routers that keep sources apart\<close>

text \<open>
  The contract of a router that operators rely on for replay: two dead letters meet in one
  topic and partition only if they came from one topic and partition. For any such router the
  letters of one destination are in the order of their original offsets.
\<close>

definition source_of :: "DlqMetadata \<Rightarrow> string \<times> i32" where
  "source_of m = (orig_topic (original m), orig_partition (original m))"

definition at_destination ::
  "env \<Rightarrow> router \<Rightarrow> OffsetTracker \<Rightarrow> TopicPartition \<Rightarrow> TopicPartitionKey \<times> i64 \<Rightarrow> bool" where
  "at_destination e rt t d = (\<lambda>((topic, part), offset).
     rt (flush_metadata e topic part (reason_text (the (partitions t (topic, part)))) offset) = d)"

locale separating_router =
  fixes rt :: router
  assumes separates: "rt m = rt m' \<Longrightarrow> source_of m = source_of m'"
begin

lemma one_source:
  assumes "at_destination e rt t d (k, x)" "at_destination e rt t d (k', y)"
  shows "k = k'"
proof -
  obtain topic part topic' part' where k: "k = (topic, part)" "k' = (topic', part')"
    by (metis surj_pair)
  let ?m = "\<lambda>topic part x. flush_metadata e topic part (reason_text (the (partitions t (topic, part)))) x"
  have "rt (?m topic part x) = rt (?m topic' part' y)"
    using assms k by (simp add: at_destination_def)
  then have "source_of (?m topic part x) = source_of (?m topic' part' y)" by (rule separates)
  with k show ?thesis by (simp add: source_of_def flush_metadata_def DlqMetadata_new_def)
qed

lemma destination_sorted:
  assumes "distinct ks"
  shows "sorted (map snd (filter (at_destination e rt t d) (failed_list t ks)))"
  using assms
proof (induction ks)
  case (Cons k ks)
  let ?F = "filter (at_destination e rt t d)"
  show ?case
  proof (cases "?F (failed_list t [k]) = []")
    case True
    then show ?thesis using Cons by (simp add: failed_list_Cons [of t k ks])
  next
    case False
    then obtain x where x: "at_destination e rt t d (k, x)"
      by (auto simp: failed_list_def filter_empty_conv split: option.splits)
    have "?F (failed_list t ks) = []"
    proof (rule ccontr)
      assume "?F (failed_list t ks) \<noteq> []"
      then obtain k' y where "k' \<in> set ks" "at_destination e rt t d (k', y)"
        by (auto simp: failed_list_def filter_empty_conv split: option.splits)
      with one_source [OF x] Cons.prems show False by simp
    qed
    moreover have "sorted (map snd (failed_list t [k]))"
      by (simp add: failed_list_def comp_def split: option.split)
    then have "sorted (map snd (?F (failed_list t [k])))" by (rule sorted_filter)
    ultimately show ?thesis by (simp add: failed_list_Cons [of t k ks])
  qed
qed (simp add: failed_list_def)

end

lemma route_separates: "route r m = route r m' \<Longrightarrow> source_of m = source_of m'"
  by (simp add: route_def source_of_def)

interpretation default_route: separating_router "route r" for r
  by unfold_locales (rule route_separates)

section \<open>Properties of the dead-letter path\<close>

text \<open>
  C37 (roundtrip). The headers of a dead letter determine where the message came from, why it
  failed, how often it was tried, and the printed times of its first and last failure: two
  envelopes have the same headers exactly when they agree on these. The other fields of the
  envelope (timeout, last processed offset, fan-out identifiers) leave no trace in them.
\<close>

theorem dlq_headers_determine:
  "metadata_to_headers e m = metadata_to_headers e m' \<longleftrightarrow>
     original m = original m' \<and> failure_reason m = failure_reason m'
     \<and> dlq_attempt_count m = dlq_attempt_count m'
     \<and> to_rfc3339 e (first_failure_timestamp m) = to_rfc3339 e (first_failure_timestamp m')
     \<and> to_rfc3339 e (last_failure_timestamp m) = to_rfc3339 e (last_failure_timestamp m')"
proof -
  have "original m = original m' \<longleftrightarrow> orig_topic (original m) = orig_topic (original m')
      \<and> orig_partition (original m) = orig_partition (original m')
      \<and> orig_offset (original m) = orig_offset (original m')"
    by (cases "original m"; cases "original m'") simp
  then show ?thesis by (auto simp: metadata_to_headers_def)
qed

text \<open>
  C25 (functional). The flush at shutdown offers every failed offset of every partition to the
  dead-letter channel exactly once, partition by partition in ascending offset order, and the
  channel keeps the first of them that it has room for: what exceeds the hundred places is
  dropped. What was queued before stays in front.
\<close>

theorem flush_covers_failed_offsets:
  assumes "open_channels e" "iterates ks (partitions t)"
  shows "dlq_queue (flush_failed_to_dlq e router ks t p) =
           dlq_queue p @ take (DLQ_CHANNEL_CAPACITY - length (dlq_queue p))
                           (map (flush_message e router t) (failed_list t ks))
       \<and> distinct (failed_list t ks)
       \<and> set (failed_list t ks) = {(k, x). \<exists>s. partitions t k = Some s \<and> x |\<in>| failed_offsets s}"
proof (intro conjI)
  show "dlq_queue (flush_failed_to_dlq e router ks t p) =
           dlq_queue p @ take (DLQ_CHANNEL_CAPACITY - length (dlq_queue p))
                           (map (flush_message e router t) (failed_list t ks))"
    by (simp add: flush_send_all send_all_open [OF assms(1)])
  have "distinct ks \<Longrightarrow> distinct (failed_list t ks)"
  proof (induction ks)
    case (Cons k ks)
    have "distinct (failed_list t [k])"
      by (simp add: failed_list_def distinct_map inj_on_def split: option.split)
    moreover have "set (failed_list t [k]) \<inter> set (failed_list t ks) = {}"
      using Cons.prems by (auto simp: failed_list_def split: option.splits)
    ultimately show ?case using Cons by (simp add: failed_list_Cons [of t k ks])
  qed (simp add: failed_list_def)
  then show "distinct (failed_list t ks)" using assms(2) by (simp add: iterates_def)
  show "set (failed_list t ks) = {(k, x). \<exists>s. partitions t k = Some s \<and> x |\<in>| failed_offsets s}"
  proof -
    have "set (failed_list t ks) = {(k, x). k \<in> set ks \<and> (\<exists>s. partitions t k = Some s \<and> x |\<in>| failed_offsets s)}"
      by (auto simp: failed_list_def split: option.splits) metis
    then show ?thesis using iterates_mem [OF assms(2)] by auto
  qed
qed

definition flush_sample :: OffsetTracker where
  "flush_sample = OffsetTracker_new\<lparr>partitions :=
     [(''t'', 0) \<mapsto> PartitionState_new\<lparr>failed_offsets := {|7, 5|}\<rparr>]\<rparr>"

theorem flush_covers_failed_offsets_witness:
  "length (dlq_queue (flush_failed_to_dlq plain_env (route with_default_prefix) [(''t'', 0)] flush_sample
      SharedDlqProducer_new)) = 2"
proof -
  have o: "open_channels plain_env" by (simp add: open_channels_def plain_env_def)
  have i: "iterates [(''t'', 0)] (partitions flush_sample)"
    by (simp add: iterates_def flush_sample_def)
  have "failed_list flush_sample [(''t'', 0)] = [((''t'', 0), 5), ((''t'', 0), 7)]"
    by (simp add: failed_list_def flush_sample_def sorted_list_of_fset.rep_eq)
  with flush_covers_failed_offsets [OF o i, of "route with_default_prefix" SharedDlqProducer_new]
  show ?thesis by (simp add: SharedDlqProducer_new_def DLQ_CHANNEL_CAPACITY_def)
qed

text \<open>
  No sequence of dead letters and no flush puts more than the channel's capacity of
  messages in front of the broker.
\<close>

lemma dlq_channel_bounded:
  assumes "bounded_channels e" "length (dlq_queue p) \<le> DLQ_CHANNEL_CAPACITY"
  shows "length (dlq_queue (produce_async e p topic part payload key m)) \<le> DLQ_CHANNEL_CAPACITY
       \<and> length (dlq_queue (flush_failed_to_dlq e router ks t p)) \<le> DLQ_CHANNEL_CAPACITY"
  using assms send_all_bounded [OF assms]
  by (auto simp: produce_async_def flush_send_all bounded_channels_def Suc_le_eq Let_def)

text \<open>
  With the default router the flush keeps sources apart and in order: all failed
  offsets that reach one dead-letter topic and partition come from one original partition, and
  they arrive in ascending order.
\<close>

lemma default_routing_keeps_order:
  assumes "iterates ks (partitions t)"
  shows "(\<exists>k. set (filter (at_destination e (route r) t d) (failed_list t ks)) \<subseteq> {k} \<times> UNIV)
       \<and> sorted (map snd (filter (at_destination e (route r) t d) (failed_list t ks)))"
proof
  show "sorted (map snd (filter (at_destination e (route r) t d) (failed_list t ks)))"
    using assms by (intro default_route.destination_sorted) (simp add: iterates_def)
  let ?F = "filter (at_destination e (route r) t d) (failed_list t ks)"
  show "\<exists>k. set ?F \<subseteq> {k} \<times> UNIV"
  proof (cases ?F)
    case (Cons kx rest)
    obtain k x where "kx = (k, x)" by (cases kx)
    with Cons have "(k, x) \<in> set ?F" by simp
    then have "at_destination e (route r) t d (k, x)" by simp
    then have "k = fst ky" if "ky \<in> set ?F" for ky
      using that default_route.one_source [of e r t d k x "fst ky" "snd ky"] by simp
    then have "set ?F \<subseteq> {k} \<times> UNIV" by (auto simp del: set_filter)
    then show ?thesis by blast
  qed simp
qed

end
