(* ===== verification/Dispatch.thy ===== *)
theory Dispatch
  imports Messages
begin

text \<open>
  The dispatcher (\<^verbatim>\<open>src/dispatcher/\<close>): handler queues with their counters
  (\<^verbatim>\<open>queue_manager.rs\<close>), routing of a message to its handler's queue (\<^verbatim>\<open>mod.rs\<close>), and the
  loop that feeds the consumer stream into it and pauses topics under backpressure
  (\<^verbatim>\<open>consumer_dispatcher.rs\<close>). Every operation on a handler runs under the lock of the handler
  map, so a history of the queues is a sequence of whole operations. The answer of
  \<open>try_send\<close> on a channel of a given capacity and fill is an argument, as are the answers
  of the Kafka client.
\<close>

section \<open>Handler queues\<close>

datatype try_send_answer = SendOk | SendFull | SendClosed

type_synonym channel = "nat \<Rightarrow> nat \<Rightarrow> try_send_answer"

definition bounded_channel :: "channel \<Rightarrow> bool" where
  \<comment> \<open>\<open>tokio::sync::mpsc\<close>: a full channel takes nothing\<close>
  "bounded_channel chan \<longleftrightarrow> (\<forall>cap n. chan cap n = SendOk \<longrightarrow> n < cap)"

definition live_channel :: channel where
  \<comment> \<open>a channel whose receiver is alive\<close>
  "live_channel cap n = (if n < cap then SendOk else SendFull)"

text \<open>
  A handler entry: its channel with the messages waiting in it, the atomic counters, and the
  semaphore as its permits at registration and the permits added to it since.
\<close>

record HandlerEntry =
  capacity :: nat
  buffered :: "OwnedMessage list"
  queue_depth :: usize
  inflight :: usize
  semaphore :: "nat option"
  added_permits :: nat
  outstanding_permits :: usize
  semaphore_limit :: usize

definition HandlerMetadata_new :: "nat \<Rightarrow> nat option \<Rightarrow> nat \<Rightarrow> HandlerEntry" where
  "HandlerMetadata_new cap sem limit =
     \<lparr>capacity = cap, buffered = [], queue_depth = 0, inflight = 0, semaphore = sem,
      added_permits = 0, outstanding_permits = 0, semaphore_limit = of_nat limit\<rparr>"

definition try_acquire_semaphore :: "HandlerEntry \<Rightarrow> bool \<times> HandlerEntry" where
  "try_acquire_semaphore h =
     (if semaphore h = None then (True, h)
      else if outstanding_permits h \<ge> semaphore_limit h then (False, h)
      else (True, h\<lparr>outstanding_permits := outstanding_permits h + 1\<rparr>))"

definition release_permits :: "HandlerEntry \<Rightarrow> usize \<Rightarrow> HandlerEntry" where
  "release_permits h n =
     (if semaphore h \<noteq> None then
        let to_release = min n (outstanding_permits h)
        in if to_release > 0
           then h\<lparr>outstanding_permits := outstanding_permits h - to_release,
                  added_permits := added_permits h + unat to_release\<rparr>
           else h
      else h)"

definition HandlerMetadata_ack :: "HandlerEntry \<Rightarrow> usize \<Rightarrow> HandlerEntry" where
  "HandlerMetadata_ack h n =
     release_permits (h\<lparr>queue_depth := saturating_sub (queue_depth h) n,
                       inflight := saturating_sub (inflight h) n\<rparr>) n"

type_synonym QueueManager = "string \<rightharpoonup> HandlerEntry"

definition MAX_PERMITS :: nat where "MAX_PERMITS = 2 ^ 61 - 1"

definition register_handler_with_semaphore ::
  "QueueManager \<Rightarrow> string \<Rightarrow> nat \<Rightarrow> nat option \<Rightarrow> QueueManager res" where
  \<comment> \<open>\<open>mpsc::channel(0)\<close> panics\<close>
  "register_handler_with_semaphore q topic cap sem =
     (if cap = 0 then Inl (Panic ''mpsc bounded channel requires buffer > 0'')
      else let limit = (case sem of Some n \<Rightarrow> n | None \<Rightarrow> 0)
           in Inr (q(topic \<mapsto> HandlerMetadata_new cap sem limit)))"

definition Dispatcher_new :: QueueManager where "Dispatcher_new = Map.empty"

definition Dispatcher_register_handler :: "QueueManager \<Rightarrow> string \<Rightarrow> nat \<Rightarrow> QueueManager res" where
  "Dispatcher_register_handler q topic cap = register_handler_with_semaphore q topic cap None"

definition get_capacity :: "QueueManager \<Rightarrow> string \<Rightarrow> nat option" where
  "get_capacity q topic = map_option capacity (q topic)"

definition get_inflight :: "QueueManager \<Rightarrow> string \<Rightarrow> usize option" where
  "get_inflight q topic = map_option inflight (q topic)"

definition queue_snapshots :: "QueueManager \<Rightarrow> string \<rightharpoonup> usize \<times> usize" where
  "queue_snapshots q = (\<lambda>topic. map_option (\<lambda>h. (queue_depth h, inflight h)) (q topic))"

definition QueueManager_ack :: "QueueManager \<Rightarrow> string \<Rightarrow> usize \<Rightarrow> QueueManager" where
  "QueueManager_ack q topic n =
     (case q topic of None \<Rightarrow> q | Some h \<Rightarrow> q(topic \<mapsto> HandlerMetadata_ack h n))"

definition receive :: "QueueManager \<Rightarrow> string \<Rightarrow> (OwnedMessage \<times> QueueManager) option" where
  \<comment> \<open>\<open>recv\<close> on the receiver half that registration hands to the worker\<close>
  "receive q topic =
     (case q topic of None \<Rightarrow> None
      | Some h \<Rightarrow> (case buffered h of [] \<Rightarrow> None
                   | m # ms \<Rightarrow> Some (m, q(topic \<mapsto> h\<lparr>buffered := ms\<rparr>))))"

section \<open>Dispatching one message\<close>

datatype DispatchError =
    QueueFull string nat
  | Backpressure string string
  | UnknownTopic string string
  | HandlerNotRegistered string
  | QueueClosed string

datatype BackpressureAction = Drop | Wait | PausePartition string i32 | ResumePartition string i32

fun BackpressureAction_topic :: "BackpressureAction \<Rightarrow> string option" where
  "BackpressureAction_topic (PausePartition topic part) = Some topic"
| "BackpressureAction_topic (ResumePartition topic part) = Some topic"
| "BackpressureAction_topic Drop = None"
| "BackpressureAction_topic Wait = None"

record DispatchOutcome =
  out_topic :: string
  out_partition :: i32
  out_offset :: i64
  out_queue_depth :: usize

definition outcome :: "OwnedMessage \<Rightarrow> usize \<Rightarrow> DispatchOutcome" where
  "outcome m depth = \<lparr>out_topic = msg_topic m, out_partition = msg_partition m,
     out_offset = msg_offset m, out_queue_depth = depth\<rparr>"

definition send :: "channel \<Rightarrow> QueueManager \<Rightarrow> OwnedMessage \<Rightarrow> QueueManager \<times> (DispatchError + DispatchOutcome)" where
  "send chan q m =
     (let topic = msg_topic m in
      case q topic of
        None \<Rightarrow> (q, Inl (HandlerNotRegistered topic))
      | Some h \<Rightarrow>
          (case try_acquire_semaphore h of
             (False, h1) \<Rightarrow> (q(topic \<mapsto> h1), Inl (Backpressure topic ''semaphore permit unavailable''))
           | (True, h1) \<Rightarrow>
               let h2 = h1\<lparr>inflight := inflight h1 + 1\<rparr> in
               (case chan (capacity h2) (length (buffered h2)) of
                  SendOk \<Rightarrow>
                    let h3 = h2\<lparr>buffered := buffered h2 @ [m], queue_depth := queue_depth h2 + 1\<rparr>
                    in (q(topic \<mapsto> h3), Inr (outcome m (queue_depth h3)))
                | SendFull \<Rightarrow>
                    (q(topic \<mapsto> h2\<lparr>inflight := inflight h2 - 1\<rparr>), Inl (Backpressure topic ''queue full''))
                | SendClosed \<Rightarrow>
                    (q(topic \<mapsto> h2\<lparr>inflight := inflight h2 - 1\<rparr>), Inl (QueueClosed topic)))))"

definition send_with_policy_and_signal ::
  "channel \<Rightarrow> QueueManager \<Rightarrow> OwnedMessage
   \<Rightarrow> QueueManager \<times> (DispatchError + DispatchOutcome) \<times> BackpressureAction option" where
  "send_with_policy_and_signal chan q m =
     (let topic = msg_topic m; part = msg_partition m in
      case q topic of
        None \<Rightarrow> (q, Inl (HandlerNotRegistered topic), None)
      | Some h \<Rightarrow>
          (case try_acquire_semaphore h of
             (False, h1) \<Rightarrow> (q(topic \<mapsto> h1), Inl (Backpressure topic ''semaphore permit unavailable''),
                             Some (PausePartition topic part))
           | (True, h1) \<Rightarrow>
               let h2 = h1\<lparr>inflight := inflight h1 + 1\<rparr> in
               (case chan (capacity h2) (length (buffered h2)) of
                  SendOk \<Rightarrow>
                    let h3 = h2\<lparr>buffered := buffered h2 @ [m], queue_depth := queue_depth h2 + 1\<rparr>
                    in (q(topic \<mapsto> h3), Inr (outcome m (queue_depth h3)), None)
                | SendFull \<Rightarrow>
                    (q(topic \<mapsto> h2\<lparr>inflight := inflight h2 - 1\<rparr>), Inl (Backpressure topic ''queue full''),
                     Some (PausePartition topic part))
                | SendClosed \<Rightarrow>
                    (q(topic \<mapsto> h2\<lparr>inflight := inflight h2 - 1\<rparr>), Inl (QueueClosed topic), None))))"

section \<open>The consumer dispatcher\<close>

type_synonym tpl = "(string \<times> i32 \<times> i64) list"

text \<open>
  The answers of the Kafka client during one step of the loop: its assignment (\<open>None\<close> when the
  call fails), whether an element is accepted into a topic-partition list, and whether pausing
  and resuming succeed.
\<close>

record client =
  assignment :: "tpl option"
  add_ok :: "string \<times> i32 \<times> i64 \<Rightarrow> bool"
  pause_ok :: "tpl \<Rightarrow> bool"
  resume_ok :: "tpl \<Rightarrow> bool"

datatype client_call = Pause tpl | Resume tpl

record ConsumerDispatcher =
  queue_manager :: QueueManager
  partition_handles :: "string \<rightharpoonup> tpl"
  paused_topics :: "string set"

definition ConsumerDispatcher_new :: ConsumerDispatcher where
  "ConsumerDispatcher_new = \<lparr>queue_manager = Dispatcher_new, partition_handles = Map.empty, paused_topics = {}\<rparr>"

definition ConsumerDispatcher_register_handler ::
  "ConsumerDispatcher \<Rightarrow> string \<Rightarrow> nat \<Rightarrow> nat option \<Rightarrow> ConsumerDispatcher res" where
  "ConsumerDispatcher_register_handler d topic cap max_concurrency =
     (if (case max_concurrency of Some n \<Rightarrow> MAX_PERMITS < n | None \<Rightarrow> False)
      then Inl (Panic ''a semaphore may not have more than MAX_PERMITS permits'')
      else res_bind (register_handler_with_semaphore (queue_manager d) topic cap max_concurrency)
             (\<lambda>q. Inr (d\<lparr>queue_manager := q\<rparr>)))"

fun group_by_topic :: "client \<Rightarrow> (string \<rightharpoonup> tpl) \<Rightarrow> tpl \<Rightarrow> (string \<rightharpoonup> tpl) option" where
  "group_by_topic c by_topic [] = Some by_topic"
| "group_by_topic c by_topic ((topic, part, offset) # es) =
     (if add_ok c (topic, part, offset)
      then group_by_topic c (by_topic(topic \<mapsto>
             (case by_topic topic of Some l \<Rightarrow> l | None \<Rightarrow> []) @ [(topic, part, offset)])) es
      else None)"

definition populate_partitions :: "client \<Rightarrow> ConsumerDispatcher \<Rightarrow> ConsumerDispatcher" where
  \<comment> \<open>the loop ignores the error, the handles then stay as they are\<close>
  "populate_partitions c d =
     (case assignment c of None \<Rightarrow> d
      | Some es \<Rightarrow> (case group_by_topic c Map.empty es of None \<Rightarrow> d
                    | Some by_topic \<Rightarrow> d\<lparr>partition_handles := by_topic\<rparr>))"

definition pause_partition :: "client \<Rightarrow> ConsumerDispatcher \<Rightarrow> string \<Rightarrow> client_call list \<times> bool" where
  "pause_partition c d topic =
     (case partition_handles d topic of Some l \<Rightarrow> ([Pause l], pause_ok c l) | None \<Rightarrow> ([], False))"

definition resume_partition :: "client \<Rightarrow> ConsumerDispatcher \<Rightarrow> string \<Rightarrow> client_call list \<times> bool" where
  "resume_partition c d topic =
     (case partition_handles d topic of Some l \<Rightarrow> ([Resume l], resume_ok c l) | None \<Rightarrow> ([], False))"

definition resume_threshold :: "nat \<Rightarrow> nat" where
  \<comment> \<open>\<open>(capacity as f64 * 0.5) as usize\<close>: the ratio is fixed at one half, which is exact\<close>
  "resume_threshold cap = cap div 2"

definition check_resume ::
  "client \<Rightarrow> ConsumerDispatcher \<Rightarrow> string \<Rightarrow> usize \<Rightarrow> ConsumerDispatcher \<times> client_call list" where
  "check_resume c d topic current_depth =
     (case get_capacity (queue_manager d) topic of
        None \<Rightarrow> (d, [])
      | Some cap \<Rightarrow>
          if unat current_depth < resume_threshold cap \<and> topic \<in> paused_topics d
          then (d\<lparr>paused_topics := paused_topics d - {topic}\<rparr>, fst (resume_partition c d topic))
          else (d, []))"

definition handle_backpressure ::
  "client \<Rightarrow> ConsumerDispatcher \<Rightarrow> string \<Rightarrow> ConsumerDispatcher \<times> client_call list" where
  "handle_backpressure c d pause_topic =
     (let d1 = (if partition_handles d = Map.empty then populate_partitions c d else d);
          (calls, ok) = pause_partition c d1 pause_topic
      in if ok then (d1\<lparr>paused_topics := insert pause_topic (paused_topics d1)\<rparr>, calls) else (d1, calls))"

definition dispatch_message ::
  "client \<Rightarrow> channel \<Rightarrow> ConsumerDispatcher \<Rightarrow> OwnedMessage \<Rightarrow> ConsumerDispatcher \<times> client_call list" where
  \<comment> \<open>one iteration of the loop of \<open>run\<close> on a message; an error item of the stream is only logged\<close>
  "dispatch_message c chan d m =
     (let (q, result, pause_signal) = send_with_policy_and_signal chan (queue_manager d) m;
          d1 = d\<lparr>queue_manager := q\<rparr>
      in case result of
           Inr out \<Rightarrow> check_resume c d1 (msg_topic m) (out_queue_depth out)
         | Inl (Backpressure _ _) \<Rightarrow>
             (case pause_signal of Some (PausePartition pause_topic _) \<Rightarrow> handle_backpressure c d1 pause_topic
              | _ \<Rightarrow> (d1, []))
         | Inl _ \<Rightarrow> (d1, []))"

section \<open>Histories of the queues\<close>

datatype queue_event = QSend OwnedMessage | QRecv string | QAck string usize

fun queue_step :: "channel \<Rightarrow> QueueManager \<Rightarrow> queue_event \<Rightarrow> QueueManager" where
  "queue_step chan q (QSend m) = fst (send chan q m)"
| "queue_step chan q (QRecv topic) = (case receive q topic of Some (m, q') \<Rightarrow> q' | None \<Rightarrow> q)"
| "queue_step chan q (QAck topic n) = QueueManager_ack q topic n"

definition buffered_at :: "QueueManager \<Rightarrow> string \<Rightarrow> OwnedMessage list" where
  "buffered_at q topic = (case q topic of Some h \<Rightarrow> buffered h | None \<Rightarrow> [])"

fun received :: "channel \<Rightarrow> string \<Rightarrow> QueueManager \<Rightarrow> queue_event list \<Rightarrow> OwnedMessage list" where
  "received chan topic q [] = []"
| "received chan topic q (e # es) =
     (case e of QRecv topic' \<Rightarrow> (case receive q topic' of
                  Some (m, q') \<Rightarrow> if topic' = topic then [m] else [] | None \<Rightarrow> [])
      | _ \<Rightarrow> []) @ received chan topic (queue_step chan q e) es"

fun stream_of :: "string \<Rightarrow> queue_event list \<Rightarrow> OwnedMessage list" where
  "stream_of topic [] = []"
| "stream_of topic (QSend m # es) =
     (if msg_topic m = topic then m # stream_of topic es else stream_of topic es)"
| "stream_of topic (QRecv t # es) = stream_of topic es"
| "stream_of topic (QAck t n # es) = stream_of topic es"

definition handler_wf :: "HandlerEntry \<Rightarrow> bool" where
  "handler_wf h \<longleftrightarrow> queue_depth h = inflight h
     \<and> (if semaphore h = None then outstanding_permits h = 0
        else inflight h \<le> outstanding_permits h \<and> outstanding_permits h \<le> semaphore_limit h)"

definition queues_wf :: "channel \<Rightarrow> QueueManager \<Rightarrow> bool" where
  "queues_wf chan q \<longleftrightarrow> (\<forall>topic h. q topic = Some h \<longrightarrow>
     handler_wf h \<and> (bounded_channel chan \<longrightarrow> length (buffered h) \<le> capacity h))"

section \<open>Lemmas\<close>

lemma word_succ_le:
  assumes "(a :: usize) \<le> b" "b < c"
  shows "a \<le> b + 1 \<and> a + 1 \<le> b + 1 \<and> b + 1 \<le> c"
proof -
  have c: "unat c < 2 ^ 64" using unsigned_less [of c, where ?'a = nat] by simp
  have "unat a \<le> unat b" "unat b < unat c"
    using assms by (simp_all add: word_le_nat_alt word_less_nat_alt)
  with c have "unat (b + 1) = unat b + 1" "unat (a + 1) = unat a + 1"
    by (simp_all add: unat_succ_no_wrap)
  with assms show ?thesis by (auto simp: word_le_nat_alt word_less_nat_alt)
qed

lemma word_saturating_min:
  "(a :: usize) \<le> b \<Longrightarrow> saturating_sub a n \<le> b - min n b"
  by (auto simp: word_le_nat_alt unat_saturating_sub unat_sub min_def)

lemma try_acquire_wf:
  "handler_wf h \<Longrightarrow> try_acquire_semaphore h = (True, h1) \<Longrightarrow>
     handler_wf h1 \<and> handler_wf (h1\<lparr>inflight := inflight h1 + 1, queue_depth := queue_depth h1 + 1\<rparr>)
     \<and> buffered h1 = buffered h \<and> capacity h1 = capacity h"
  using word_succ_le [of "inflight h" "outstanding_permits h" "semaphore_limit h"]
  by (auto simp: handler_wf_def try_acquire_semaphore_def split: if_splits)

lemma release_permits_simps [simp]:
  "queue_depth (release_permits h n) = queue_depth h"
  "inflight (release_permits h n) = inflight h"
  "semaphore (release_permits h n) = semaphore h"
  "semaphore_limit (release_permits h n) = semaphore_limit h"
  "buffered (release_permits h n) = buffered h"
  "capacity (release_permits h n) = capacity h"
  "outstanding_permits (release_permits h n) =
     (if semaphore h = None then outstanding_permits h
      else outstanding_permits h - min n (outstanding_permits h))"
  by (auto simp: release_permits_def Let_def word_gt_0 min_def)

lemma handler_ack_wf: "handler_wf h \<Longrightarrow> handler_wf (HandlerMetadata_ack h n)"
  using word_saturating_min [of "inflight h" "outstanding_permits h" n]
    word_sub_le [of "min n (outstanding_permits h)" "outstanding_permits h"]
  by (auto simp: handler_wf_def HandlerMetadata_ack_def intro: order_trans)

lemma send_cases:
  assumes "q (msg_topic m) = Some h"
  obtains
    (refused) "send chan q m = (q, Inl (Backpressure (msg_topic m) ''semaphore permit unavailable''))"
      "send_with_policy_and_signal chan q m = (q, Inl (Backpressure (msg_topic m) ''semaphore permit unavailable''),
         Some (PausePartition (msg_topic m) (msg_partition m)))"
      "fst (try_acquire_semaphore h) = False"
  | (ok) h1 where "try_acquire_semaphore h = (True, h1)"
      "chan (capacity h1) (length (buffered h1)) = SendOk"
      "send chan q m = (q(msg_topic m \<mapsto> h1\<lparr>inflight := inflight h1 + 1, buffered := buffered h1 @ [m],
          queue_depth := queue_depth h1 + 1\<rparr>), Inr (outcome m (queue_depth h1 + 1)))"
      "send_with_policy_and_signal chan q m = (q(msg_topic m \<mapsto> h1\<lparr>inflight := inflight h1 + 1,
          buffered := buffered h1 @ [m], queue_depth := queue_depth h1 + 1\<rparr>),
          Inr (outcome m (queue_depth h1 + 1)), None)"
  | (full) h1 where "try_acquire_semaphore h = (True, h1)"
      "chan (capacity h1) (length (buffered h1)) = SendFull"
      "send chan q m = (q(msg_topic m \<mapsto> h1), Inl (Backpressure (msg_topic m) ''queue full''))"
      "send_with_policy_and_signal chan q m = (q(msg_topic m \<mapsto> h1),
         Inl (Backpressure (msg_topic m) ''queue full''), Some (PausePartition (msg_topic m) (msg_partition m)))"
  | (closed) h1 where "try_acquire_semaphore h = (True, h1)"
      "chan (capacity h1) (length (buffered h1)) = SendClosed"
      "send chan q m = (q(msg_topic m \<mapsto> h1), Inl (QueueClosed (msg_topic m)))"
      "send_with_policy_and_signal chan q m = (q(msg_topic m \<mapsto> h1), Inl (QueueClosed (msg_topic m)), None)"
proof -
  obtain b h1 where acq: "try_acquire_semaphore h = (b, h1)" by (metis surj_pair)
  show ?thesis
  proof (cases b)
    case False
    then have "h1 = h" using acq by (auto simp: try_acquire_semaphore_def split: if_splits)
    then have "q(msg_topic m \<mapsto> h1) = q" using assms by (simp add: fun_upd_idem)
    with False acq assms show ?thesis
      by (intro refused) (simp_all add: send_def send_with_policy_and_signal_def Let_def)
  next
    case True
    note defs = send_def send_with_policy_and_signal_def Let_def
    show ?thesis
    proof (cases "chan (capacity h1) (length (buffered h1))")
      case SendOk
      with True acq assms show ?thesis by (intro ok [of h1]) (simp_all add: defs)
    next
      case SendFull
      with True acq assms show ?thesis by (intro full [of h1]) (simp_all add: defs)
    next
      case SendClosed
      with True acq assms show ?thesis by (intro closed [of h1]) (simp_all add: defs)
    qed
  qed
qed

lemma send_unregistered:
  "q (msg_topic m) = None \<Longrightarrow> send chan q m = (q, Inl (HandlerNotRegistered (msg_topic m)))
     \<and> send_with_policy_and_signal chan q m = (q, Inl (HandlerNotRegistered (msg_topic m)), None)"
  by (simp add: send_def send_with_policy_and_signal_def)

lemma send_wf:
  assumes "queues_wf chan q"
  shows "queues_wf chan (fst (send chan q m))"
proof (cases "q (msg_topic m)")
  case None
  then show ?thesis using assms by (simp add: send_unregistered)
next
  case (Some h)
  then have h: "handler_wf h" "bounded_channel chan \<longrightarrow> length (buffered h) \<le> capacity h"
    using assms by (auto simp: queues_wf_def)
  from Some show ?thesis
  proof (cases rule: send_cases [where chan = chan])
    case refused
    then show ?thesis using assms by simp
  next
    case (ok h1)
    have wf: "handler_wf (h1\<lparr>inflight := inflight h1 + 1, buffered := buffered h1 @ [m],
          queue_depth := queue_depth h1 + 1\<rparr>)" "capacity h1 = capacity h" "buffered h1 = buffered h"
      using try_acquire_wf [OF h(1) ok(1)] by (auto simp: handler_wf_def)
    moreover have "bounded_channel chan \<longrightarrow> length (buffered h1) < capacity h1"
      using ok(2) by (simp add: bounded_channel_def)
    ultimately show ?thesis using assms ok(3) by (auto simp: queues_wf_def)
  next
    case (full h1)
    then show ?thesis using assms try_acquire_wf [OF h(1) full(1)] h(2) by (auto simp: queues_wf_def)
  next
    case (closed h1)
    then show ?thesis using assms try_acquire_wf [OF h(1) closed(1)] h(2) by (auto simp: queues_wf_def)
  qed
qed

interpretation queues: event_invariant "queue_step chan" "queues_wf chan" for chan
proof (unfold_locales, goal_cases)
  case (1 q e)
  then show ?case
  proof (cases e)
    case (QRecv topic)
    with 1 show ?thesis
      by (fastforce simp: queues_wf_def handler_wf_def receive_def split: option.splits list.splits)
  next
    case (QAck topic n)
    with 1 show ?thesis
      by (auto simp: queues_wf_def QueueManager_ack_def handler_ack_wf split: option.splits)
        (auto simp: HandlerMetadata_ack_def)
  qed (simp add: send_wf)
qed

lemma buffered_at_send:
  "buffered_at (fst (send chan q m)) topic =
     (if topic = msg_topic m \<and> \<not> isl (snd (send chan q m)) then buffered_at q topic @ [m]
      else buffered_at q topic)"
proof (cases "q (msg_topic m)")
  case (Some h)
  have keep: "buffered h1 = buffered h" if "try_acquire_semaphore h = (True, h1)" for h1
    using that by (auto simp: try_acquire_semaphore_def split: if_splits)
  from Some show ?thesis
    by (cases rule: send_cases [where chan = chan]) (use Some in \<open>auto simp: buffered_at_def keep\<close>)
qed (simp add: send_unregistered)

lemma buffered_at_ack [simp]: "buffered_at (QueueManager_ack q t n) topic = buffered_at q topic"
  by (auto simp: buffered_at_def QueueManager_ack_def HandlerMetadata_ack_def split: option.splits)

lemma received_in_order:
  "subseq (received chan topic q es @ buffered_at (foldl (queue_step chan) q es) topic)
          (buffered_at q topic @ stream_of topic es)"
proof (induction es arbitrary: q)
  case (Cons e es)
  note IH = Cons.IH [of "queue_step chan q e"]
  show ?case
  proof (cases e)
    case (QSend m)
    have "subseq (stream_of topic es) (stream_of topic (e # es))" using QSend by auto
    then have "subseq (buffered_at q topic @ stream_of topic es) (buffered_at q topic @ stream_of topic (e # es))"
      by (rule list_emb_append_mono [OF subseq_order.order_refl])
    then have "subseq (buffered_at (queue_step chan q e) topic @ stream_of topic es)
        (buffered_at q topic @ stream_of topic (e # es))"
      using QSend by (auto simp: buffered_at_send split: if_splits)
    with IH have "subseq (received chan topic (queue_step chan q e) es
          @ buffered_at (foldl (queue_step chan) (queue_step chan q e) es) topic)
        (buffered_at q topic @ stream_of topic (e # es))"
      by (rule subseq_order.order_trans)
    then show ?thesis using QSend by simp
  next
    case (QRecv t)
    with IH show ?thesis
      by (auto simp: receive_def buffered_at_def split: option.splits list.splits if_splits)
  qed (use IH in simp)
qed simp

section \<open>Histories of the dispatch loop\<close>

datatype dispatch_event =
    DMessage client channel OwnedMessage
  | DRecv string
  | DAck string usize

fun dispatch_step :: "ConsumerDispatcher \<Rightarrow> dispatch_event \<Rightarrow> ConsumerDispatcher" where
  "dispatch_step d (DMessage c chan m) = fst (dispatch_message c chan d m)"
| "dispatch_step d (DRecv topic) =
     (case receive (queue_manager d) topic of Some (m, q) \<Rightarrow> d\<lparr>queue_manager := q\<rparr> | None \<Rightarrow> d)"
| "dispatch_step d (DAck topic n) = d\<lparr>queue_manager := QueueManager_ack (queue_manager d) topic n\<rparr>"

lemma paused_dispatch_other:
  assumes "topic \<in> paused_topics d" "msg_topic m \<noteq> topic"
  shows "topic \<in> paused_topics (fst (dispatch_message c chan d m))"
proof -
  have chk: "topic \<in> paused_topics (fst (check_resume c d1 (msg_topic m) n))" if "topic \<in> paused_topics d1" for d1 n
    using that assms(2) by (auto simp: check_resume_def split: option.splits)
  have pop: "paused_topics (populate_partitions c d1) = paused_topics d1" for d1
    by (simp add: populate_partitions_def split: option.splits)
  have bp: "topic \<in> paused_topics (fst (handle_backpressure c d1 t))" if "topic \<in> paused_topics d1" for d1 t
    using that pop by (auto simp: handle_backpressure_def Let_def split: prod.splits)
  show ?thesis
    using assms(1) chk bp
    by (auto simp: dispatch_message_def Let_def split: prod.splits sum.splits DispatchError.splits
        option.splits BackpressureAction.splits)
qed

section \<open>Properties of the dispatcher\<close>

text \<open>
  C22 (invariant). In every history of sends, receipts and acknowledgements the two counters of a
  handler agree, a handler without a concurrency limit holds no permits, one with a limit never
  has more permits out than the limit and at least as many as messages in flight, and a bounded
  channel never holds more than its capacity.
\<close>

theorem queue_counters_invariant:
  assumes "queues_wf chan q" "foldl (queue_step chan) q es topic = Some h" "bounded_channel chan"
  shows "queue_depth h = inflight h \<and> length (buffered h) \<le> capacity h
     \<and> (if semaphore h = None then outstanding_permits h = 0
        else inflight h \<le> outstanding_permits h \<and> outstanding_permits h \<le> semaphore_limit h)"
  using queues.run_inv [OF assms(1), of es] assms(2,3) by (auto simp: queues_wf_def handler_wf_def)

lemma registered_wf:
  "register_handler_with_semaphore Map.empty topic cap sem = Inr q \<Longrightarrow> queues_wf chan q"
  by (auto simp: register_handler_with_semaphore_def queues_wf_def handler_wf_def HandlerMetadata_new_def
      split: if_splits)

definition sample_message :: "string \<Rightarrow> i64 \<Rightarrow> OwnedMessage" where
  "sample_message topic offset =
     \<lparr>msg_topic = topic, msg_partition = 0, msg_offset = offset, msg_key = None, msg_payload = None,
      msg_timestamp = NotAvailable, msg_headers = []\<rparr>"

definition one_handler :: QueueManager where
  "one_handler = [''t'' \<mapsto> HandlerMetadata_new 1 (Some 3) 3]"

lemma one_handler_wf: "queues_wf chan one_handler"
  by (rule registered_wf [of "''t''" 1 "Some 3"])
    (simp add: register_handler_with_semaphore_def one_handler_def)

lemma bounded_live_channel: "bounded_channel live_channel"
  by (simp add: bounded_channel_def live_channel_def)

lemmas queue_eval = one_handler_def HandlerMetadata_new_def send_def try_acquire_semaphore_def
  live_channel_def sample_message_def receive_def QueueManager_ack_def HandlerMetadata_ack_def
  release_permits_def saturating_sub_def Let_def

theorem queue_counters_invariant_witness:
  "\<exists>h. foldl (queue_step live_channel) one_handler [QSend (sample_message ''t'' 4)] ''t'' = Some h
     \<and> queue_depth h = inflight h \<and> length (buffered h) \<le> capacity h"
proof -
  obtain h where "foldl (queue_step live_channel) one_handler [QSend (sample_message ''t'' 4)] ''t'' = Some h"
    by (simp add: queue_eval)
  with queue_counters_invariant [OF one_handler_wf this bounded_live_channel] show ?thesis by blast
qed

text \<open>
  C16 (safety). No handler sees a message that the stream did not deliver for its topic, sees one
  twice, or sees two out of order: what its worker received, followed by what waits in the
  queue, is a subsequence of the topic's messages in stream order. The messages it misses are
  those refused under backpressure.
\<close>

theorem handler_receives_in_stream_order:
  "subseq (received chan topic q es @ buffered_at (foldl (queue_step chan) q es) topic)
          (buffered_at q topic @ stream_of topic es)"
  by (rule received_in_order)

text \<open>
  The two ways to dispatch agree: the signalling variant changes the queues and
  answers as the plain one, and adds the signal to pause the message's partition exactly when
  the answer is backpressure.
\<close>

lemma send_with_signal_agrees:
  "send_with_policy_and_signal chan q m =
     (let (q', r) = send chan q m
      in (q', r, case r of Inl (Backpressure _ _) \<Rightarrow> Some (PausePartition (msg_topic m) (msg_partition m))
                 | _ \<Rightarrow> None))"
proof (cases "q (msg_topic m)")
  case (Some h)
  then show ?thesis by (cases rule: send_cases [where chan = chan]) simp_all
qed (simp add: send_unregistered)

text \<open>
  What a dispatch does on every path. Other topics are untouched; success
  appends the message to its queue; the refusals (no handler, no permit, full, closed) leave
  every queue as it was, and a permit taken before a full or closed channel refused the message
  is not given back.
\<close>

lemma send_outcomes:
  assumes "send chan q m = (q', r)"
  shows "(\<forall>topic. topic \<noteq> msg_topic m \<longrightarrow> q' topic = q topic)
     \<and> (\<forall>topic. buffered_at q' topic =
          (if topic = msg_topic m \<and> \<not> isl r then buffered_at q topic @ [m] else buffered_at q topic))
     \<and> (\<forall>h h'. q (msg_topic m) = Some h \<longrightarrow> q' (msg_topic m) = Some h' \<longrightarrow>
          inflight h' = (if isl r then inflight h else inflight h + 1)
          \<and> outstanding_permits h' = outstanding_permits h
              + (if semaphore h = None \<or> r = Inl (Backpressure (msg_topic m) ''semaphore permit unavailable'')
                 then 0 else 1))"
proof (cases "q (msg_topic m)")
  case None
  then show ?thesis using assms buffered_at_send [of chan q m] by (auto simp: send_unregistered)
next
  case (Some h)
  have acq: "inflight h1 = inflight h \<and> outstanding_permits h1 = outstanding_permits h
      + (if semaphore h = None then 0 else 1)" if "try_acquire_semaphore h = (True, h1)" for h1
    using that by (auto simp: try_acquire_semaphore_def split: if_splits)
  have buf: "buffered_at q' topic =
      (if topic = msg_topic m \<and> \<not> isl r then buffered_at q topic @ [m] else buffered_at q topic)" for topic
    using buffered_at_send [of chan q m topic] assms by simp
  have frame: "topic \<noteq> msg_topic m \<longrightarrow> q' topic = q topic" for topic
    using Some by (cases rule: send_cases [where chan = chan]) (use assms in auto)
  have "\<forall>h'. q' (msg_topic m) = Some h' \<longrightarrow>
          inflight h' = (if isl r then inflight h else inflight h + 1)
          \<and> outstanding_permits h' = outstanding_permits h
              + (if semaphore h = None \<or> r = Inl (Backpressure (msg_topic m) ''semaphore permit unavailable'')
                 then 0 else 1)"
    using Some
  proof (cases rule: send_cases [where chan = chan])
    case refused
    then show ?thesis using assms Some by auto
  next
    case (ok h1)
    then show ?thesis using assms acq [OF ok(1)] by auto
  next
    case (full h1)
    then show ?thesis using assms acq [OF full(1)] by auto
  next
    case (closed h1)
    then show ?thesis using assms acq [OF closed(1)] by auto
  qed
  with buf frame Some show ?thesis by simp
qed

text \<open>
  Permits leak. A handler with one queue place and three permits receives one
  message and is offered two more while the place is taken; after the one message is received
  and acknowledged, nothing waits and nothing is in flight, yet two of the three permits are
  still out and no later acknowledgement belongs to them.
\<close>

lemma refused_sends_leak_permits:
  "\<exists>h. foldl (queue_step live_channel) one_handler
         [QSend (sample_message ''t'' 4), QSend (sample_message ''t'' 5), QSend (sample_message ''t'' 6),
          QRecv ''t'', QAck ''t'' 1] ''t'' = Some h
     \<and> buffered h = [] \<and> inflight h = 0 \<and> outstanding_permits h = 2 \<and> semaphore_limit h = 3"
  by (simp add: queue_eval word_le_nat_alt)

text \<open>
  C36 (liveness). A paused topic is resumed by nothing but another dispatched message of that
  topic: however many messages of other topics are dispatched, and however far its own queue is
  received and acknowledged, it stays paused, and a paused consumer delivers no such message.
\<close>

theorem paused_topic_stays_paused:
  assumes "topic \<in> paused_topics d"
    "list_all (\<lambda>e. case e of DMessage c chan m \<Rightarrow> msg_topic m \<noteq> topic | _ \<Rightarrow> True) es"
  shows "topic \<in> paused_topics (foldl dispatch_step d es)"
  using assms
proof (induction es arbitrary: d)
  case (Cons e es)
  then have "topic \<in> paused_topics (dispatch_step d e)"
    by (cases e) (auto simp: paused_dispatch_other split: option.splits)
  with Cons show ?case by simp
qed simp

definition sample_client :: client where
  "sample_client = \<lparr>assignment = Some [(''t'', 0, 0)], add_ok = (\<lambda>x. True), pause_ok = (\<lambda>x. True),
     resume_ok = (\<lambda>x. True)\<rparr>"

theorem paused_topic_stays_paused_witness:
  "''t'' \<in> paused_topics (foldl dispatch_step
     (ConsumerDispatcher_new\<lparr>queue_manager := one_handler, paused_topics := {''t''}\<rparr>)
     [DRecv ''t'', DAck ''t'' 1, DMessage sample_client live_channel (sample_message ''u'' 0)])"
  by (rule paused_topic_stays_paused) (simp_all add: sample_message_def)

end
