(* ===== verification/Shutdown.thy ===== *)
theory Shutdown
  imports Prelude
begin

text \<open>
  The shutdown coordinator (\<^verbatim>\<open>src/shutdown/shutdown.rs\<close>): a four phase life cycle whose
  transitions panic out of order. The cancellation tokens are identified by the component they
  are for; the coordinator hands them out and never cancels them itself.
\<close>

datatype ShutdownPhase = Running | Draining | Finalizing | Done

fun ShutdownPhase_str :: "ShutdownPhase \<Rightarrow> string" where
  "ShutdownPhase_str Running = ''Running''"
| "ShutdownPhase_str Draining = ''Draining''"
| "ShutdownPhase_str Finalizing = ''Finalizing''"
| "ShutdownPhase_str Done = ''Done''"

datatype cancel_token = DispatcherCancel | WorkerCancel | CommitterCancel

record ShutdownCoordinator =
  phase :: ShutdownPhase
  drain_timeout :: nat

definition ShutdownCoordinator_new :: "nat \<Rightarrow> ShutdownCoordinator" where
  \<comment> \<open>the timeout in seconds\<close>
  "ShutdownCoordinator_new drain_timeout_secs = \<lparr>phase = Running, drain_timeout = drain_timeout_secs\<rparr>"

definition begin_draining ::
  "ShutdownCoordinator \<Rightarrow> (ShutdownCoordinator \<times> cancel_token \<times> cancel_token \<times> cancel_token) res" where
  "begin_draining c =
     (if phase c = Running
      then Inr (c\<lparr>phase := Draining\<rparr>, DispatcherCancel, WorkerCancel, CommitterCancel)
      else Inl (Panic ''begin_draining() called in non-Running phase''))"

definition begin_finalizing :: "ShutdownCoordinator \<Rightarrow> ShutdownCoordinator res" where
  "begin_finalizing c =
     (if phase c = Draining then Inr (c\<lparr>phase := Finalizing\<rparr>)
      else Inl (Panic ''begin_finalizing() called in non-Draining phase''))"

definition set_done :: "ShutdownCoordinator \<Rightarrow> ShutdownCoordinator res" where
  "set_done c =
     (if phase c = Finalizing then Inr (c\<lparr>phase := Done\<rparr>)
      else Inl (Panic ''set_done() called in non-Finalizing phase''))"

definition is_done :: "ShutdownCoordinator \<Rightarrow> bool" where
  "is_done c \<longleftrightarrow> phase c = Done"

section \<open>Phases are ordered\<close>

fun phase_rank :: "ShutdownPhase \<Rightarrow> nat" where
  "phase_rank Running = 0"
| "phase_rank Draining = 1"
| "phase_rank Finalizing = 2"
| "phase_rank Done = 3"

lemma phase_rank_inject [simp]: "phase_rank p = phase_rank q \<longleftrightarrow> p = q"
  by (cases p; cases q) simp_all

instantiation ShutdownPhase :: linorder
begin

definition less_eq_ShutdownPhase :: "ShutdownPhase \<Rightarrow> ShutdownPhase \<Rightarrow> bool" where
  "less_eq_ShutdownPhase p q \<longleftrightarrow> phase_rank p \<le> phase_rank q"

definition less_ShutdownPhase :: "ShutdownPhase \<Rightarrow> ShutdownPhase \<Rightarrow> bool" where
  "less_ShutdownPhase p q \<longleftrightarrow> phase_rank p < phase_rank q"

instance
  by standard (auto simp: less_eq_ShutdownPhase_def less_ShutdownPhase_def)

end

datatype shutdown_op = BeginDraining | BeginFinalizing | SetDone

fun shutdown_step :: "ShutdownCoordinator \<Rightarrow> shutdown_op \<Rightarrow> ShutdownCoordinator res" where
  "shutdown_step c BeginDraining = res_bind (begin_draining c) (\<lambda>(c', _). Inr c')"
| "shutdown_step c BeginFinalizing = begin_finalizing c"
| "shutdown_step c SetDone = set_done c"

lemma shutdown_step_rank:
  "shutdown_step c op = Inr c' \<Longrightarrow> phase_rank (phase c') = phase_rank (phase c) + 1
     \<and> drain_timeout c' = drain_timeout c"
  by (cases op) (auto simp: begin_draining_def begin_finalizing_def set_done_def split: if_splits)

definition life_cycle :: "shutdown_op list" where
  "life_cycle = [BeginDraining, BeginFinalizing, SetDone]"

lemma shutdown_step_next:
  "(\<exists>c'. shutdown_step c op = Inr c')
     \<longleftrightarrow> phase_rank (phase c) < 3 \<and> op = life_cycle ! phase_rank (phase c)"
  by (cases "phase c"; cases op)
    (simp_all add: begin_draining_def begin_finalizing_def set_done_def life_cycle_def)

lemma shutdown_run_drop:
  "(\<exists>c'. res_foldl shutdown_step c ops = Inr c') \<longleftrightarrow> prefix ops (drop (phase_rank (phase c)) life_cycle)"
proof (induction ops arbitrary: c)
  case (Cons op ops)
  have "length life_cycle = 3" by (simp add: life_cycle_def)
  show ?case
  proof (cases "\<exists>c1. shutdown_step c op = Inr c1")
    case True
    then obtain c1 where c1: "shutdown_step c op = Inr c1" by blast
    then have op: "phase_rank (phase c) < 3" "op = life_cycle ! phase_rank (phase c)"
      using shutdown_step_next by blast+
    then have "drop (phase_rank (phase c)) life_cycle = op # drop (phase_rank (phase c) + 1) life_cycle"
      using Cons_nth_drop_Suc [of "phase_rank (phase c)" life_cycle] \<open>length life_cycle = 3\<close> by simp
    then show ?thesis using c1 Cons.IH [of c1] shutdown_step_rank [OF c1] by simp
  next
    case False
    then have "\<not> prefix (op # ops) (drop (phase_rank (phase c)) life_cycle)"
      using shutdown_step_next [of c op] \<open>length life_cycle = 3\<close>
        Cons_nth_drop_Suc [of "phase_rank (phase c)" life_cycle]
      by (cases "phase_rank (phase c) < 3") (auto, metis prefix_Cons list.inject list.distinct(1))
    with False show ?thesis by auto
  qed
qed simp

text \<open>
  C29 (safety). The life cycle is strict: a sequence of transitions on a new coordinator runs
  without panic exactly when it is an initial part of draining, finalizing, done. No phase is
  skipped, repeated or left backwards, and nothing is possible after the last one.
\<close>

theorem shutdown_life_cycle:
  "(\<exists>c. res_foldl shutdown_step (ShutdownCoordinator_new secs) ops = Inr c)
     \<longleftrightarrow> prefix ops [BeginDraining, BeginFinalizing, SetDone]"
  using shutdown_run_drop [of "ShutdownCoordinator_new secs" ops]
  by (simp add: ShutdownCoordinator_new_def life_cycle_def)

text \<open>
  Phases only advance, and a coordinator reports to be done only after all three
  transitions.
\<close>

lemma shutdown_phases_advance:
  assumes "res_foldl shutdown_step c ops = Inr c'"
  shows "phase c \<le> phase c' \<and> phase_rank (phase c') = phase_rank (phase c) + length ops
     \<and> (phase c = Running \<longrightarrow> is_done c' = (length ops = 3))"
proof -
  have rank: "phase_rank (phase c') = phase_rank (phase c) + length ops"
    using assms by (induction ops arbitrary: c) (use shutdown_step_rank in fastforce)+
  moreover have "is_done c' = (phase_rank (phase c') = 3)"
    by (cases "phase c'") (simp_all add: is_done_def)
  ultimately show ?thesis by (auto simp: less_eq_ShutdownPhase_def)
qed

end
