(* ===== verification/Commit.thy ===== *)
theory Commit
  imports Offsets Shutdown
begin

text \<open>
  The offset committer (\<^verbatim>\<open>src/offset/commit_task.rs\<close>): a task that turns the tracker's
  watermarks into stored and committed offsets, throttled by an interval. Instants are
  milliseconds of a monotonic clock. Whether the broker stores and commits an offset is an
  argument. A commit cycle reads the tracker in one step.
\<close>

record CommitConfig =
  commit_interval_ms :: nat
  commit_max_messages :: nat

definition CommitConfig_default :: CommitConfig where
  "CommitConfig_default = \<lparr>commit_interval_ms = 100, commit_max_messages = 100\<rparr>"

record CommitterState =
  last_commit :: "nat option"
  message_count :: nat

definition CommitterState_new :: CommitterState where
  "CommitterState_new = \<lparr>last_commit = None, message_count = 0\<rparr>"

definition CommitterState_should_commit :: "CommitConfig \<Rightarrow> CommitterState \<Rightarrow> nat \<Rightarrow> bool" where
  "CommitterState_should_commit cfg st now =
     (let interval_ready = (case last_commit st of Some t \<Rightarrow> now - t \<ge> commit_interval_ms cfg | None \<Rightarrow> True);
          batch_ready = message_count st \<ge> commit_max_messages cfg
      in interval_ready \<or> batch_ready)"

definition reset :: "CommitterState \<Rightarrow> nat \<Rightarrow> CommitterState" where
  "reset st now = st\<lparr>last_commit := Some now, message_count := 0\<rparr>"

type_synonym broker = "consumer_call \<Rightarrow> bool"

definition commit_partition :: "broker \<Rightarrow> string \<Rightarrow> i32 \<Rightarrow> i64 \<Rightarrow> consumer_call list" where
  "commit_partition broker topic part offset =
     (if \<not> broker (StoreOffset topic part offset) then [StoreOffset topic part offset]
      else [StoreOffset topic part offset, CommitState])"

definition process_partition ::
  "broker \<Rightarrow> CommitConfig \<Rightarrow> OffsetTracker \<Rightarrow> CommitterState \<Rightarrow> nat \<Rightarrow> string \<Rightarrow> i32
   \<Rightarrow> CommitterState \<times> consumer_call list" where
  "process_partition broker cfg t st now topic part =
     (if \<not> CommitterState_should_commit cfg st now then (st, [])
      else (reset st now,
            if OffsetTracker_should_commit t topic part
            then (case highest_contiguous t topic part of
                    Some offset \<Rightarrow> commit_partition broker topic part offset | None \<Rightarrow> [])
            else []))"

fun ready_partitions :: "OffsetTracker \<Rightarrow> TopicPartitionKey list \<Rightarrow> (string \<times> i32 \<times> i64) list" where
  "ready_partitions t [] = []"
| "ready_partitions t ((topic, part) # ks) =
     (if OffsetTracker_should_commit t topic part
      then (case highest_contiguous t topic part of
              Some offset \<Rightarrow> (topic, part, offset) # ready_partitions t ks
            | None \<Rightarrow> ready_partitions t ks)
      else ready_partitions t ks)"

definition process_ready_partitions ::
  "broker \<Rightarrow> CommitConfig \<Rightarrow> TopicPartitionKey list \<Rightarrow> OffsetTracker \<Rightarrow> CommitterState \<Rightarrow> nat
   \<Rightarrow> CommitterState \<times> consumer_call list" where
  "process_ready_partitions broker cfg ks t st now =
     (if \<not> CommitterState_should_commit cfg st now then (st, [])
      else (reset st now,
            concat (map (\<lambda>(topic, part, offset). commit_partition broker topic part offset)
                     (ready_partitions t (all_partitions ks t)))))"

text \<open>
  The loop of \<open>run\<close>: the branch that wins one round of \<open>select!\<close>, in the order of its
  \<open>biased\<close> polling. A coordinator that is done wins over a signal, a signal over the tick.
\<close>

datatype commit_input = Signal string i32 | Tick

definition committer_round ::
  "broker \<Rightarrow> CommitConfig \<Rightarrow> ShutdownCoordinator \<Rightarrow> TopicPartitionKey list \<Rightarrow> OffsetTracker
   \<Rightarrow> CommitterState \<Rightarrow> nat \<Rightarrow> commit_input \<Rightarrow> bool \<times> CommitterState \<times> consumer_call list" where
  \<comment> \<open>the first component: the loop goes on\<close>
  "committer_round broker cfg coord ks t st now inp =
     (if is_done coord then (False, process_ready_partitions broker cfg ks t st now)
      else (True, case inp of
              Signal topic part \<Rightarrow> process_partition broker cfg t st now topic part
            | Tick \<Rightarrow> process_ready_partitions broker cfg ks t st now))"

section \<open>The tracker and the committer together\<close>

record commit_system =
  sys_tracker :: OffsetTracker
  sys_committer :: CommitterState
  sys_calls :: "consumer_call list"

datatype commit_event =
    Worker tracker_event
  | Round broker ShutdownCoordinator "TopicPartitionKey list" nat commit_input

fun system_step :: "CommitConfig \<Rightarrow> commit_system \<Rightarrow> commit_event \<Rightarrow> commit_system res" where
  "system_step cfg s (Worker e) = res_bind (tracker_step (sys_tracker s) e) (\<lambda>t. Inr (s\<lparr>sys_tracker := t\<rparr>))"
| "system_step cfg s (Round broker coord ks now inp) =
     (let (_, st, calls) = committer_round broker cfg coord ks (sys_tracker s) (sys_committer s) now inp
      in Inr (s\<lparr>sys_committer := st, sys_calls := sys_calls s @ calls\<rparr>))"

definition system_new :: commit_system where
  "system_new = \<lparr>sys_tracker = OffsetTracker_new, sys_committer = CommitterState_new, sys_calls = []\<rparr>"

fun worker_events :: "commit_event list \<Rightarrow> tracker_event list" where
  "worker_events [] = []"
| "worker_events (Worker e # es) = e # worker_events es"
| "worker_events (Round b c ks now inp # es) = worker_events es"

section \<open>Lemmas\<close>

lemma ready_partitions_mem:
  "(topic, part, offset) \<in> set (ready_partitions t ks) \<longleftrightarrow>
     (topic, part) \<in> set ks \<and> OffsetTracker_should_commit t topic part
     \<and> highest_contiguous t topic part = Some offset"
  by (induction t ks rule: ready_partitions.induct) (auto split: option.splits)

lemma commit_partition_stores:
  "StoreOffset topic part offset \<in> set (commit_partition broker topic' part' offset') \<longleftrightarrow>
     topic = topic' \<and> part = part' \<and> offset = offset'"
  by (auto simp: commit_partition_def)

lemma snd_eqI: "p = (a, b) \<Longrightarrow> b = snd p"
  by simp

lemma round_stores_watermark:
  assumes "committer_round broker cfg coord ks t st now inp = (go, st', calls)"
    "StoreOffset topic part offset \<in> set calls"
  shows "highest_contiguous t topic part = Some offset \<and> OffsetTracker_should_commit t topic part"
proof -
  have all: "highest_contiguous t topic part = Some offset \<and> OffsetTracker_should_commit t topic part"
    if "StoreOffset topic part offset \<in> set (snd (process_ready_partitions broker cfg ks t st now))"
    using that
    by (auto simp: process_ready_partitions_def commit_partition_stores ready_partitions_mem split: if_splits)
  have one: "highest_contiguous t topic part = Some offset \<and> OffsetTracker_should_commit t topic part"
    if "StoreOffset topic part offset \<in> set (snd (process_partition broker cfg t st now topic' part'))"
    for topic' part'
    using that
    by (cases "CommitterState_should_commit cfg st now"; cases "OffsetTracker_should_commit t topic' part'";
        cases "highest_contiguous t topic' part'") (simp_all add: process_partition_def commit_partition_stores)
  have "calls = snd (process_ready_partitions broker cfg ks t st now)
      \<or> (\<exists>topic' part'. calls = snd (process_partition broker cfg t st now topic' part'))"
    using assms(1) by (cases inp) (auto simp: committer_round_def split: if_splits dest!: snd_eqI)
  then show ?thesis using assms(2) all one by blast
qed

lemma round_message_count:
  "message_count st = 0 \<Longrightarrow> committer_round broker cfg coord ks t st now inp = (go, st', calls)
     \<Longrightarrow> message_count st' = 0"
  by (auto simp: committer_round_def process_ready_partitions_def process_partition_def reset_def
      split: if_splits commit_input.splits)

interpretation committer: res_invariant "system_step cfg" "\<lambda>s. message_count (sys_committer s) = 0" for cfg
proof (unfold_locales, goal_cases)
  case (1 s e s')
  then show ?case
    by (cases e) (auto split: prod.splits intro: round_message_count)
qed

lemma system_tracker_run:
  "res_foldl (system_step cfg) s es = Inr s' \<Longrightarrow>
     res_foldl tracker_step (sys_tracker s) (worker_events es) = Inr (sys_tracker s')"
proof (induction es arbitrary: s rule: worker_events.induct)
  case (3 b c ks now inp es)
  then obtain go st calls where
    "res_foldl (system_step cfg) (s\<lparr>sys_committer := st, sys_calls := sys_calls s @ calls\<rparr>) es = Inr s'"
    by (auto split: prod.splits)
  from "3.IH" [OF this] show ?case by simp
next
  case (2 e es)
  then obtain t where "tracker_step (sys_tracker s) e = Inr t"
    "res_foldl (system_step cfg) (s\<lparr>sys_tracker := t\<rparr>) es = Inr s'" by auto
  with "2.IH" [OF this(2)] show ?case by simp
qed simp

lemma system_stores:
  "res_foldl (system_step cfg) s es = Inr s' \<Longrightarrow>
     StoreOffset topic part offset \<in> set (sys_calls s') \<Longrightarrow>
     StoreOffset topic part offset \<in> set (sys_calls s) \<or>
     (\<exists>es1 es2 s1. es = es1 @ es2 \<and> res_foldl (system_step cfg) s es1 = Inr s1
        \<and> StoreOffset topic part offset \<notin> set (sys_calls s1)
        \<and> highest_contiguous (sys_tracker s1) topic part = Some offset
        \<and> OffsetTracker_should_commit (sys_tracker s1) topic part)"
proof (induction es arbitrary: s)
  case (Cons e es)
  then obtain s1 where s1: "system_step cfg s e = Inr s1" "res_foldl (system_step cfg) s1 es = Inr s'" by auto
  let ?goal = "\<lambda>s es. \<exists>es1 es2 s1. es = es1 @ es2 \<and> res_foldl (system_step cfg) s es1 = Inr s1
        \<and> StoreOffset topic part offset \<notin> set (sys_calls s1)
        \<and> highest_contiguous (sys_tracker s1) topic part = Some offset
        \<and> OffsetTracker_should_commit (sys_tracker s1) topic part"
  have here: "?goal s (e # es)" if "StoreOffset topic part offset \<in> set (sys_calls s1)"
    "StoreOffset topic part offset \<notin> set (sys_calls s)"
  proof (cases e)
    case (Worker w)
    with s1 that show ?thesis by auto
  next
    case (Round broker coord ks now inp)
    with s1(1) that have "highest_contiguous (sys_tracker s) topic part = Some offset
        \<and> OffsetTracker_should_commit (sys_tracker s) topic part"
      by (auto split: prod.splits dest: round_stores_watermark)
    with that(2) show ?thesis by (intro exI [of _ "[]"] exI [of _ "e # es"] exI [of _ s]) simp
  qed
  have later: "?goal s (e # es)" if "?goal s1 es"
  proof -
    from that obtain es1 es2 s2 where "es = es1 @ es2" "res_foldl (system_step cfg) s1 es1 = Inr s2"
      "StoreOffset topic part offset \<notin> set (sys_calls s2)"
      "highest_contiguous (sys_tracker s2) topic part = Some offset"
      "OffsetTracker_should_commit (sys_tracker s2) topic part" by blast
    with s1(1) show ?thesis by (intro exI [of _ "e # es1"] exI [of _ es2] exI [of _ s2]) simp
  qed
  from Cons.IH [OF s1(2) Cons.prems(2)] here later show ?case by blast
qed simp

lemma worker_events_append: "worker_events (a @ b) = worker_events a @ worker_events b"
  by (induction a rule: worker_events.induct) auto

section \<open>Properties of the committer\<close>

text \<open>
  At-least-once. In any interleaving of workers and commit rounds, an offset handed
  to the broker for a partition was that partition's watermark at that moment, with commits not
  blocked by a terminal failure: every message from the partition's first acknowledged one up to
  it had been acknowledged before the offset was first stored.
\<close>

lemma committed_offsets_were_acked:
  assumes "res_foldl (system_step cfg) system_new es = Inr s"
    "StoreOffset topic part offset \<in> set (sys_calls s)"
  shows "\<exists>es1 es2 s1 b. es = es1 @ es2 \<and> res_foldl (system_step cfg) system_new es1 = Inr s1
     \<and> StoreOffset topic part offset \<notin> set (sys_calls s1)
     \<and> OffsetTracker_should_commit (sys_tracker s1) topic part
     \<and> first_ack (events_of (topic, part) (worker_events es1)) = Some b \<and> b \<le> offset
     \<and> list_all (\<lambda>x. TAck topic part x \<in> set (worker_events es1)) [b..offset]"
proof -
  obtain es1 es2 s1 where es: "es = es1 @ es2" "res_foldl (system_step cfg) system_new es1 = Inr s1"
    "highest_contiguous (sys_tracker s1) topic part = Some offset"
    "StoreOffset topic part offset \<notin> set (sys_calls s1)" "OffsetTracker_should_commit (sys_tracker s1) topic part"
    using system_stores [OF assms] by (auto simp: system_new_def)
  then have "tracker_run (worker_events es1) = Inr (sys_tracker s1)"
    using system_tracker_run by (fastforce simp: tracker_run_def system_new_def)
  from tracker_watermarkE [OF this es(3)] obtain b
    where "first_ack (events_of (topic, part) (worker_events es1)) = Some b" "b \<le> offset"
      "{b..offset} \<subseteq> acked_offsets (events_of (topic, part) (worker_events es1))" by blast
  with es show ?thesis
    by (intro exI [of _ es1] exI [of _ es2] exI [of _ s1] exI [of _ b])
      (auto simp: list_all_iff acked_offsets_def events_of_TAck subset_iff)
qed

definition sample_system_events :: "commit_event list" where
  "sample_system_events =
     [Worker (TAck ''t'' 0 10), Worker (TAck ''t'' 0 12), Worker (TAck ''t'' 0 11),
      Round (\<lambda>c. True) (ShutdownCoordinator_new 30) [(''t'', 0)] 50 (Signal ''t'' 0)]"

lemmas commit_eval = committer_round_def process_partition_def process_ready_partitions_def
  CommitterState_should_commit_def CommitterState_new_def system_new_def commit_partition_def
  is_done_def ShutdownCoordinator_new_def CommitConfig_default_def reset_def

text \<open>
  The throttle. However many messages are acknowledged, the message counter of
  the committer stays zero, so with a positive batch limit only the interval lets a commit cycle
  through: the batch condition never fires.
\<close>

lemma batch_throttle_never_fires:
  assumes "res_foldl (system_step cfg) system_new es = Inr s" "0 < commit_max_messages cfg"
  shows "CommitterState_should_commit cfg (sys_committer s) now \<longleftrightarrow>
     (case last_commit (sys_committer s) of Some t \<Rightarrow> commit_interval_ms cfg \<le> now - t | None \<Rightarrow> True)"
proof -
  have "message_count (sys_committer s) = 0"
    using committer.res_run_inv [OF _ assms(1)] by (simp add: system_new_def CommitterState_new_def)
  then show ?thesis using assms(2) by (simp add: CommitterState_should_commit_def split: option.splits)
qed

text \<open>
  The final commit is throttled like any other: when the coordinator is done less
  than one interval after the last cycle, the committer leaves its loop and commits nothing,
  whatever watermarks are ready.
\<close>

lemma final_commit_can_be_skipped:
  assumes "is_done coord" "last_commit st = Some t" "t \<le> now" "now < t + commit_interval_ms cfg"
    "message_count st < commit_max_messages cfg"
  shows "committer_round broker cfg coord ks tracker_state st now inp = (False, st, [])"
  using assms by (simp add: committer_round_def process_ready_partitions_def CommitterState_should_commit_def)

end
