(* ===== verification/Batch.thy ===== *)
theory Batch
  imports Messages
begin

text \<open>
  Batch accumulation: the buffer of one partition (\<^verbatim>\<open>src/worker_pool/accumulator.rs\<close>), the
  accumulator of a handler (\<^verbatim>\<open>src/execution/batch.rs\<close>), and the decisions of the batch worker
  loop about what to flush when (\<^verbatim>\<open>src/worker_pool/batch_loop.rs\<close>,
  \<^verbatim>\<open>src/worker_pool/state.rs\<close>). Instants are numbers of a monotonic clock. Operations that
  iterate over the accumulator's map take the iteration order.
\<close>

section \<open>The buffer of one partition\<close>

record PerPartitionBuffer =
  buf_messages :: "OwnedMessage list"
  deadline :: "nat option"

definition PerPartitionBuffer_new :: PerPartitionBuffer where
  "PerPartitionBuffer_new = \<lparr>buf_messages = [], deadline = None\<rparr>"

definition PerPartitionBuffer_is_empty :: "PerPartitionBuffer \<Rightarrow> bool" where
  "PerPartitionBuffer_is_empty b \<longleftrightarrow> buf_messages b = []"

definition PerPartitionBuffer_len :: "PerPartitionBuffer \<Rightarrow> nat" where
  "PerPartitionBuffer_len b = length (buf_messages b)"

definition start_timer :: "PerPartitionBuffer \<Rightarrow> nat \<Rightarrow> nat \<Rightarrow> PerPartitionBuffer" where
  "start_timer b now max_wait = (if deadline b = None then b\<lparr>deadline := Some (now + max_wait)\<rparr> else b)"

definition is_deadline_expired :: "PerPartitionBuffer \<Rightarrow> nat \<Rightarrow> bool" where
  "is_deadline_expired b now = (case deadline b of Some d \<Rightarrow> now \<ge> d | None \<Rightarrow> False)"

definition PerPartitionBuffer_add :: "PerPartitionBuffer \<Rightarrow> OwnedMessage \<Rightarrow> nat \<Rightarrow> nat \<Rightarrow> PerPartitionBuffer" where
  "PerPartitionBuffer_add b m now max_wait =
     (let b1 = (if buf_messages b = [] then start_timer b now max_wait else b)
      in b1\<lparr>buf_messages := buf_messages b1 @ [m]\<rparr>)"

definition take_messages :: "PerPartitionBuffer \<Rightarrow> OwnedMessage list \<times> PerPartitionBuffer" where
  "take_messages b = (buf_messages b, b\<lparr>buf_messages := []\<rparr>)"

section \<open>The accumulator\<close>

record BatchAccumulator =
  partition_accumulators :: "i32 \<rightharpoonup> PerPartitionBuffer"
  max_batch_size :: nat
  max_batch_wait :: nat

definition BatchAccumulator_new :: "nat \<Rightarrow> nat \<Rightarrow> BatchAccumulator" where
  "BatchAccumulator_new bsize wait_ms =
     \<lparr>partition_accumulators = Map.empty, max_batch_size = bsize, max_batch_wait = wait_ms\<rparr>"

definition would_fill_partition :: "BatchAccumulator \<Rightarrow> i32 \<Rightarrow> bool" where
  "would_fill_partition a part =
     (case partition_accumulators a part of
        Some b \<Rightarrow> PerPartitionBuffer_len b \<ge> max_batch_size a | None \<Rightarrow> False)"

definition BatchAccumulator_add :: "BatchAccumulator \<Rightarrow> OwnedMessage \<Rightarrow> nat \<Rightarrow> BatchAccumulator" where
  "BatchAccumulator_add a m now =
     (let b = (case partition_accumulators a (msg_partition m) of Some b \<Rightarrow> b | None \<Rightarrow> PerPartitionBuffer_new)
      in a\<lparr>partition_accumulators := (partition_accumulators a)
             (msg_partition m \<mapsto> PerPartitionBuffer_add b m now (max_batch_wait a))\<rparr>)"

fun deadlines :: "BatchAccumulator \<Rightarrow> i32 list \<Rightarrow> nat list" where
  "deadlines a [] = []"
| "deadlines a (part # ks) =
     (case partition_accumulators a part of
        Some b \<Rightarrow> (case deadline b of Some d \<Rightarrow> [d] | None \<Rightarrow> []) | None \<Rightarrow> []) @ deadlines a ks"

definition next_deadline :: "i32 list \<Rightarrow> BatchAccumulator \<Rightarrow> nat option" where
  "next_deadline ks a = (case deadlines a ks of [] \<Rightarrow> None | d # ds \<Rightarrow> Some (foldl min d ds))"

definition is_any_deadline_expired :: "i32 list \<Rightarrow> BatchAccumulator \<Rightarrow> nat \<Rightarrow> bool" where
  "is_any_deadline_expired ks a now =
     list_ex (\<lambda>part. case partition_accumulators a part of
        Some b \<Rightarrow> \<not> PerPartitionBuffer_is_empty b \<and> is_deadline_expired b now | None \<Rightarrow> False) ks"

definition buffer_at :: "BatchAccumulator \<Rightarrow> i32 \<Rightarrow> OwnedMessage list" where
  "buffer_at a part = (case partition_accumulators a part of Some b \<Rightarrow> buf_messages b | None \<Rightarrow> [])"

definition BatchAccumulator_is_empty :: "i32 list \<Rightarrow> BatchAccumulator \<Rightarrow> bool" where
  "BatchAccumulator_is_empty ks a = list_all (\<lambda>part. buffer_at a part = []) ks"

definition total_len :: "i32 list \<Rightarrow> BatchAccumulator \<Rightarrow> nat" where
  "total_len ks a = sum_list (map (\<lambda>part. length (buffer_at a part)) ks)"

type_synonym batch = "i32 \<times> OwnedMessage list"

definition flush_buffer :: "BatchAccumulator \<Rightarrow> i32 \<Rightarrow> (OwnedMessage list) option \<times> BatchAccumulator" where
  \<comment> \<open>\<open>flush_partition\<close>\<close>
  "flush_buffer a part =
     (case partition_accumulators a part of
        None \<Rightarrow> (None, a)
      | Some b \<Rightarrow>
          if PerPartitionBuffer_is_empty b then (None, a)
          else let (ms, b') = take_messages b
               in (Some ms, a\<lparr>partition_accumulators := (partition_accumulators a)(part \<mapsto> b')\<rparr>))"

fun flush_all :: "i32 list \<Rightarrow> BatchAccumulator \<Rightarrow> batch list \<times> BatchAccumulator" where
  "flush_all [] a = ([], a)"
| "flush_all (part # ks) a =
     (case flush_buffer a part of
        (None, a1) \<Rightarrow> flush_all ks a1
      | (Some ms, a1) \<Rightarrow> (let (bs, a2) = flush_all ks a1 in ((part, ms) # bs, a2)))"

section \<open>The decisions of the batch worker loop\<close>

datatype BatchState = Normal | BackpressureState

fun is_backpressure :: "BatchState \<Rightarrow> bool" where
  "is_backpressure Normal = False"
| "is_backpressure BackpressureState = True"

record batch_loop =
  bl_acc :: BatchAccumulator
  bl_state :: BatchState
  bl_running :: bool

definition batch_loop_new :: "nat \<Rightarrow> nat \<Rightarrow> batch_loop" where
  "batch_loop_new bsize wait_ms =
     \<lparr>bl_acc = BatchAccumulator_new bsize wait_ms, bl_state = Normal, bl_running = True\<rparr>"

text \<open>
  The branches of the \<open>select!\<close>: the deadline, a message (with the clock at its arrival and
  whether its topic has at least as many messages in flight as its capacity), the closed channel,
  the shutdown signal. Each carries the iteration order of the map at that moment.
\<close>

datatype batch_input =
    BDeadline "i32 list"
  | BMessage "i32 list" nat bool OwnedMessage
  | BClosed "i32 list"
  | BShutdown "i32 list"

definition flush_full :: "BatchAccumulator \<Rightarrow> i32 \<Rightarrow> batch list \<times> BatchAccumulator" where
  \<comment> \<open>flush one partition if it is full\<close>
  "flush_full a part =
     (if would_fill_partition a part
      then (case flush_buffer a part of (Some ms, a1) \<Rightarrow> ([(part, ms)], a1) | (None, a1) \<Rightarrow> ([], a1))
      else ([], a))"

definition on_message :: "i32 list \<Rightarrow> nat \<Rightarrow> bool \<Rightarrow> batch_loop \<Rightarrow> OwnedMessage \<Rightarrow> batch_loop \<times> batch list" where
  "on_message ks now at_capacity l m =
     (let (st, bs0, a0) = (if \<not> is_backpressure (bl_state l) \<and> at_capacity
                           then (BackpressureState, flush_all ks (bl_acc l))
                           else (bl_state l, [], bl_acc l));
          (bs1, a1) = flush_full a0 (msg_partition m);
          a2 = BatchAccumulator_add a1 m now;
          (bs3, a3) = flush_full a2 (msg_partition m)
      in (l\<lparr>bl_acc := a3, bl_state := st\<rparr>, bs0 @ bs1 @ bs3))"

fun batch_step :: "batch_loop \<Rightarrow> batch_input \<Rightarrow> batch_loop \<times> batch list" where
  "batch_step l (BDeadline ks) =
     (if BatchAccumulator_is_empty ks (bl_acc l) then (l, [])
      else let (bs, a) = flush_all ks (bl_acc l) in (l\<lparr>bl_acc := a\<rparr>, bs))"
| "batch_step l (BMessage ks now at_capacity m) = on_message ks now at_capacity l m"
| "batch_step l (BClosed ks) =
     (let (bs, a) = flush_all ks (bl_acc l) in (l\<lparr>bl_acc := a, bl_running := False\<rparr>, bs))"
| "batch_step l (BShutdown ks) =
     (let (bs, a) = flush_all ks (bl_acc l) in (l\<lparr>bl_acc := a, bl_running := False\<rparr>, bs))"

fun batch_run :: "batch_loop \<Rightarrow> batch_input list \<Rightarrow> batch_loop \<times> batch list" where
  \<comment> \<open>a loop that has stopped takes no further input\<close>
  "batch_run l [] = (l, [])"
| "batch_run l (i # is) =
     (if \<not> bl_running l then (l, [])
      else let (l1, bs) = batch_step l i; (l2, bs') = batch_run l1 is in (l2, bs @ bs'))"

section \<open>Lemmas\<close>

definition flushed :: "i32 \<Rightarrow> batch list \<Rightarrow> OwnedMessage list" where
  "flushed part bs = concat (map snd (filter (\<lambda>b. fst b = part) bs))"

lemma flushed_simps [simp]:
  "flushed part [] = []"
  "flushed part (b # bs) = (if fst b = part then snd b else []) @ flushed part bs"
  "flushed part (bs @ cs) = flushed part bs @ flushed part cs"
  by (simp_all add: flushed_def)

definition batch_ok :: "nat \<Rightarrow> batch \<Rightarrow> bool" where
  "batch_ok bsize b \<longleftrightarrow> snd b \<noteq> [] \<and> length (snd b) \<le> max 1 bsize
     \<and> list_all (\<lambda>m. msg_partition m = fst b) (snd b)"

definition acc_ok :: "BatchAccumulator \<Rightarrow> bool" where
  \<comment> \<open>every buffer holds messages of its partition, at most a full batch of them\<close>
  "acc_ok a \<longleftrightarrow> (\<forall>part. length (buffer_at a part) \<le> max 1 (max_batch_size a)
     \<and> list_all (\<lambda>m. msg_partition m = part) (buffer_at a part))"

lemma flush_buffer_spec:
  assumes "flush_buffer a part = (r, a')"
  shows "buffer_at a' p = (if p = part then [] else buffer_at a p)"
    and "(case r of Some ms \<Rightarrow> ms | None \<Rightarrow> []) = buffer_at a part"
    and "r = Some [] \<Longrightarrow> False"
    and "max_batch_size a' = max_batch_size a" "max_batch_wait a' = max_batch_wait a"
  using assms
  by (auto simp: flush_buffer_def buffer_at_def take_messages_def PerPartitionBuffer_is_empty_def
      split: option.splits if_splits)

lemma flush_all_spec:
  assumes "flush_all ks a = (bs, a')" "distinct ks"
  shows "flushed part bs @ buffer_at a' part = buffer_at a part"
    and "part \<in> set ks \<Longrightarrow> buffer_at a' part = []"
    and "max_batch_size a' = max_batch_size a"
    and "acc_ok a \<Longrightarrow> list_all (batch_ok (max_batch_size a)) bs \<and> acc_ok a'"
proof -
  have "flushed part bs @ buffer_at a' part = buffer_at a part
      \<and> buffer_at a' part = (if part \<in> set ks then [] else buffer_at a part)
      \<and> max_batch_size a' = max_batch_size a
      \<and> (acc_ok a \<longrightarrow> list_all (batch_ok (max_batch_size a)) bs \<and> acc_ok a')"
    using assms
  proof (induction ks arbitrary: a bs a')
    case (Cons k ks)
    obtain r a1 where fb: "flush_buffer a k = (r, a1)" by (metis surj_pair)
    note sp = flush_buffer_spec [OF fb]
    have ok1: "acc_ok a \<Longrightarrow> acc_ok a1" using sp by (simp add: acc_ok_def)
    show ?case
    proof (cases r)
      case None
      with Cons fb have fa: "flush_all ks a1 = (bs, a')" by simp
      with Cons.IH [OF fa] Cons.prems(2) sp None ok1 show ?thesis by auto
    next
      case (Some ms)
      then obtain bs' where fa: "flush_all ks a1 = (bs', a')" and bs: "bs = (k, ms) # bs'"
        using Cons.prems(1) fb by (auto split: prod.splits)
      have "acc_ok a \<Longrightarrow> batch_ok (max_batch_size a) (k, ms)"
        using sp Some by (auto simp: acc_ok_def batch_ok_def)
      with Cons.IH [OF fa] Cons.prems(2) sp Some ok1 bs show ?thesis by auto
    qed
  qed simp
  then show "flushed part bs @ buffer_at a' part = buffer_at a part"
    and "part \<in> set ks \<Longrightarrow> buffer_at a' part = []"
    and "max_batch_size a' = max_batch_size a"
    and "acc_ok a \<Longrightarrow> list_all (batch_ok (max_batch_size a)) bs \<and> acc_ok a'"
    by auto
qed

lemma flush_full_spec:
  assumes "flush_full a part = (bs, a')"
  shows "flushed p bs @ buffer_at a' p = buffer_at a p"
    and "max_batch_size a' = max_batch_size a"
    and "length (buffer_at a' part) < max 1 (max_batch_size a)"
    and "acc_ok a \<Longrightarrow> list_all (batch_ok (max_batch_size a)) bs \<and> acc_ok a'"
proof -
  obtain r a1 where fb: "flush_buffer a part = (r, a1)" by (metis surj_pair)
  note sp = flush_buffer_spec [OF fb]
  have buf: "would_fill_partition a part \<Longrightarrow> bs = (case r of Some ms \<Rightarrow> [(part, ms)] | None \<Rightarrow> []) \<and> a' = a1"
    "\<not> would_fill_partition a part \<Longrightarrow> bs = [] \<and> a' = a"
    using assms fb by (auto simp: flush_full_def split: option.splits)
  have ok1: "acc_ok a \<Longrightarrow> acc_ok a1" using sp by (simp add: acc_ok_def)
  have okb: "acc_ok a \<Longrightarrow> r = Some ms \<Longrightarrow> batch_ok (max_batch_size a) (part, ms)" for ms
    using sp by (auto simp: acc_ok_def batch_ok_def)
  show "flushed p bs @ buffer_at a' p = buffer_at a p"
    using buf sp by (cases "would_fill_partition a part"; cases r) auto
  show "max_batch_size a' = max_batch_size a"
    using buf sp by (cases "would_fill_partition a part") auto
  show "length (buffer_at a' part) < max 1 (max_batch_size a)"
  proof (cases "would_fill_partition a part")
    case True
    then show ?thesis using buf sp by simp
  next
    case False
    then show ?thesis using buf
      by (auto simp: would_fill_partition_def buffer_at_def PerPartitionBuffer_len_def split: option.splits)
  qed
  show "acc_ok a \<Longrightarrow> list_all (batch_ok (max_batch_size a)) bs \<and> acc_ok a'"
    using buf ok1 okb by (cases "would_fill_partition a part"; cases r) auto
qed

lemma add_spec:
  "buffer_at (BatchAccumulator_add a m now) p =
     (if p = msg_partition m then buffer_at a p @ [m] else buffer_at a p)"
  "max_batch_size (BatchAccumulator_add a m now) = max_batch_size a"
  by (auto simp: BatchAccumulator_add_def buffer_at_def PerPartitionBuffer_add_def start_timer_def
      PerPartitionBuffer_new_def Let_def split: option.splits)

lemma add_acc_ok:
  "acc_ok a \<Longrightarrow> length (buffer_at a (msg_partition m)) < max 1 (max_batch_size a)
     \<Longrightarrow> acc_ok (BatchAccumulator_add a m now)"
  by (auto simp: acc_ok_def add_spec Suc_le_eq)

fun message_of :: "i32 \<Rightarrow> batch_input \<Rightarrow> OwnedMessage list" where
  "message_of part (BMessage ks now cap m) = (if msg_partition m = part then [m] else [])"
| "message_of part _ = []"

fun input_order :: "batch_input \<Rightarrow> i32 list" where
  "input_order (BDeadline ks) = ks"
| "input_order (BMessage ks now cap m) = ks"
| "input_order (BClosed ks) = ks"
| "input_order (BShutdown ks) = ks"

fun is_stop :: "batch_input \<Rightarrow> bool" where
  "is_stop (BClosed ks) = True"
| "is_stop (BShutdown ks) = True"
| "is_stop _ = False"

definition orders_ok :: "batch_loop \<Rightarrow> batch_input \<Rightarrow> bool" where
  "orders_ok l i \<longleftrightarrow> iterates (input_order i) (partition_accumulators (bl_acc l))"

lemma on_message_spec:
  assumes "on_message ks now cap l m = (l', bs)" "distinct ks" "acc_ok (bl_acc l)"
  shows "flushed part bs @ buffer_at (bl_acc l') part
           = buffer_at (bl_acc l) part @ (if msg_partition m = part then [m] else [])"
    and "acc_ok (bl_acc l') \<and> list_all (batch_ok (max_batch_size (bl_acc l))) bs
       \<and> max_batch_size (bl_acc l') = max_batch_size (bl_acc l) \<and> bl_running l' = bl_running l"
proof -
  obtain st bs0 a0 where first: "(st, bs0, a0) = (if \<not> is_backpressure (bl_state l) \<and> cap
      then (BackpressureState, flush_all ks (bl_acc l)) else (bl_state l, [], bl_acc l))"
    by (metis surj_pair)
  obtain bs1 a1 where f1: "flush_full a0 (msg_partition m) = (bs1, a1)" by (metis surj_pair)
  define a2 where "a2 = BatchAccumulator_add a1 m now"
  obtain bs3 a3 where f3: "flush_full a2 (msg_partition m) = (bs3, a3)" by (metis surj_pair)
  have out: "l' = l\<lparr>bl_acc := a3, bl_state := st\<rparr>" "bs = bs0 @ bs1 @ bs3"
    using assms(1) first [symmetric] f1 f3 unfolding on_message_def a2_def Let_def
    by (auto simp del: flush_all.simps split: prod.splits)
  have s0: "flushed p bs0 @ buffer_at a0 p = buffer_at (bl_acc l) p" "max_batch_size a0 = max_batch_size (bl_acc l)"
    "acc_ok a0" "list_all (batch_ok (max_batch_size (bl_acc l))) bs0" for p
    using first flush_all_spec [of ks "bl_acc l" bs0 a0] assms(2,3) by (auto split: if_splits)
  note s1 = flush_full_spec [OF f1] and s3 = flush_full_spec [OF f3]
  have ok1: "acc_ok a1" "list_all (batch_ok (max_batch_size (bl_acc l))) bs1" using s1(4) s0 by auto
  have ok2: "acc_ok a2" unfolding a2_def using add_acc_ok ok1(1) s1(2,3) by simp
  have m2: "max_batch_size a2 = max_batch_size (bl_acc l)" using s1(2) s0(2) by (simp add: a2_def add_spec)
  have "flushed part bs @ buffer_at (bl_acc l') part = flushed part bs0 @ flushed part bs1 @ buffer_at a2 part"
    using out s3(1) [of part] by simp
  also have "\<dots> = flushed part bs0 @ (flushed part bs1 @ buffer_at a1 part)
      @ (if msg_partition m = part then [m] else [])"
    by (simp add: a2_def add_spec)
  also have "\<dots> = buffer_at (bl_acc l) part @ (if msg_partition m = part then [m] else [])"
    using s1(1) [of part] s0(1) [of part] by (metis append.assoc)
  finally show "flushed part bs @ buffer_at (bl_acc l') part
      = buffer_at (bl_acc l) part @ (if msg_partition m = part then [m] else [])" .
  show "acc_ok (bl_acc l') \<and> list_all (batch_ok (max_batch_size (bl_acc l))) bs
       \<and> max_batch_size (bl_acc l') = max_batch_size (bl_acc l) \<and> bl_running l' = bl_running l"
    using out s3 ok1 ok2 s0 m2 by simp
qed

lemma batch_step_spec:
  assumes "batch_step l i = (l', bs)" "orders_ok l i" "acc_ok (bl_acc l)"
  shows "flushed part bs @ buffer_at (bl_acc l') part = buffer_at (bl_acc l) part @ message_of part i"
    and "acc_ok (bl_acc l')" and "list_all (batch_ok (max_batch_size (bl_acc l))) bs"
    and "max_batch_size (bl_acc l') = max_batch_size (bl_acc l)"
    and "bl_running l' \<longleftrightarrow> bl_running l \<and> \<not> is_stop i"
    and "is_stop i \<Longrightarrow> buffer_at (bl_acc l') part = []"
proof -
  have ks: "distinct (input_order i)" using assms(2) by (simp add: orders_ok_def iterates_def)
  have empty: "part \<notin> set (input_order i) \<Longrightarrow> buffer_at (bl_acc l) part = []"
    using assms(2) by (auto simp: orders_ok_def iterates_def buffer_at_def split: option.splits)
  have fl: "flushed part bs' @ buffer_at a' part = buffer_at (bl_acc l) part
    \<and> buffer_at a' part = [] \<and> max_batch_size a' = max_batch_size (bl_acc l) \<and> acc_ok a'
    \<and> list_all (batch_ok (max_batch_size (bl_acc l))) bs'"
    if f: "flush_all (input_order i) (bl_acc l) = (bs', a')" for bs' a'
  proof -
    note sp = flush_all_spec [OF f ks]
    have "buffer_at a' part = []"
      using sp(1) [of part] sp(2) [of part] empty by (cases "part \<in> set (input_order i)") auto
    with sp(1) [of part] sp(3) sp(4) [OF assms(3)] show ?thesis by blast
  qed
  have "flushed part bs @ buffer_at (bl_acc l') part = buffer_at (bl_acc l) part @ message_of part i
    \<and> acc_ok (bl_acc l') \<and> list_all (batch_ok (max_batch_size (bl_acc l))) bs
    \<and> max_batch_size (bl_acc l') = max_batch_size (bl_acc l)
    \<and> (bl_running l' \<longleftrightarrow> bl_running l \<and> \<not> is_stop i)
    \<and> (is_stop i \<longrightarrow> buffer_at (bl_acc l') part = [])"
  proof (cases i)
    case (BMessage ks' now cap m)
    with assms(1) ks have "on_message ks' now cap l m = (l', bs)" "distinct ks'" by simp_all
    from on_message_spec [OF this assms(3)] BMessage show ?thesis by simp
  next
    case (BDeadline ks')
    then show ?thesis using assms(1,3) fl by (auto split: if_splits prod.splits)
  next
    case (BClosed ks')
    then show ?thesis using assms(1,3) fl by (auto split: prod.splits)
  next
    case (BShutdown ks')
    then show ?thesis using assms(1,3) fl by (auto split: prod.splits)
  qed
  then show "flushed part bs @ buffer_at (bl_acc l') part = buffer_at (bl_acc l) part @ message_of part i"
    and "acc_ok (bl_acc l')" and "list_all (batch_ok (max_batch_size (bl_acc l))) bs"
    and "max_batch_size (bl_acc l') = max_batch_size (bl_acc l)"
    and "bl_running l' \<longleftrightarrow> bl_running l \<and> \<not> is_stop i"
    and "is_stop i \<Longrightarrow> buffer_at (bl_acc l') part = []"
    by blast+
qed

section \<open>Runs of the loop\<close>

fun arrived :: "i32 \<Rightarrow> batch_input list \<Rightarrow> OwnedMessage list" where
  \<comment> \<open>the messages of a partition that the loop takes before it stops\<close>
  "arrived part [] = []"
| "arrived part (i # is) = message_of part i @ (if is_stop i then [] else arrived part is)"

fun run_ok :: "batch_loop \<Rightarrow> batch_input list \<Rightarrow> bool" where
  \<comment> \<open>every input carries an iteration order of the map it meets\<close>
  "run_ok l [] = True"
| "run_ok l (i # is) = (orders_ok l i \<and> run_ok (fst (batch_step l i)) is)"

lemma batch_run_spec:
  assumes "bl_running l" "run_ok l is" "acc_ok (bl_acc l)" "batch_run l is = (l', bs)"
  shows "flushed part bs @ buffer_at (bl_acc l') part = buffer_at (bl_acc l) part @ arrived part is
    \<and> list_all (batch_ok (max_batch_size (bl_acc l))) bs
    \<and> (\<not> bl_running l' \<longrightarrow> buffer_at (bl_acc l') part = [])"
  using assms
proof (induction "is" arbitrary: l bs)
  case (Cons i "is")
  obtain l1 bs1 where step: "batch_step l i = (l1, bs1)" by (metis surj_pair)
  have "orders_ok l i" using Cons.prems(2) by simp
  note sp = batch_step_spec [OF step this Cons.prems(3)]
  obtain bs2 where rest: "batch_run l1 is = (l', bs2)" and bs: "bs = bs1 @ bs2"
    using Cons.prems(1,4) step by (auto split: prod.splits)
  show ?case
  proof (cases "is_stop i")
    case True
    then have "\<not> bl_running l1" using sp(5) by simp
    then have "l' = l1" "bs2 = []" using rest by (cases "is"; simp)+
    with True bs sp show ?thesis by (metis append.right_neutral append_Nil2 arrived.simps(2))
  next
    case False
    then have run: "bl_running l1" "run_ok l1 is" using sp(5) Cons.prems step by simp_all
    have IH: "flushed part bs2 @ buffer_at (bl_acc l') part = buffer_at (bl_acc l1) part @ arrived part is"
      "list_all (batch_ok (max_batch_size (bl_acc l1))) bs2"
      "\<not> bl_running l' \<longrightarrow> buffer_at (bl_acc l') part = []"
      using Cons.IH [OF run sp(2) rest] by blast+
    have "flushed part bs @ buffer_at (bl_acc l') part = (flushed part bs1 @ buffer_at (bl_acc l1) part) @ arrived part is"
      using bs IH(1) by simp
    also have "\<dots> = buffer_at (bl_acc l) part @ arrived part (i # is)" using sp(1) False by simp
    finally show ?thesis using IH sp(3,4) bs by simp
  qed
qed simp

lemma batch_loop_new_ok [simp]:
  "bl_running (batch_loop_new bsize wait_ms)" "acc_ok (bl_acc (batch_loop_new bsize wait_ms))"
  "buffer_at (bl_acc (batch_loop_new bsize wait_ms)) part = []"
  "max_batch_size (bl_acc (batch_loop_new bsize wait_ms)) = bsize"
  by (simp_all add: batch_loop_new_def BatchAccumulator_new_def acc_ok_def buffer_at_def)

section \<open>A deadline is set once\<close>

definition deadline_at :: "BatchAccumulator \<Rightarrow> i32 \<Rightarrow> nat option" where
  "deadline_at a part = (case partition_accumulators a part of Some b \<Rightarrow> deadline b | None \<Rightarrow> None)"

lemma flush_buffer_deadline: "deadline_at (snd (flush_buffer a part)) p = deadline_at a p"
  by (auto simp: flush_buffer_def deadline_at_def take_messages_def split: option.splits)

lemma flush_all_deadline: "deadline_at (snd (flush_all ks a)) p = deadline_at a p"
proof (induction ks arbitrary: a)
  case (Cons k ks)
  then show ?case
    using flush_buffer_deadline [of a k p]
    by (auto split: prod.splits option.splits) (metis snd_conv)+
qed simp

lemma flush_full_deadline: "deadline_at (snd (flush_full a part)) p = deadline_at a p"
  using flush_buffer_deadline [of a part p] by (auto simp: flush_full_def split: prod.splits option.splits)

lemma add_deadline: "deadline_at a p = Some d \<Longrightarrow> deadline_at (BatchAccumulator_add a m now) p = Some d"
  by (auto simp: BatchAccumulator_add_def deadline_at_def PerPartitionBuffer_add_def start_timer_def
      Let_def split: option.splits)

lemma batch_step_deadline:
  assumes "deadline_at (bl_acc l) p = Some d"
  shows "deadline_at (bl_acc (fst (batch_step l i))) p = Some d"
proof -
  have all: "deadline_at (snd (flush_all ks (bl_acc l))) p = Some d" for ks
    using assms flush_all_deadline by simp
  have msg: "deadline_at (bl_acc (fst (on_message ks now cap l m))) p = Some d" for ks now cap m
  proof -
    have "deadline_at (snd (flush_full (BatchAccumulator_add (snd (flush_full a0 q)) m now) q)) p = Some d"
      if "deadline_at a0 p = Some d" for a0 q
      using that by (simp add: flush_full_deadline add_deadline)
    then show ?thesis
      using assms all [of ks] by (auto simp: on_message_def Let_def split: prod.splits) (metis snd_conv)+
  qed
  show ?thesis
    using assms all msg
    by (cases i) (auto split: prod.splits, metis snd_conv, metis snd_conv, metis snd_conv)
qed

section \<open>Properties of batching\<close>

text \<open>
  C15 (functional). The batch worker neither loses, duplicates nor reorders: for every partition,
  the batches handed to the handler, concatenated, followed by what is still buffered, are the
  partition's messages in arrival order. Every batch is non-empty, holds messages of one
  partition and no more than the batch size (one, when the configured size is zero). Once the
  loop has stopped, nothing is left in a buffer.
\<close>

theorem batches_preserve_messages:
  assumes "run_ok (batch_loop_new bsize wait_ms) is" "batch_run (batch_loop_new bsize wait_ms) is = (l, bs)"
  shows "flushed part bs @ buffer_at (bl_acc l) part = arrived part is
     \<and> list_all (batch_ok bsize) bs
     \<and> (\<not> bl_running l \<longrightarrow> flushed part bs = arrived part is)"
  using batch_run_spec [OF _ assms(1) _ assms(2), of part] by auto

definition batch_message :: "i32 \<Rightarrow> i64 \<Rightarrow> OwnedMessage" where
  "batch_message part offset =
     \<lparr>msg_topic = ''t'', msg_partition = part, msg_offset = offset, msg_key = None, msg_payload = None,
      msg_timestamp = NotAvailable, msg_headers = []\<rparr>"

definition batch_sample :: "batch_input list" where
  "batch_sample = [BMessage [] 5 False (batch_message 0 1), BMessage [0] 6 False (batch_message 1 9),
     BMessage [1, 0] 7 False (batch_message 0 2), BShutdown [0, 1]]"

lemmas batch_eval = batch_loop_new_def BatchAccumulator_new_def on_message_def flush_full_def
  would_fill_partition_def flush_buffer_def BatchAccumulator_add_def PerPartitionBuffer_add_def
  PerPartitionBuffer_new_def PerPartitionBuffer_len_def PerPartitionBuffer_is_empty_def start_timer_def
  take_messages_def batch_message_def BatchAccumulator_is_empty_def buffer_at_def Let_def

lemma batch_sample_ok: "run_ok (batch_loop_new 2 100) batch_sample"
  by (auto simp: batch_sample_def orders_ok_def iterates_def batch_eval split: if_splits)

theorem batches_preserve_messages_witness:
  "\<exists>l bs. batch_run (batch_loop_new 2 100) batch_sample = (l, bs)
     \<and> flushed 0 bs @ buffer_at (bl_acc l) 0 = [batch_message 0 1, batch_message 0 2]
     \<and> list_all (batch_ok 2) bs"
proof -
  obtain l bs where run: "batch_run (batch_loop_new 2 100) batch_sample = (l, bs)" by (metis surj_pair)
  have "arrived 0 batch_sample = [batch_message 0 1, batch_message 0 2]"
    by (simp add: batch_sample_def batch_message_def)
  with batches_preserve_messages [OF batch_sample_ok run, of 0] run show ?thesis by auto
qed

text \<open>
  The window of a partition opens once: its deadline is that of its first message
  and is never set again, also not by flushing the batch. After the first window every later
  message meets an expired deadline, and an accumulator that is empty still reports one.
\<close>

lemma deadline_never_renewed:
  assumes "deadline_at (bl_acc l) part = Some d" "batch_run l is = (l', bs)"
  shows "deadline_at (bl_acc l') part = Some d"
  using assms
proof (induction "is" arbitrary: l bs)
  case (Cons i "is")
  show ?case
  proof (cases "bl_running l")
    case True
    obtain l1 bs1 where "batch_step l i = (l1, bs1)" by (metis surj_pair)
    with True Cons.prems(2) obtain bs2 where "batch_run l1 is = (l', bs2)" by (auto split: prod.splits)
    moreover have "deadline_at (bl_acc l1) part = Some d"
      using batch_step_deadline [OF Cons.prems(1), of i] \<open>batch_step l i = (l1, bs1)\<close> by simp
    ultimately show ?thesis by (intro Cons.IH)
  qed (use Cons.prems in simp)
qed simp

end
