(* ===== verification/Worker.thy ===== *)
theory Worker
  imports Dlq Dispatch Commit Batch
begin

text \<open>
  The worker pool (\<^verbatim>\<open>src/worker_pool/\<close>): what a worker does with the result of a handler
  (\<^verbatim>\<open>mod.rs\<close>, \<^verbatim>\<open>worker.rs\<close>), the life of one worker as a labelled transition relation that
  allows any interference by other tasks, the results of batches (\<^verbatim>\<open>batch_loop.rs\<close>), and the
  pool's assignment of queues and its shutdown (\<^verbatim>\<open>pool.rs\<close>). The shared services are the offset
  tracker, the retry coordinator, the handler queues and the dead-letter producer.
\<close>

section \<open>Services and actions\<close>

record services =
  svc_offsets :: OffsetTracker
  svc_retry :: RetryCoordinator
  svc_queues :: QueueManager
  svc_dlq :: SharedDlqProducer
  svc_logs :: "(log_level \<times> string) list"

datatype ExecutionAction = AckAction | RetryAction duration | DlqAction

fun failure_of :: "ExecutionResult \<Rightarrow> FailureReason res" where
  "failure_of (ExError reason _ _) = Inr reason"
| "failure_of (ExRejected reason _) = Inr reason"
| "failure_of (ExTimeout _) = Inr (Terminal HandlerPanic)"
| "failure_of ExOk = Inl (Panic ''handle_execution_failure called with Ok result'')"

fun dlq_timeout :: "ExecutionResult \<Rightarrow> nat option" where
  "dlq_timeout (ExTimeout info) = Some (timeout_ms info div 1000)"
| "dlq_timeout _ = None"

fun dlq_last_processed :: "ExecutionResult \<Rightarrow> i64 option" where
  "dlq_last_processed (ExTimeout info) = last_processed_offset info"
| "dlq_last_processed _ = None"

definition failure_metadata ::
  "env \<Rightarrow> ExecutionContext \<Rightarrow> ExecutionResult \<Rightarrow> FailureReason \<Rightarrow> RetryCoordinator \<Rightarrow> DlqMetadata" where
  "failure_metadata e ctx result reason rc =
     DlqMetadata_new (ctx_topic ctx) (ctx_partition ctx) (ctx_offset ctx) (FailureReason_str reason)
       (u32_of_nat (attempt_count rc (ctx_topic ctx) (ctx_partition ctx) (ctx_offset ctx)))
       (utc_now e 0) (utc_now e 1) (dlq_timeout result) (dlq_last_processed result) None None"

definition produce_letter ::
  "env \<Rightarrow> router \<Rightarrow> SharedDlqProducer \<Rightarrow> OwnedMessage \<Rightarrow> DlqMetadata \<Rightarrow> SharedDlqProducer" where
  "produce_letter e rt p msg m =
     (let tp = rt m
      in produce_async e p (tp_topic tp) (tp_partition tp)
           (case msg_payload msg of Some b \<Rightarrow> b | None \<Rightarrow> []) (msg_key msg) m)"

definition handle_execution_failure ::
  "env \<Rightarrow> router \<Rightarrow> ExecutionContext \<Rightarrow> OwnedMessage \<Rightarrow> ExecutionResult \<Rightarrow> services
   \<Rightarrow> (services \<times> ExecutionAction) res" where
  "handle_execution_failure e rt ctx msg result s =
     res_bind (failure_of result) (\<lambda>reason.
     res_bind (record_failure e (svc_retry s) (ctx_topic ctx) (ctx_partition ctx) (ctx_offset ctx) reason)
       (\<lambda>(rc, should_retry, should_dlq, delay).
          let s1 = s\<lparr>svc_retry := rc\<rparr>;
              acked = QueueManager_ack (svc_queues s1) (msg_topic msg) 1
          in if should_retry \<and> delay \<noteq> None then Inr (s1, RetryAction (the delay))
             else if should_dlq then
               Inr (s1\<lparr>svc_dlq := produce_letter e rt (svc_dlq s1) msg (failure_metadata e ctx result reason rc),
                       svc_queues := acked\<rparr>, DlqAction)
             else Inr (s1\<lparr>svc_queues := acked\<rparr>, AckAction)))"

definition fail_with ::
  "env \<Rightarrow> router \<Rightarrow> ExecutionContext \<Rightarrow> OwnedMessage \<Rightarrow> ExecutionResult \<Rightarrow> FailureReason \<Rightarrow> string \<Rightarrow> services
   \<Rightarrow> (services \<times> ExecutionAction option) res" where
  \<comment> \<open>the three failure branches of \<open>handle_execution_result\<close>: log, mark, then retry or dead-letter\<close>
  "fail_with e rt ctx msg result reason exception_name s =
     (let s1 = s\<lparr>svc_logs := svc_logs s @ [log_failure ctx reason exception_name False],
                 svc_offsets := OffsetCoordinator_mark_failed (svc_offsets s) (ctx_topic ctx)
                                  (ctx_partition ctx) (ctx_offset ctx) reason\<rparr>
      in res_bind (handle_execution_failure e rt ctx msg result s1)
           (\<lambda>(s2, action). Inr (s2, Some action)))"

fun handle_execution_result ::
  "env \<Rightarrow> router \<Rightarrow> ExecutionContext \<Rightarrow> OwnedMessage \<Rightarrow> ExecutionResult \<Rightarrow> services
   \<Rightarrow> (services \<times> ExecutionAction option) res" where
  "handle_execution_result e rt ctx msg ExOk s =
     (let s1 = s\<lparr>svc_retry := record_success (svc_retry s) (ctx_topic ctx) (ctx_partition ctx) (ctx_offset ctx),
                 svc_queues := QueueManager_ack (svc_queues s) (msg_topic msg) 1\<rparr>
      in res_bind (record_ack (svc_offsets s1) (ctx_topic ctx) (ctx_partition ctx) (ctx_offset ctx))
           (\<lambda>t. Inr (s1\<lparr>svc_offsets := t\<rparr>, None)))"
| "handle_execution_result e rt ctx msg (ExError reason exception tb) s =
     fail_with e rt ctx msg (ExError reason exception tb) reason exception s"
| "handle_execution_result e rt ctx msg (ExRejected reason text) s =
     fail_with e rt ctx msg (ExRejected reason text) reason ''Rejected'' s"
| "handle_execution_result e rt ctx msg (ExTimeout info) s =
     fail_with e rt ctx msg (ExTimeout info) (Terminal HandlerPanic) ''HandlerTimeout'' s"

section \<open>Context of an invocation\<close>

definition inject_trace_context :: "(string \<rightharpoonup> string) \<Rightarrow> (string \<rightharpoonup> string) \<Rightarrow> (string \<rightharpoonup> string)" where
  "inject_trace_context headers out =
     (let out1 = (case headers ''traceparent'' of
                    Some tp \<Rightarrow> (case str_split (CHR ''-'') tp of
                                 [_, p1, p2, p3] \<Rightarrow> out(''trace_id'' \<mapsto> p1, ''span_id'' \<mapsto> p2, ''trace_flags'' \<mapsto> p3)
                               | _ \<Rightarrow> out)
                  | None \<Rightarrow> out)
      in case headers ''tracestate'' of Some ts \<Rightarrow> out1(''tracestate'' \<mapsto> ts) | None \<Rightarrow> out1)"

fun header_map :: "(bytes \<Rightarrow> string) \<Rightarrow> header list \<Rightarrow> (string \<rightharpoonup> string)" where
  \<comment> \<open>collecting into a map: a later header of the same name wins; headers without value are skipped\<close>
  "header_map utf8 [] = Map.empty"
| "header_map utf8 ((k, None) # hs) = header_map utf8 hs"
| "header_map utf8 ((k, Some v) # hs) =
     (case header_map utf8 hs k of None \<Rightarrow> (header_map utf8 hs)(k \<mapsto> utf8 v) | Some _ \<Rightarrow> header_map utf8 hs)"

definition worker_context :: "(bytes \<Rightarrow> string) \<Rightarrow> nat \<Rightarrow> OwnedMessage \<Rightarrow> ExecutionContext" where
  "worker_context utf8 worker_id msg =
     (let tm = inject_trace_context (header_map utf8 (msg_headers msg)) Map.empty
      in ExecutionContext_with_trace (msg_topic msg) (msg_partition msg) (msg_offset msg) worker_id
           \<lparr>tr_trace_id = tm ''trace_id'', tr_span_id = tm ''span_id'', tr_trace_flags = tm ''trace_flags''\<rparr>
           None None '''')"

definition handler_for_topic :: "string list \<Rightarrow> (string \<rightharpoonup> 'h) \<Rightarrow> string \<Rightarrow> 'h res" where
  "handler_for_topic ks handlers topic =
     (case handlers topic of Some h \<Rightarrow> Inr h
      | None \<Rightarrow> (case ks of [] \<Rightarrow> Inl (Panic ''handler map is empty'')
                 | k # _ \<Rightarrow> (case handlers k of Some h \<Rightarrow> Inr h | None \<Rightarrow> Inl (Panic ''handler map is empty''))))"

section \<open>The life of a worker\<close>

datatype WorkerState = Idle | Processing OwnedMessage

fun is_processing :: "WorkerState \<Rightarrow> bool" where
  "is_processing Idle = False"
| "is_processing (Processing _) = True"

fun WorkerState_message :: "WorkerState \<Rightarrow> OwnedMessage option" where
  "WorkerState_message Idle = None"
| "WorkerState_message (Processing m) = Some m"

record worker =
  wk_state :: WorkerState
  wk_services :: services
  wk_cancelled :: bool
  wk_stopped :: bool

datatype worker_label =
    LPick OwnedMessage
  | LRetry OwnedMessage duration
  | LSettle OwnedMessage "ExecutionAction option"
  | LAbandon OwnedMessage
  | LPanic OwnedMessage
  | LStop
  | LCancel
  | LOther

text \<open>
  One step of the loop of a worker on the queue of a topic. The handler may answer anything.
  Between two steps other tasks may change the services in any way and the pool may cancel
  the token. A retry sleeps first; a token cancelled by then ends the worker in the middle of
  the message.
\<close>

inductive worker_step ::
  "router \<Rightarrow> (bytes \<Rightarrow> string) \<Rightarrow> nat \<Rightarrow> string \<Rightarrow> worker \<Rightarrow> worker_label \<Rightarrow> worker \<Rightarrow> bool"
  for rt utf8 wid topic where
  pick: "\<not> wk_stopped w \<Longrightarrow> wk_state w = Idle \<Longrightarrow> receive (svc_queues (wk_services w)) topic = Some (m, q)
    \<Longrightarrow> worker_step rt utf8 wid topic w (LPick m)
          (w\<lparr>wk_state := Processing m, wk_services := (wk_services w)\<lparr>svc_queues := q\<rparr>\<rparr>)"
| stop: "\<not> wk_stopped w \<Longrightarrow> wk_state w = Idle \<Longrightarrow> wk_cancelled w
    \<Longrightarrow> worker_step rt utf8 wid topic w LStop (w\<lparr>wk_stopped := True\<rparr>)"
| retry: "\<not> wk_stopped w \<Longrightarrow> wk_state w = Processing m
    \<Longrightarrow> handle_execution_result e rt (worker_context utf8 wid m) m result (wk_services w) = Inr (s, Some (RetryAction d))
    \<Longrightarrow> \<not> wk_cancelled w
    \<Longrightarrow> worker_step rt utf8 wid topic w (LRetry m d) (w\<lparr>wk_services := s\<rparr>)"
| abandon: "\<not> wk_stopped w \<Longrightarrow> wk_state w = Processing m
    \<Longrightarrow> handle_execution_result e rt (worker_context utf8 wid m) m result (wk_services w) = Inr (s, Some (RetryAction d))
    \<Longrightarrow> wk_cancelled w
    \<Longrightarrow> worker_step rt utf8 wid topic w (LAbandon m) (w\<lparr>wk_services := s, wk_stopped := True\<rparr>)"
| settle: "\<not> wk_stopped w \<Longrightarrow> wk_state w = Processing m
    \<Longrightarrow> handle_execution_result e rt (worker_context utf8 wid m) m result (wk_services w) = Inr (s, action)
    \<Longrightarrow> (\<And>d. action \<noteq> Some (RetryAction d))
    \<Longrightarrow> worker_step rt utf8 wid topic w (LSettle m action)
          (if wk_cancelled w then w\<lparr>wk_services := s, wk_stopped := True\<rparr>
           else w\<lparr>wk_services := s, wk_state := Idle\<rparr>)"
| panicked: "\<not> wk_stopped w \<Longrightarrow> wk_state w = Processing m
    \<Longrightarrow> handle_execution_result e rt (worker_context utf8 wid m) m result (wk_services w) = Inl p
    \<Longrightarrow> worker_step rt utf8 wid topic w (LPanic m) (w\<lparr>wk_stopped := True\<rparr>)"
| cancel: "worker_step rt utf8 wid topic w LCancel (w\<lparr>wk_cancelled := True\<rparr>)"
| other: "worker_step rt utf8 wid topic w LOther (w\<lparr>wk_services := s\<rparr>)"

inductive worker_run ::
  "router \<Rightarrow> (bytes \<Rightarrow> string) \<Rightarrow> nat \<Rightarrow> string \<Rightarrow> worker \<Rightarrow> worker_label list \<Rightarrow> worker \<Rightarrow> bool"
  for rt utf8 wid topic where
  run_nil: "worker_run rt utf8 wid topic w [] w"
| run_snoc: "worker_run rt utf8 wid topic w ls w1 \<Longrightarrow> worker_step rt utf8 wid topic w1 l w2
    \<Longrightarrow> worker_run rt utf8 wid topic w (ls @ [l]) w2"

inductive_cases worker_stepE: "worker_step rt utf8 wid topic w l w'"

section \<open>One message to the end\<close>

fun process_message ::
  "nat \<Rightarrow> router \<Rightarrow> (nat \<Rightarrow> env) \<Rightarrow> (nat \<Rightarrow> ExecutionResult) \<Rightarrow> ExecutionContext \<Rightarrow> OwnedMessage \<Rightarrow> nat \<Rightarrow> services
   \<Rightarrow> (services \<times> nat) res option" where
  \<comment> \<open>the handler answers \<open>results i\<close> to its \<open>i\<close>-th invocation; no fuel left is \<open>None\<close>\<close>
  "process_message 0 rt es results ctx msg i s = None"
| "process_message (Suc fuel) rt es results ctx msg i s =
     (case handle_execution_result (es i) rt ctx msg (results i) s of
        Inl p \<Rightarrow> Some (Inl p)
      | Inr (s', Some (RetryAction d)) \<Rightarrow> process_message fuel rt es results ctx msg (i + 1) s'
      | Inr (s', _) \<Rightarrow> Some (Inr (s', i + 1)))"

section \<open>Batches\<close>

definition batch_ack_one :: "string \<Rightarrow> i32 \<Rightarrow> services \<Rightarrow> i64 \<Rightarrow> services res" where
  "batch_ack_one topic part s offset =
     (let s1 = s\<lparr>svc_retry := record_success (svc_retry s) topic part offset,
                 svc_queues := QueueManager_ack (svc_queues s) topic 1\<rparr>
      in res_bind (record_ack (svc_offsets s1) topic part offset) (\<lambda>t. Inr (s1\<lparr>svc_offsets := t\<rparr>)))"

definition batch_metadata :: "env \<Rightarrow> string \<Rightarrow> i32 \<Rightarrow> FailureReason \<Rightarrow> RetryCoordinator \<Rightarrow> i64 \<Rightarrow> DlqMetadata" where
  "batch_metadata e topic part reason rc offset =
     DlqMetadata_new topic part offset (FailureReason_str reason)
       (u32_of_nat (attempt_count rc topic part offset)) (utc_now e 0) (utc_now e 1) None None None None"

definition batch_fail_one ::
  "env \<Rightarrow> router \<Rightarrow> string \<Rightarrow> i32 \<Rightarrow> FailureReason \<Rightarrow> services \<Rightarrow> OwnedMessage \<Rightarrow> services res" where
  "batch_fail_one e rt topic part reason s msg =
     res_bind (record_failure e (svc_retry s) topic part (msg_offset msg) reason)
       (\<lambda>(rc, should_retry, should_dlq, _).
          let s1 = s\<lparr>svc_retry := rc,
                     svc_offsets := OffsetCoordinator_mark_failed (svc_offsets s) topic part (msg_offset msg) reason\<rparr>;
              s2 = (if should_dlq \<or> should_retry
                    then s1\<lparr>svc_dlq := produce_letter e rt (svc_dlq s1) msg
                              (batch_metadata e topic part reason rc (msg_offset msg))\<rparr>
                    else s1)
          in Inr (s2\<lparr>svc_queues := QueueManager_ack (svc_queues s2) topic 1\<rparr>))"

fun handle_batch_result_inline ::
  "env \<Rightarrow> router \<Rightarrow> BatchExecutionResult \<Rightarrow> OwnedMessage list \<Rightarrow> string \<Rightarrow> i32 \<Rightarrow> services \<Rightarrow> services res" where
  "handle_batch_result_inline e rt (AllSuccess offsets) batch topic part s =
     res_foldl (batch_ack_one topic part) s offsets"
| "handle_batch_result_inline e rt (AllFailure reason) batch topic part s =
     res_foldl (batch_fail_one e rt topic part reason) s batch"

definition flush_partition_batch ::
  "env \<Rightarrow> router \<Rightarrow> (ExecutionContext \<Rightarrow> OwnedMessage list \<Rightarrow> BatchExecutionResult) \<Rightarrow> nat \<Rightarrow> i32
   \<Rightarrow> OwnedMessage list \<Rightarrow> services \<Rightarrow> services res" where
  "flush_partition_batch e rt invoke worker_id part batch s =
     (case batch of
        [] \<Rightarrow> Inr s
      | m # _ \<Rightarrow>
          let topic = msg_topic m;
              ctx = ExecutionContext_new topic part (msg_offset m) worker_id
          in handle_batch_result_inline e rt (invoke ctx batch) batch topic part s)"

definition at_capacity :: "QueueManager \<Rightarrow> string \<Rightarrow> bool" where
  \<comment> \<open>the backpressure check of the batch loop\<close>
  "at_capacity q topic =
     (case get_capacity q topic of None \<Rightarrow> False
      | Some cap \<Rightarrow> (case get_inflight q topic of None \<Rightarrow> False | Some n \<Rightarrow> unat n \<ge> cap))"

section \<open>The pool\<close>

definition pool_assign :: "nat \<Rightarrow> string list \<Rightarrow> (nat \<times> string) list" where
  \<comment> \<open>\<open>receivers.into_iter().enumerate().take(n_workers)\<close>: which worker serves which topic\<close>
  "pool_assign n_workers receivers = take n_workers (enumerate 0 receivers)"

definition pool_shutdown ::
  "env \<Rightarrow> router \<Rightarrow> TopicPartitionKey list \<Rightarrow> services \<Rightarrow> ShutdownCoordinator
   \<Rightarrow> (services \<times> ShutdownCoordinator \<times> consumer_call list) res" where
  \<comment> \<open>after the drain or its timeout\<close>
  "pool_shutdown e rt ks s coord =
     (let s1 = s\<lparr>svc_dlq := flush_failed_to_dlq e rt ks (svc_offsets s) (svc_dlq s)\<rparr>;
          calls = graceful_shutdown ks (svc_offsets s1)
      in if phase coord = Draining
         then res_bind (begin_finalizing coord) (\<lambda>c1. res_bind (set_done c1) (\<lambda>c2. Inr (s1, c2, calls)))
         else Inr (s1, coord, calls))"

section \<open>Lemmas\<close>

lemmas failure_eval = handle_execution_failure_def fail_with_def Let_def

lemma fail_marks_keep [simp]:
  "highest_contiguous (OffsetCoordinator_mark_failed t topic part x r) topic' part' = highest_contiguous t topic' part'"
  by (rule tracker.fail_mark)

text \<open>The failure branches as one: they differ in the reason and in the name that is logged.\<close>

lemma failing_result:
  assumes "result \<noteq> ExOk"
  obtains reason name where "failure_of result = Inr reason"
    "handle_execution_result e rt ctx msg result s = fail_with e rt ctx msg result reason name s"
  using assms by (cases result) auto

lemma fail_with_cases:
  assumes "failure_of result = Inr reason"
    "fail_with e rt ctx msg result reason name s = Inr (s', action)"
  obtains rc retry dlq delay where
    "record_failure e (svc_retry s) (ctx_topic ctx) (ctx_partition ctx) (ctx_offset ctx) reason
       = Inr (rc, retry, dlq, delay)"
    "svc_retry s' = rc"
    "svc_offsets s' = OffsetCoordinator_mark_failed (svc_offsets s) (ctx_topic ctx) (ctx_partition ctx) (ctx_offset ctx) reason"
    "if retry then action = Some (RetryAction (the delay)) \<and> svc_queues s' = svc_queues s \<and> svc_dlq s' = svc_dlq s
     else action = Some DlqAction \<and> svc_queues s' = QueueManager_ack (svc_queues s) (msg_topic msg) 1
       \<and> svc_dlq s' = produce_letter e rt (svc_dlq s) msg (failure_metadata e ctx result reason rc)"
proof -
  from assms obtain rc retry dlq delay where rf:
    "record_failure e (svc_retry s) (ctx_topic ctx) (ctx_partition ctx) (ctx_offset ctx) reason
       = Inr (rc, retry, dlq, delay)"
    by (auto simp: failure_eval)
  note d = record_failure_decision [OF rf]
  show ?thesis
    by (rule that [OF rf]) (use assms rf d in \<open>auto simp: failure_eval split: if_splits\<close>)
qed

lemma fail_with_total:
  assumes "sane_policy (default_policy (svc_retry s))" "sane_env e" "failure_of result = Inr reason"
  shows "\<exists>s' action. fail_with e rt ctx msg result reason name s = Inr (s', action)"
proof -
  obtain rc retry dlq delay where
    "record_failure e (svc_retry s) (ctx_topic ctx) (ctx_partition ctx) (ctx_offset ctx) reason
       = Inr (rc, retry, dlq, delay)"
    using record_failure_total [OF assms(1,2)] by (metis prod_cases3)
  with assms(3) show ?thesis by (auto simp: failure_eval)
qed

lemma failing_keeps_watermarks:
  assumes "handle_execution_result e rt ctx msg result s = Inr (s', action)" "result \<noteq> ExOk"
  shows "highest_contiguous (svc_offsets s') topic part = highest_contiguous (svc_offsets s) topic part"
proof -
  obtain reason name where r: "failure_of result = Inr reason"
    "handle_execution_result e rt ctx msg result s = fail_with e rt ctx msg result reason name s"
    by (rule failing_result [OF assms(2)])
  then have "fail_with e rt ctx msg result reason name s = Inr (s', action)" using assms(1) by simp
  then show ?thesis by (rule fail_with_cases [OF r(1)]) simp
qed

section \<open>Settling a message\<close>

definition settled_ok :: "services \<Rightarrow> services \<Rightarrow> ExecutionContext \<Rightarrow> OwnedMessage \<Rightarrow> bool" where
  \<comment> \<open>acknowledged: the retry state is gone, nothing was dead-lettered, the offset was recorded\<close>
  "settled_ok s s' ctx msg \<longleftrightarrow>
     retry_state (svc_retry s') (ctx_topic ctx, ctx_partition ctx, ctx_offset ctx) = None
     \<and> svc_dlq s' = svc_dlq s
     \<and> (\<exists>w. highest_contiguous (svc_offsets s') (ctx_topic ctx) (ctx_partition ctx) = Some w)"

definition settled_dead :: "router \<Rightarrow> env \<Rightarrow> ExecutionResult \<Rightarrow> services \<Rightarrow> services \<Rightarrow> ExecutionContext \<Rightarrow> OwnedMessage \<Rightarrow> bool" where
  \<comment> \<open>dead-lettered: one letter with the message's payload and key was offered, no watermark moved\<close>
  "settled_dead rt e result s s' ctx msg \<longleftrightarrow>
     (\<exists>reason. failure_of result = Inr reason \<and>
        svc_dlq s' = produce_letter e rt (svc_dlq s) msg (failure_metadata e ctx result reason (svc_retry s')))
     \<and> (\<forall>topic part. highest_contiguous (svc_offsets s') topic part = highest_contiguous (svc_offsets s) topic part)"

lemma ok_settles:
  assumes "0 \<le> ctx_offset ctx"
  shows "\<exists>s'. handle_execution_result e rt ctx msg ExOk s = Inr (s', None)
     \<and> settled_ok s s' ctx msg \<and> svc_queues s' = QueueManager_ack (svc_queues s) (msg_topic msg) 1"
  using assms
  by (simp add: record_ack_def OffsetTracker_ack_def record_success_def settled_ok_def highest_contiguous_def Let_def)

lemma process_message_settles:
  assumes "sane_policy (default_policy (svc_retry s))" "\<And>i. sane_env (es i)" "0 \<le> ctx_offset ctx"
    and "retry_state (svc_retry s) (ctx_topic ctx, ctx_partition ctx, ctx_offset ctx)
           = counted_state (max_attempts (default_policy (svc_retry s))) n"
    and "n < max 1 (max_attempts (default_policy (svc_retry s)))"
    and "max 1 (max_attempts (default_policy (svc_retry s))) \<le> fuel + n"
  shows "\<exists>s' j. process_message fuel rt es results ctx msg i s = Some (Inr (s', j))
     \<and> i < j \<and> j + n \<le> i + max 1 (max_attempts (default_policy (svc_retry s)))
     \<and> svc_queues s' = QueueManager_ack (svc_queues s) (msg_topic msg) 1
     \<and> (if results (j - 1) = ExOk then settled_ok s s' ctx msg
        else settled_dead rt (es (j - 1)) (results (j - 1)) s s' ctx msg)"
  using assms(1,4-)
proof (induction fuel arbitrary: i s n)
  case (Suc fuel)
  let ?k = "(ctx_topic ctx, ctx_partition ctx, ctx_offset ctx)"
  let ?max = "max_attempts (default_policy (svc_retry s))"
  show ?case
  proof (cases "results i = ExOk")
    case True
    obtain s' where "handle_execution_result (es i) rt ctx msg ExOk s = Inr (s', None)"
      "settled_ok s s' ctx msg" "svc_queues s' = QueueManager_ack (svc_queues s) (msg_topic msg) 1"
      using ok_settles [OF assms(3)] by blast
    with True Suc.prems(3) show ?thesis by (intro exI [of _ s'] exI [of _ "i + 1"]) (simp del: handle_execution_result.simps)
  next
    case False
    obtain reason name where r: "failure_of (results i) = Inr reason"
      "handle_execution_result (es i) rt ctx msg (results i) s = fail_with (es i) rt ctx msg (results i) reason name s"
      by (rule failing_result [OF False])
    obtain s1 action where f: "fail_with (es i) rt ctx msg (results i) reason name s = Inr (s1, action)"
      using fail_with_total [OF Suc.prems(1) assms(2) r(1)] by blast
    obtain rc retry dlq delay where rf:
      "record_failure (es i) (svc_retry s) (ctx_topic ctx) (ctx_partition ctx) (ctx_offset ctx) reason
         = Inr (rc, retry, dlq, delay)" "svc_retry s1 = rc"
      "svc_offsets s1 = OffsetCoordinator_mark_failed (svc_offsets s) (ctx_topic ctx) (ctx_partition ctx) (ctx_offset ctx) reason"
      "if retry then action = Some (RetryAction (the delay)) \<and> svc_queues s1 = svc_queues s \<and> svc_dlq s1 = svc_dlq s
       else action = Some DlqAction \<and> svc_queues s1 = QueueManager_ack (svc_queues s) (msg_topic msg) 1
         \<and> svc_dlq s1 = produce_letter (es i) rt (svc_dlq s) msg (failure_metadata (es i) ctx (results i) reason rc)"
      by (rule fail_with_cases [OF r(1) f])
    have pol: "default_policy rc = default_policy (svc_retry s)"
      using record_failure_decision(5) [OF rf(1)] .
    show ?thesis
    proof (cases retry)
      case True
      have nxt: "retry_state rc ?k = counted_state ?max (n + 1)" "n + 1 < ?max"
        using rf(1) Suc.prems(2) True
        by (auto simp: record_failure_def counted_state_def to_dlq_def Let_def split: record_failure_splits)
      have "\<exists>s' j. process_message fuel rt es results ctx msg (i + 1) s1 = Some (Inr (s', j))
         \<and> i + 1 < j \<and> j + (n + 1) \<le> i + 1 + max 1 ?max
         \<and> svc_queues s' = QueueManager_ack (svc_queues s1) (msg_topic msg) 1
         \<and> (if results (j - 1) = ExOk then settled_ok s1 s' ctx msg
            else settled_dead rt (es (j - 1)) (results (j - 1)) s1 s' ctx msg)"
        using Suc.IH [of s1 "n + 1" "i + 1"] Suc.prems nxt rf(2) pol by simp
      then obtain s' j where s': "process_message fuel rt es results ctx msg (i + 1) s1 = Some (Inr (s', j))"
        "i + 1 < j" "j + (n + 1) \<le> i + 1 + max 1 ?max"
        "svc_queues s' = QueueManager_ack (svc_queues s1) (msg_topic msg) 1"
        "if results (j - 1) = ExOk then settled_ok s1 s' ctx msg
            else settled_dead rt (es (j - 1)) (results (j - 1)) s1 s' ctx msg" by blast
      have "process_message (Suc fuel) rt es results ctx msg i s = Some (Inr (s', j))"
        using s'(1) r(2) f rf(4) True by simp
      moreover have "svc_queues s1 = svc_queues s" "svc_dlq s1 = svc_dlq s" using rf(4) True by auto
      moreover have "highest_contiguous (svc_offsets s1) topic part = highest_contiguous (svc_offsets s) topic part"
        for topic part using rf(3) by simp
      ultimately show ?thesis using s'
        by (intro exI [of _ s'] exI [of _ j]) (auto simp: settled_ok_def settled_dead_def split: if_splits)
    next
      case dead: False
      then have "process_message (Suc fuel) rt es results ctx msg i s = Some (Inr (s1, i + 1))"
        using r(2) f rf(4) by simp
      moreover have "settled_dead rt (es i) (results i) s s1 ctx msg"
        using dead rf r(1) by (auto simp: settled_dead_def)
      ultimately show ?thesis using dead rf(4) False Suc.prems(3)
        by (intro exI [of _ s1] exI [of _ "i + 1"]) auto
    qed
  qed
qed (auto simp: max_def split: if_splits)

section \<open>Traces of a worker\<close>

fun follow :: "OwnedMessage option \<Rightarrow> worker_label list \<Rightarrow> OwnedMessage option option" where
  \<comment> \<open>the message in hand after a trace; \<open>None\<close> when the trace breaks the discipline\<close>
  "follow cur [] = Some cur"
| "follow cur (LPick m # ls) = (if cur = None then follow (Some m) ls else None)"
| "follow cur (LRetry m d # ls) = (if cur = Some m then follow cur ls else None)"
| "follow cur (LSettle m a # ls) = (if cur = Some m then follow None ls else None)"
| "follow cur (LAbandon m # ls) = (if cur = Some m then follow None ls else None)"
| "follow cur (LPanic m # ls) = (if cur = Some m then follow None ls else None)"
| "follow cur (LStop # ls) = (if cur = None then follow cur ls else None)"
| "follow cur (LCancel # ls) = follow cur ls"
| "follow cur (LOther # ls) = follow cur ls"

lemma follow_append: "follow cur (ls @ ls') = (case follow cur ls of None \<Rightarrow> None | Some c \<Rightarrow> follow c ls')"
  by (induction cur ls rule: follow.induct) auto

definition in_hand :: "worker \<Rightarrow> OwnedMessage option" where
  "in_hand w = (if wk_stopped w then None else WorkerState_message (wk_state w))"

fun ends_early :: "worker_label \<Rightarrow> bool" where
  "ends_early (LAbandon m) = True"
| "ends_early (LPanic m) = True"
| "ends_early _ = False"

lemma worker_step_follow:
  "worker_step rt utf8 wid topic w l w' \<Longrightarrow> follow (in_hand w) [l] = Some (in_hand w')
     \<and> (wk_stopped w \<longrightarrow> wk_stopped w') \<and> (ends_early l \<longrightarrow> wk_stopped w')
     \<and> (wk_stopped w \<longrightarrow> l = LCancel \<or> l = LOther)"
  by (erule worker_stepE) (auto simp: in_hand_def)

lemma worker_run_follow:
  "worker_run rt utf8 wid topic w ls w' \<Longrightarrow> follow (in_hand w) ls = Some (in_hand w')"
proof (induction rule: worker_run.induct)
  case (run_snoc w ls w1 l w2)
  then show ?case using worker_step_follow [OF run_snoc(2)] by (simp add: follow_append)
qed simp

lemma worker_run_stopped:
  "worker_run rt utf8 wid topic w ls w' \<Longrightarrow>
     (wk_stopped w \<or> list_ex ends_early ls \<longrightarrow> wk_stopped w')"
proof (induction rule: worker_run.induct)
  case (run_snoc w ls w1 l w2)
  then show ?case using worker_step_follow [OF run_snoc(2)] by auto
qed simp

section \<open>Failed batches\<close>

lemma batch_fail_one_spec:
  assumes "sane_policy (default_policy (svc_retry s))" "sane_env e"
  shows "\<exists>s'. batch_fail_one e rt topic part reason s msg = Inr s'
     \<and> svc_queues s' = QueueManager_ack (svc_queues s) topic 1
     \<and> default_policy (svc_retry s') = default_policy (svc_retry s)
     \<and> svc_dlq s' = produce_letter e rt (svc_dlq s) msg (batch_metadata e topic part reason (svc_retry s') (msg_offset msg))
     \<and> (\<forall>t p. highest_contiguous (svc_offsets s') t p = highest_contiguous (svc_offsets s) t p)"
proof -
  obtain rc retry dlq delay where rf:
    "record_failure e (svc_retry s) topic part (msg_offset msg) reason = Inr (rc, retry, dlq, delay)"
    using record_failure_total [OF assms] by (metis prod_cases3)
  with record_failure_decision [OF rf] show ?thesis by (auto simp: batch_fail_one_def Let_def)
qed

definition repeated_ack :: "nat \<Rightarrow> QueueManager \<Rightarrow> string \<Rightarrow> QueueManager" where
  "repeated_ack n q topic = ((\<lambda>q. QueueManager_ack q topic 1) ^^ n) q"

definition letter_of :: "DLQMessage \<Rightarrow> bytes \<times> bytes option \<times> string" where
  "letter_of d = (dlq_payload d, dlq_key d, dlq_original_topic d)"

lemma produce_letter_queue:
  assumes "open_channels e" "orig_topic (original m) = topic"
  shows "map letter_of (dlq_queue (produce_letter e rt p msg m)) =
     map letter_of (dlq_queue p)
     @ (if length (dlq_queue p) < DLQ_CHANNEL_CAPACITY
        then [(case msg_payload msg of Some b \<Rightarrow> b | None \<Rightarrow> [], msg_key msg, topic)] else [])"
  using assms by (simp add: produce_letter_def produce_async_def open_channels_def letter_of_def Let_def)

lemma batch_failure_run:
  assumes "sane_policy (default_policy (svc_retry s))" "sane_env e" "open_channels e"
  shows "\<exists>s'. res_foldl (batch_fail_one e rt topic part reason) s batch = Inr s'
     \<and> svc_queues s' = repeated_ack (length batch) (svc_queues s) topic
     \<and> map letter_of (dlq_queue (svc_dlq s')) = map letter_of (dlq_queue (svc_dlq s))
         @ take (DLQ_CHANNEL_CAPACITY - length (dlq_queue (svc_dlq s)))
             (map (\<lambda>m. (case msg_payload m of Some b \<Rightarrow> b | None \<Rightarrow> [], msg_key m, topic)) batch)
     \<and> (\<forall>t p. highest_contiguous (svc_offsets s') t p = highest_contiguous (svc_offsets s) t p)"
  using assms(1)
proof (induction batch arbitrary: s)
  case Nil
  then show ?case by (simp add: repeated_ack_def)
next
  case (Cons m ms)
  let ?l = "\<lambda>m. (case msg_payload m of Some b \<Rightarrow> b | None \<Rightarrow> [], msg_key m, topic)"
  obtain s1 where s1: "batch_fail_one e rt topic part reason s m = Inr s1"
    "svc_queues s1 = QueueManager_ack (svc_queues s) topic 1"
    "default_policy (svc_retry s1) = default_policy (svc_retry s)"
    "svc_dlq s1 = produce_letter e rt (svc_dlq s) m (batch_metadata e topic part reason (svc_retry s1) (msg_offset m))"
    "\<forall>t p. highest_contiguous (svc_offsets s1) t p = highest_contiguous (svc_offsets s) t p"
    using batch_fail_one_spec [OF Cons.prems assms(2), of rt topic part reason m] by blast
  have q1: "map letter_of (dlq_queue (svc_dlq s1)) = map letter_of (dlq_queue (svc_dlq s))
      @ (if length (dlq_queue (svc_dlq s)) < DLQ_CHANNEL_CAPACITY then [?l m] else [])"
    unfolding s1(4) by (rule produce_letter_queue [OF assms(3)]) (simp add: batch_metadata_def DlqMetadata_new_def)
  have len: "length (dlq_queue (svc_dlq s1)) = length (dlq_queue (svc_dlq s))
      + (if length (dlq_queue (svc_dlq s)) < DLQ_CHANNEL_CAPACITY then 1 else 0)"
    using arg_cong [OF q1, of length] by (simp split: if_splits)
  obtain s' where s': "res_foldl (batch_fail_one e rt topic part reason) s1 ms = Inr s'"
    "svc_queues s' = repeated_ack (length ms) (svc_queues s1) topic"
    "map letter_of (dlq_queue (svc_dlq s')) = map letter_of (dlq_queue (svc_dlq s1))
         @ take (DLQ_CHANNEL_CAPACITY - length (dlq_queue (svc_dlq s1))) (map ?l ms)"
    "\<forall>t p. highest_contiguous (svc_offsets s') t p = highest_contiguous (svc_offsets s1) t p"
    using Cons.IH [of s1] Cons.prems s1(3) by auto
  have "map letter_of (dlq_queue (svc_dlq s')) = map letter_of (dlq_queue (svc_dlq s))
      @ take (DLQ_CHANNEL_CAPACITY - length (dlq_queue (svc_dlq s))) (map ?l (m # ms))"
    unfolding s'(3) q1 len by (auto simp: take_Cons')
  moreover have "svc_queues s' = repeated_ack (length (m # ms)) (svc_queues s) topic"
    unfolding s'(2) s1(2) repeated_ack_def using funpow_swap1 [of "\<lambda>q. QueueManager_ack q topic 1"] by simp
  ultimately show ?case using s1(1,5) s'(1,4) by auto
qed

section \<open>Properties of the workers\<close>

definition services_new :: "RetryPolicy \<Rightarrow> QueueManager \<Rightarrow> services" where
  "services_new p q = \<lparr>svc_offsets = OffsetTracker_new, svc_retry = RetryCoordinator_new p, svc_queues = q,
     svc_dlq = SharedDlqProducer_new, svc_logs = []\<rparr>"



text \<open>
  A worker holds one message at a time and answers for it: in every run, under any
  interference by other tasks, each message it takes from its queue is retried only while in
  hand and then settled, abandoned or lost to a panic exactly once before the next one is taken.
  Abandoning (a cancelled token during a retry delay) and panics end the worker, which then
  takes nothing more.
\<close>

lemma worker_answers_for_each_message:
  assumes "worker_run rt utf8 wid topic w ls w'" "wk_state w = Idle" "\<not> wk_stopped w"
  shows "follow None ls = Some (in_hand w') \<and> (list_ex ends_early ls \<longrightarrow> wk_stopped w')"
  using worker_run_follow [OF assms(1)] worker_run_stopped [OF assms(1)] assms(2,3)
  by (simp add: in_hand_def)



text \<open>
  A failed batch is dead-lettered as a whole, retryable or not: its messages are
  offered to the channel in batch order with their payloads and keys, the channel keeps what it
  has room for, each message is acknowledged once in its queue's counters, and no watermark
  moves.
\<close>

lemma failed_batch_is_dead_lettered:
  assumes "sane_policy (default_policy (svc_retry s))" "sane_env e" "open_channels e"
  shows "\<exists>s'. handle_batch_result_inline e rt (AllFailure reason) batch topic part s = Inr s'
     \<and> svc_queues s' = repeated_ack (length batch) (svc_queues s) topic
     \<and> map letter_of (dlq_queue (svc_dlq s')) = map letter_of (dlq_queue (svc_dlq s))
         @ take (DLQ_CHANNEL_CAPACITY - length (dlq_queue (svc_dlq s)))
             (map (\<lambda>m. (case msg_payload m of Some b \<Rightarrow> b | None \<Rightarrow> [], msg_key m, topic)) batch)
     \<and> (\<forall>t p. highest_contiguous (svc_offsets s') t p = highest_contiguous (svc_offsets s) t p)"
  using batch_failure_run [OF assms, of rt topic part reason batch] by simp

text \<open>
  What one trace header carries reaches the handler: a well-formed
  \<open>traceparent\<close> of four dash-free fields is split into trace id, span id and flags of the
  context; a message without it has no trace.
\<close>

lemma trace_context_extracted:
  assumes "list_all (\<lambda>f. CHR ''-'' \<notin> set f) [version, tid, sid, flags]"
    "header_map utf8 (msg_headers msg) ''traceparent'' = Some (version @ ''-'' @ tid @ ''-'' @ sid @ ''-'' @ flags)"
  shows "ctx_trace (worker_context utf8 wid msg)
     = \<lparr>tr_trace_id = Some tid, tr_span_id = Some sid, tr_trace_flags = Some flags\<rparr>
     \<and> ctx_offset (worker_context utf8 wid msg) = msg_offset msg"
proof -
  have "str_split (CHR ''-'') (version @ ''-'' @ tid @ ''-'' @ sid @ ''-'' @ flags) = [version, tid, sid, flags]"
    using assms(1) by (simp add: str_split_append str_split_no_delim)
  then show ?thesis
    using assms(2)
    by (auto simp: worker_context_def ExecutionContext_with_trace_def inject_trace_context_def Let_def
        split: option.splits)
qed

end
