(* ===== verification/Rebalance.thy ===== *)
theory Rebalance
  imports Offsets
begin

text \<open>
  Rebalancing (\<^verbatim>\<open>src/consumer/context.rs\<close>) and the consumer runner
  (\<^verbatim>\<open>src/consumer/runner.rs\<close>): committing on revocation, seeking on assignment, the
  prefetch of committed offsets, pausing single partitions, and the loop that turns what the
  client receives into owned messages. The answers of the Kafka client are arguments.
\<close>

section \<open>State\<close>

record CustomConsumerContext =
  pause_state :: "string \<rightharpoonup> bool"
  startup_offsets :: "string \<times> i32 \<rightharpoonup> i64"

definition CustomConsumerContext_new :: CustomConsumerContext where
  "CustomConsumerContext_new = \<lparr>pause_state = Map.empty, startup_offsets = Map.empty\<rparr>"

definition seed_startup_offsets ::
  "CustomConsumerContext \<Rightarrow> (string \<times> i32 \<rightharpoonup> i64) \<Rightarrow> CustomConsumerContext" where
  "seed_startup_offsets c offsets = c\<lparr>startup_offsets := offsets\<rparr>"

definition pause_key :: "string \<Rightarrow> i32 \<Rightarrow> string" where
  "pause_key topic part = topic @ ''-'' @ show_int part"

datatype rebalance_call =
    RStore string i32 i64
  | RCommitSync
  | RSeek string i32 i64

section \<open>Revocation and assignment\<close>

fun revoke ::
  "(string \<Rightarrow> i32 \<Rightarrow> i64 \<Rightarrow> bool) \<Rightarrow> OffsetTracker \<Rightarrow> CustomConsumerContext \<Rightarrow> (string \<times> i32) list
   \<Rightarrow> CustomConsumerContext \<times> rebalance_call list" where
  \<comment> \<open>\<open>pre_rebalance\<close> on \<open>Rebalance::Revoke\<close>; the first argument: the client stores the offset\<close>
  "revoke store_ok t c [] = (c, [])"
| "revoke store_ok t c ((topic, part) # elems) =
     (let calls = (case highest_contiguous t topic part of
                     Some offset \<Rightarrow> RStore topic part offset
                                    # (if store_ok topic part offset then [RCommitSync] else [])
                   | None \<Rightarrow> []);
          c1 = c\<lparr>pause_state := (pause_state c)(pause_key topic part := None)\<rparr>;
          (c2, rest) = revoke store_ok t c1 elems
      in (c2, calls @ rest))"

definition seek_to :: "OffsetTracker \<Rightarrow> CustomConsumerContext \<Rightarrow> string \<Rightarrow> i32 \<Rightarrow> i64 option" where
  "seek_to t c topic part =
     (let in_memory = OffsetTracker_committed_offset t topic part
      in if in_memory \<ge> 0 then Some (in_memory + 1) else startup_offsets c (topic, part))"

fun assign :: "OffsetTracker \<Rightarrow> CustomConsumerContext \<Rightarrow> (string \<times> i32) list \<Rightarrow> rebalance_call list" where
  \<comment> \<open>\<open>post_rebalance\<close> on \<open>Rebalance::Assign\<close>; a seek that fails is only logged\<close>
  "assign t c [] = []"
| "assign t c ((topic, part) # elems) =
     (case seek_to t c topic part of Some x \<Rightarrow> [RSeek topic part x] | None \<Rightarrow> []) @ assign t c elems"

datatype Rebalance = Revoke "(string \<times> i32) list" | Assign "(string \<times> i32) list" | RebalanceError

fun pre_rebalance ::
  "(string \<Rightarrow> i32 \<Rightarrow> i64 \<Rightarrow> bool) \<Rightarrow> OffsetTracker \<Rightarrow> CustomConsumerContext \<Rightarrow> Rebalance
   \<Rightarrow> CustomConsumerContext \<times> rebalance_call list" where
  "pre_rebalance store_ok t c (Revoke tpl) = revoke store_ok t c tpl"
| "pre_rebalance store_ok t c (Assign tpl) = (c, [])"
| "pre_rebalance store_ok t c RebalanceError = (c, [])"

fun post_rebalance :: "OffsetTracker \<Rightarrow> CustomConsumerContext \<Rightarrow> Rebalance \<Rightarrow> rebalance_call list" where
  "post_rebalance t c (Assign tpl) = assign t c tpl"
| "post_rebalance t c (Revoke tpl) = []"
| "post_rebalance t c RebalanceError = []"

section \<open>The runner\<close>

fun seed_from_committed :: "(string \<times> i32 \<rightharpoonup> i64) \<Rightarrow> (string \<times> i32 \<times> i64 option) list \<Rightarrow> (string \<times> i32 \<rightharpoonup> i64)" where
  \<comment> \<open>only elements with a real offset are kept\<close>
  "seed_from_committed m [] = m"
| "seed_from_committed m ((topic, part, Some o1) # es) = seed_from_committed (m((topic, part) \<mapsto> o1)) es"
| "seed_from_committed m ((topic, part, None) # es) = seed_from_committed m es"

fun prefetch ::
  "(string \<Rightarrow> i32 list list option) \<Rightarrow> (string \<Rightarrow> i32 list \<Rightarrow> (string \<times> i32 \<times> i64 option) list option)
   \<Rightarrow> (string \<times> i32 \<rightharpoonup> i64) \<Rightarrow> string list \<Rightarrow> (string \<times> i32 \<rightharpoonup> i64)" where
  \<comment> \<open>metadata answers with the partitions of each matching topic; failures of either call are skipped\<close>
  "prefetch metadata committed m [] = m"
| "prefetch metadata committed m (topic # topics) =
     (case metadata topic of
        None \<Rightarrow> prefetch metadata committed m topics
      | Some metas \<Rightarrow>
          prefetch metadata committed
            (foldl (\<lambda>m parts. if parts = [] then m
                     else (case committed topic parts of None \<Rightarrow> m | Some es \<Rightarrow> seed_from_committed m es)) m metas)
            topics)"

definition runner_pause_partition ::
  "bool \<Rightarrow> bool \<Rightarrow> CustomConsumerContext \<Rightarrow> string \<Rightarrow> i32 \<Rightarrow> bool \<times> CustomConsumerContext" where
  \<comment> \<open>the list accepts the partition, the client pauses it\<close>
  "runner_pause_partition add_ok pause_ok c topic part =
     (if \<not> add_ok then (False, c) else if \<not> pause_ok then (False, c)
      else (True, c\<lparr>pause_state := (pause_state c)(pause_key topic part \<mapsto> True)\<rparr>))"

definition runner_resume_partition ::
  "bool \<Rightarrow> bool \<Rightarrow> CustomConsumerContext \<Rightarrow> string \<Rightarrow> i32 \<Rightarrow> bool \<times> CustomConsumerContext" where
  "runner_resume_partition add_ok resume_ok c topic part =
     (if \<not> add_ok then (False, c) else if \<not> resume_ok then (False, c)
      else (True, c\<lparr>pause_state := (pause_state c)(pause_key topic part := None)\<rparr>))"

datatype recv_event = Received borrowed_message | RecvError | ShutdownSignal | ReceiverGone borrowed_message

fun runner_loop :: "recv_event list \<Rightarrow> OwnedMessage list" where
  \<comment> \<open>what the loop of \<open>ConsumerRunner::run\<close> sends: errors are logged and waited out\<close>
  "runner_loop [] = []"
| "runner_loop (Received b # es) = from_borrowed b # runner_loop es"
| "runner_loop (RecvError # es) = runner_loop es"
| "runner_loop (ShutdownSignal # es) = []"
| "runner_loop (ReceiverGone b # es) = []"

datatype RDKafkaLogLevel = Emerg | Alert | Critical | KError | KWarning | Notice | KInfo | KDebug

datatype rust_level = RError | RWarn | RInfo | RDebug | RTrace

fun client_log_level :: "RDKafkaLogLevel \<Rightarrow> rust_level" where
  "client_log_level KWarning = RWarn"
| "client_log_level Notice = RInfo"
| "client_log_level KInfo = RDebug"
| "client_log_level KDebug = RTrace"
| "client_log_level _ = RError"

section \<open>Lemmas\<close>

lemma assign_seeks:
  "RSeek topic part x \<in> set (assign t c tpl) \<longleftrightarrow> (topic, part) \<in> set tpl \<and> seek_to t c topic part = Some x"
  by (induction t c tpl rule: assign.induct) (auto split: option.splits)

lemma assign_only_seeks: "call \<in> set (assign t c tpl) \<Longrightarrow> \<exists>topic part x. call = RSeek topic part x"
  by (induction t c tpl rule: assign.induct) (auto split: option.splits)

lemma revoke_stores:
  "RStore topic part x \<in> set (snd (revoke store_ok t c tpl)) \<longleftrightarrow>
     (topic, part) \<in> set tpl \<and> highest_contiguous t topic part = Some x"
proof (induction tpl arbitrary: c)
  case (Cons k tpl)
  obtain topic' part' where k: "k = (topic', part')" by (cases k)
  let ?c = "c\<lparr>pause_state := (pause_state c)(pause_key topic' part' := None)\<rparr>"
  have "snd (revoke store_ok t c (k # tpl)) =
      (case highest_contiguous t topic' part' of
         Some offset \<Rightarrow> RStore topic' part' offset # (if store_ok topic' part' offset then [RCommitSync] else [])
       | None \<Rightarrow> []) @ snd (revoke store_ok t ?c tpl)"
    by (simp add: k Let_def split: prod.split)
  with Cons.IH [of ?c] k show ?case by (auto split: option.splits if_splits)
qed simp

lemma seek_to_tracked:
  assumes "tracker_run es = Inr t"
  shows "seek_to t c topic part = (case highest_contiguous t topic part of
      Some w \<Rightarrow> Some (w + 1) | None \<Rightarrow> startup_offsets c (topic, part))"
  using tracker_partition_valid [OF assms]
  by (auto simp: seek_to_def OffsetTracker_committed_offset_def highest_contiguous_def Let_def split: option.splits)

section \<open>Properties of rebalancing\<close>



text \<open>
  A revocation stores the watermark of every revoked partition that has one, also of
  a partition that a terminal failure closed for commits, and of no other partition.
\<close>

lemma revocation_stores_watermarks:
  "RStore topic part x \<in> set (snd (pre_rebalance store_ok t c (Revoke tpl))) \<longleftrightarrow>
     (topic, part) \<in> set tpl \<and> highest_contiguous t topic part = Some x"
  by (simp add: revoke_stores)

end
