(* ===== verification/Config.thy ===== *)
theory Config
  imports Retry
begin

text \<open>
  Configuration (\<^verbatim>\<open>src/consumer/config.rs\<close>): the consumer's settings with their builder, their
  translation into settings of the Kafka client, the settings of the dead-letter producer
  (\<^verbatim>\<open>src/dlq/produce.rs\<close>), the Python-facing settings (\<^verbatim>\<open>src/config.rs\<close>) and what the runtime
  builder forwards of them (\<^verbatim>\<open>src/runtime/builder.rs\<close>). Durations are nanoseconds; a client
  configuration is a map from property names to values.
\<close>

section \<open>Settings and builder\<close>

datatype AutoOffsetReset = Earliest | Latest

fun AutoOffsetReset_str :: "AutoOffsetReset \<Rightarrow> string" where
  "AutoOffsetReset_str Earliest = ''earliest''"
| "AutoOffsetReset_str Latest = ''latest''"

datatype PartitionAssignmentStrategy = RoundRobin | RangeStrategy | CooperativeSticky

fun PartitionAssignmentStrategy_str :: "PartitionAssignmentStrategy \<Rightarrow> string" where
  "PartitionAssignmentStrategy_str RoundRobin = ''roundrobin''"
| "PartitionAssignmentStrategy_str RangeStrategy = ''range''"
| "PartitionAssignmentStrategy_str CooperativeSticky = ''cooperative-sticky''"

text \<open>The settings that the builder and the finished configuration share.\<close>

record consumer_settings =
  cc_topics :: "string list"
  cc_auto_offset_reset :: AutoOffsetReset
  cc_enable_auto_commit :: bool
  cc_enable_auto_offset_store :: bool
  cc_session_timeout_ms :: nat
  cc_bootstrap_timeout_ms :: "nat option"
  cc_heartbeat_interval_ms :: nat
  cc_max_poll_interval_ms :: nat
  cc_security_protocol :: "string option"
  cc_sasl_mechanism :: "string option"
  cc_sasl_username :: "string option"
  cc_sasl_password :: "string option"
  cc_fetch_min_bytes :: int
  cc_max_partition_fetch_bytes :: int
  cc_partition_assignment_strategy :: PartitionAssignmentStrategy
  cc_retry_backoff_ms :: nat
  cc_default_retry_policy :: RetryPolicy
  cc_dlq_topic_prefix :: string
  cc_drain_timeout_secs :: nat

record ConsumerConfig = consumer_settings +
  cc_brokers :: string
  cc_group_id :: string

record ConsumerConfigBuilder = consumer_settings +
  cb_brokers :: "string option"
  cb_group_id :: "string option"

datatype BuildError = MissingField string | NoTopics | InvalidField string

definition ConsumerConfigBuilder_new :: "(real \<Rightarrow> real) \<Rightarrow> ConsumerConfigBuilder" where
  "ConsumerConfigBuilder_new rnd =
     \<lparr>cc_topics = [], cc_auto_offset_reset = Latest, cc_enable_auto_commit = False,
      cc_enable_auto_offset_store = False, cc_session_timeout_ms = 45000, cc_bootstrap_timeout_ms = None,
      cc_heartbeat_interval_ms = 3000, cc_max_poll_interval_ms = 300000, cc_security_protocol = None,
      cc_sasl_mechanism = None, cc_sasl_username = None, cc_sasl_password = None,
      cc_fetch_min_bytes = 1048576, cc_max_partition_fetch_bytes = 10485760,
      cc_partition_assignment_strategy = CooperativeSticky, cc_retry_backoff_ms = 100,
      cc_default_retry_policy = RetryPolicy_default rnd, cc_dlq_topic_prefix = ''dlq.'',
      cc_drain_timeout_secs = 30, cb_brokers = None, cb_group_id = None\<rparr>"

definition as_millis_u32 :: "duration \<Rightarrow> nat" where
  \<comment> \<open>\<open>as_millis() as u32\<close>\<close>
  "as_millis_u32 d = u32_of_nat (d div 1000000)"

definition cfg_brokers :: "string \<Rightarrow> ConsumerConfigBuilder \<Rightarrow> ConsumerConfigBuilder" where
  "cfg_brokers v b = b\<lparr>cb_brokers := Some v\<rparr>"

definition cfg_group_id :: "string \<Rightarrow> ConsumerConfigBuilder \<Rightarrow> ConsumerConfigBuilder" where
  "cfg_group_id v b = b\<lparr>cb_group_id := Some v\<rparr>"

definition cfg_topics :: "string list \<Rightarrow> ConsumerConfigBuilder \<Rightarrow> ConsumerConfigBuilder" where
  "cfg_topics v b = b\<lparr>cc_topics := v\<rparr>"

definition cfg_add_topic :: "string \<Rightarrow> ConsumerConfigBuilder \<Rightarrow> ConsumerConfigBuilder" where
  "cfg_add_topic v b = b\<lparr>cc_topics := cc_topics b @ [v]\<rparr>"

definition cfg_auto_offset_reset :: "AutoOffsetReset \<Rightarrow> ConsumerConfigBuilder \<Rightarrow> ConsumerConfigBuilder" where
  "cfg_auto_offset_reset v b = b\<lparr>cc_auto_offset_reset := v\<rparr>"

definition cfg_enable_auto_commit :: "bool \<Rightarrow> ConsumerConfigBuilder \<Rightarrow> ConsumerConfigBuilder" where
  "cfg_enable_auto_commit v b = b\<lparr>cc_enable_auto_commit := v\<rparr>"

definition cfg_enable_auto_offset_store :: "bool \<Rightarrow> ConsumerConfigBuilder \<Rightarrow> ConsumerConfigBuilder" where
  "cfg_enable_auto_offset_store v b = b\<lparr>cc_enable_auto_offset_store := v\<rparr>"

definition cfg_session_timeout :: "duration \<Rightarrow> ConsumerConfigBuilder \<Rightarrow> ConsumerConfigBuilder" where
  "cfg_session_timeout d b = b\<lparr>cc_session_timeout_ms := as_millis_u32 d\<rparr>"

definition cfg_bootstrap_timeout :: "duration \<Rightarrow> ConsumerConfigBuilder \<Rightarrow> ConsumerConfigBuilder" where
  "cfg_bootstrap_timeout d b = b\<lparr>cc_bootstrap_timeout_ms := Some (as_millis_u32 d)\<rparr>"

definition cfg_heartbeat_interval :: "duration \<Rightarrow> ConsumerConfigBuilder \<Rightarrow> ConsumerConfigBuilder" where
  "cfg_heartbeat_interval d b = b\<lparr>cc_heartbeat_interval_ms := as_millis_u32 d\<rparr>"

definition cfg_max_poll_interval :: "duration \<Rightarrow> ConsumerConfigBuilder \<Rightarrow> ConsumerConfigBuilder" where
  "cfg_max_poll_interval d b = b\<lparr>cc_max_poll_interval_ms := as_millis_u32 d\<rparr>"

definition cfg_security_protocol :: "string \<Rightarrow> ConsumerConfigBuilder \<Rightarrow> ConsumerConfigBuilder" where
  "cfg_security_protocol v b = b\<lparr>cc_security_protocol := Some v\<rparr>"

definition cfg_sasl_mechanism :: "string \<Rightarrow> string \<Rightarrow> string \<Rightarrow> ConsumerConfigBuilder \<Rightarrow> ConsumerConfigBuilder" where
  "cfg_sasl_mechanism mechanism username password b =
     b\<lparr>cc_sasl_mechanism := Some mechanism, cc_sasl_username := Some username, cc_sasl_password := Some password\<rparr>"

definition cfg_fetch_min_bytes :: "int \<Rightarrow> ConsumerConfigBuilder \<Rightarrow> ConsumerConfigBuilder" where
  "cfg_fetch_min_bytes v b = b\<lparr>cc_fetch_min_bytes := v\<rparr>"

definition cfg_max_partition_fetch_bytes :: "int \<Rightarrow> ConsumerConfigBuilder \<Rightarrow> ConsumerConfigBuilder" where
  "cfg_max_partition_fetch_bytes v b = b\<lparr>cc_max_partition_fetch_bytes := v\<rparr>"

definition cfg_partition_assignment_strategy ::
  "PartitionAssignmentStrategy \<Rightarrow> ConsumerConfigBuilder \<Rightarrow> ConsumerConfigBuilder" where
  "cfg_partition_assignment_strategy v b = b\<lparr>cc_partition_assignment_strategy := v\<rparr>"

definition cfg_retry_backoff :: "duration \<Rightarrow> ConsumerConfigBuilder \<Rightarrow> ConsumerConfigBuilder" where
  "cfg_retry_backoff d b = b\<lparr>cc_retry_backoff_ms := as_millis_u32 d\<rparr>"

definition cfg_default_retry_policy :: "RetryPolicy \<Rightarrow> ConsumerConfigBuilder \<Rightarrow> ConsumerConfigBuilder" where
  "cfg_default_retry_policy v b = b\<lparr>cc_default_retry_policy := v\<rparr>"

definition cfg_dlq_topic_prefix :: "string \<Rightarrow> ConsumerConfigBuilder \<Rightarrow> ConsumerConfigBuilder" where
  "cfg_dlq_topic_prefix v b = b\<lparr>cc_dlq_topic_prefix := v\<rparr>"

definition cfg_drain_timeout :: "nat \<Rightarrow> ConsumerConfigBuilder \<Rightarrow> ConsumerConfigBuilder" where
  "cfg_drain_timeout v b = b\<lparr>cc_drain_timeout_secs := v\<rparr>"

definition build_config :: "ConsumerConfigBuilder \<Rightarrow> BuildError + ConsumerConfig" where
  "build_config b =
     (case cb_brokers b of
        None \<Rightarrow> Inl (MissingField ''brokers'')
      | Some brokers \<Rightarrow>
          (case cb_group_id b of
             None \<Rightarrow> Inl (MissingField ''group_id'')
           | Some group_id \<Rightarrow>
               if cc_topics b = [] then Inl NoTopics
               else Inr (consumer_settings.extend (consumer_settings.truncate b)
                          \<lparr>cc_brokers = brokers, cc_group_id = group_id\<rparr>)))"

section \<open>Settings of the Kafka clients\<close>

type_synonym client_config = "string \<rightharpoonup> string"

definition set_opt :: "string \<Rightarrow> string option \<Rightarrow> client_config \<Rightarrow> client_config" where
  "set_opt k v c = (case v of Some s \<Rightarrow> c(k \<mapsto> s) | None \<Rightarrow> c)"

definition into_rdkafka_config :: "ConsumerConfig \<Rightarrow> client_config" where
  "into_rdkafka_config c =
     set_opt ''bootstrap.timeout.ms'' (map_option show_nat (cc_bootstrap_timeout_ms c))
     (set_opt ''sasl.password'' (cc_sasl_password c)
     (set_opt ''sasl.username'' (cc_sasl_username c)
     (set_opt ''sasl.mechanism'' (cc_sasl_mechanism c)
     (set_opt ''security.protocol'' (cc_security_protocol c)
     [''bootstrap.servers'' \<mapsto> cc_brokers c,
      ''group.id'' \<mapsto> cc_group_id c,
      ''auto.offset.reset'' \<mapsto> AutoOffsetReset_str (cc_auto_offset_reset c),
      ''enable.auto.commit'' \<mapsto> show_bool (cc_enable_auto_commit c),
      ''enable.auto.offset.store'' \<mapsto> show_bool (cc_enable_auto_offset_store c),
      ''session.timeout.ms'' \<mapsto> show_nat (cc_session_timeout_ms c),
      ''heartbeat.interval.ms'' \<mapsto> show_nat (cc_heartbeat_interval_ms c),
      ''max.poll.interval.ms'' \<mapsto> show_nat (cc_max_poll_interval_ms c),
      ''fetch.min.bytes'' \<mapsto> show_int (cc_fetch_min_bytes c),
      ''enable.partition.eof'' \<mapsto> ''false'',
      ''max.partition.fetch.bytes'' \<mapsto> show_int (cc_max_partition_fetch_bytes c),
      ''fetch.message.max.bytes'' \<mapsto> show_int (cc_fetch_min_bytes c),
      ''queued.min.messages'' \<mapsto> ''100000'',
      ''queued.max.messages.kbytes'' \<mapsto> ''65536'',
      ''fetch.wait.max.ms'' \<mapsto> ''500'',
      ''fetch.error.backoff.ms'' \<mapsto> ''500'',
      ''reconnect.backoff.ms'' \<mapsto> ''100'',
      ''retry.backoff.ms'' \<mapsto> show_nat (cc_retry_backoff_ms c),
      ''reconnect.backoff.max.ms'' \<mapsto> ''10000'',
      ''partition.assignment.strategy'' \<mapsto>
         PartitionAssignmentStrategy_str (cc_partition_assignment_strategy c)]))))"

definition create_producer :: "ConsumerConfig \<Rightarrow> client_config" where
  \<comment> \<open>the settings of the dead-letter producer\<close>
  "create_producer c =
     set_opt ''sasl.password'' (cc_sasl_password c)
     (set_opt ''sasl.username'' (cc_sasl_username c)
     (set_opt ''sasl.mechanism'' (cc_sasl_mechanism c)
     (set_opt ''security.protocol'' (cc_security_protocol c)
     [''bootstrap.servers'' \<mapsto> cc_brokers c,
      ''message.timeout.ms'' \<mapsto> ''5000'',
      ''queue.buffering.max.messages'' \<mapsto> ''100000'',
      ''queue.buffering.max.kbytes'' \<mapsto> ''65536'',
      ''request.timeout.ms'' \<mapsto> ''5000'',
      ''retry.backoff.ms'' \<mapsto> ''100'',
      ''retries'' \<mapsto> ''2''])))"

section \<open>The Python-facing settings and what the runtime forwards\<close>

record PyRetryPolicy =
  prp_max_attempts :: nat
  prp_base_delay_ms :: nat
  prp_max_delay_ms :: nat
  prp_jitter_factor :: real

definition to_rust :: "PyRetryPolicy \<Rightarrow> RetryPolicy" where
  "to_rust r = RetryPolicy_new (prp_max_attempts r) (from_millis (prp_base_delay_ms r))
     (from_millis (prp_max_delay_ms r)) (prp_jitter_factor r)"

record PyObservabilityConfig =
  obs_otlp_endpoint :: "string option"
  obs_service_name :: string
  obs_sampling_ratio :: real
  obs_log_format :: string

record PyConsumerConfig =
  py_brokers :: string
  py_group_id :: string
  py_topics :: "string list"
  py_auto_offset_reset :: string
  py_enable_auto_commit :: bool
  py_session_timeout_ms :: nat
  py_bootstrap_timeout_ms :: "nat option"
  py_heartbeat_interval_ms :: nat
  py_max_poll_interval_ms :: nat
  py_security_protocol :: "string option"
  py_sasl_mechanism :: "string option"
  py_sasl_username :: "string option"
  py_sasl_password :: "string option"
  py_fetch_min_bytes :: nat
  py_max_partition_fetch_bytes :: nat
  py_partition_assignment_strategy :: string
  py_retry_backoff_ms :: nat
  py_message_batch_size :: nat
  py_default_retry_policy :: "PyRetryPolicy option"
  py_dlq_topic_prefix :: "string option"
  py_drain_timeout_secs :: "nat option"
  py_num_workers :: "nat option"
  py_enable_auto_offset_store :: "bool option"
  py_observability_config :: "PyObservabilityConfig option"
  py_handler_timeout_ms :: "nat option"

definition opt_apply :: "('a \<Rightarrow> 'b \<Rightarrow> 'b) \<Rightarrow> 'a option \<Rightarrow> 'b \<Rightarrow> 'b" where
  "opt_apply f v b = (case v of Some x \<Rightarrow> f x b | None \<Rightarrow> b)"

definition runtime_config :: "(real \<Rightarrow> real) \<Rightarrow> PyConsumerConfig \<Rightarrow> BuildError + ConsumerConfig" where
  \<comment> \<open>the first step of \<open>RuntimeBuilder::build\<close>\<close>
  "runtime_config rnd p =
     build_config
       (opt_apply cfg_drain_timeout (py_drain_timeout_secs p)
       (opt_apply cfg_dlq_topic_prefix (py_dlq_topic_prefix p)
       (opt_apply (\<lambda>r. cfg_default_retry_policy (to_rust r)) (py_default_retry_policy p)
       (cfg_max_poll_interval (from_millis (py_max_poll_interval_ms p))
       (cfg_heartbeat_interval (from_millis (py_heartbeat_interval_ms p))
       (cfg_session_timeout (from_millis (py_session_timeout_ms p))
       (cfg_enable_auto_commit (py_enable_auto_commit p)
       (cfg_auto_offset_reset (if py_auto_offset_reset p = ''earliest'' then Earliest else Latest)
       (cfg_topics (py_topics p)
       (cfg_group_id (py_group_id p)
       (cfg_brokers (py_brokers p) (ConsumerConfigBuilder_new rnd))))))))))))"

definition queue_capacity :: "PyConsumerConfig \<Rightarrow> nat" where
  "queue_capacity p = max (py_message_batch_size p * 10) 1000"

definition n_workers :: "PyConsumerConfig \<Rightarrow> nat" where
  "n_workers p = (case py_num_workers p of Some n \<Rightarrow> n | None \<Rightarrow> 4)"

section \<open>Lemmas\<close>

lemmas cfg_defs = cfg_brokers_def cfg_group_id_def cfg_topics_def cfg_auto_offset_reset_def
  cfg_enable_auto_commit_def cfg_session_timeout_def cfg_heartbeat_interval_def cfg_max_poll_interval_def
  cfg_default_retry_policy_def cfg_dlq_topic_prefix_def cfg_drain_timeout_def opt_apply_def

lemma as_millis_from_millis: "ms < 2 ^ 32 \<Longrightarrow> as_millis_u32 (from_millis ms) = ms"
  by (simp add: as_millis_u32_def from_millis_def u32_of_nat_def)

lemma set_opt_apply: "set_opt k v c k' = (if k' = k \<and> v \<noteq> None then v else c k')"
  by (auto simp: set_opt_def split: option.splits)

lemma build_config_ok:
  "build_config b = Inr c \<Longrightarrow> cb_brokers b = Some (cc_brokers c) \<and> cb_group_id b = Some (cc_group_id c)
     \<and> cc_topics b \<noteq> [] \<and> consumer_settings.truncate c = consumer_settings.truncate b"
  by (auto simp: build_config_def consumer_settings.defs ConsumerConfig.defs split: option.splits if_splits)

section \<open>Properties of the configuration\<close>

lemma runtime_config_settings:
  assumes "runtime_config rnd p = Inr c"
  shows "cc_security_protocol c = None" "cc_sasl_mechanism c = None" "cc_sasl_username c = None"
    "cc_sasl_password c = None" "cc_fetch_min_bytes c = 1048576"
    "cc_partition_assignment_strategy c = CooperativeSticky" "cc_enable_auto_offset_store c = False"
    "cc_brokers c = py_brokers p" "cc_group_id c = py_group_id p" "cc_topics c = py_topics p"
    "cc_session_timeout_ms c = as_millis_u32 (from_millis (py_session_timeout_ms p))"
  using assms
  by (auto simp: runtime_config_def build_config_def cfg_defs ConsumerConfigBuilder_new_def
      consumer_settings.defs ConsumerConfig.defs split: option.splits if_splits)

text \<open>
  What reaches the Kafka clients of a runtime built from Python settings: the
  brokers, the group, the topics and the session timeout as given; but no security protocol and
  no credentials, whatever was configured, neither for the consumer nor for the dead-letter
  producer, and the default assignment strategy and fetch sizes.
\<close>

lemma runtime_config_forwards:
  assumes "runtime_config rnd p = Inr c" "py_session_timeout_ms p < 2 ^ 32"
  shows "into_rdkafka_config c ''bootstrap.servers'' = Some (py_brokers p)
     \<and> into_rdkafka_config c ''group.id'' = Some (py_group_id p)
     \<and> cc_topics c = py_topics p
     \<and> into_rdkafka_config c ''session.timeout.ms'' = Some (show_nat (py_session_timeout_ms p))
     \<and> list_all (\<lambda>k. into_rdkafka_config c k = None \<and> create_producer c k = None)
         [''security.protocol'', ''sasl.mechanism'', ''sasl.username'', ''sasl.password'']
     \<and> into_rdkafka_config c ''partition.assignment.strategy'' = Some ''cooperative-sticky''
     \<and> into_rdkafka_config c ''fetch.message.max.bytes'' = into_rdkafka_config c ''fetch.min.bytes''"
  using runtime_config_settings [OF assms(1)] as_millis_from_millis [OF assms(2)]
  by (simp add: into_rdkafka_config_def create_producer_def set_opt_apply)

definition sample_py_config :: PyConsumerConfig where
  "sample_py_config =
     \<lparr>py_brokers = ''b:9092'', py_group_id = ''g'', py_topics = [''t''], py_auto_offset_reset = ''earliest'',
      py_enable_auto_commit = False, py_session_timeout_ms = 30000, py_bootstrap_timeout_ms = None,
      py_heartbeat_interval_ms = 3000, py_max_poll_interval_ms = 300000,
      py_security_protocol = Some ''SASL_SSL'', py_sasl_mechanism = Some ''PLAIN'',
      py_sasl_username = Some ''u'', py_sasl_password = Some ''p'', py_fetch_min_bytes = 1,
      py_max_partition_fetch_bytes = 1048576, py_partition_assignment_strategy = ''roundrobin'',
      py_retry_backoff_ms = 100, py_message_batch_size = 100, py_default_retry_policy = None,
      py_dlq_topic_prefix = None, py_drain_timeout_secs = None, py_num_workers = None,
      py_enable_auto_offset_store = None, py_observability_config = None, py_handler_timeout_ms = None\<rparr>"

end
