(* ===== verification/Runtime.thy ===== *)
theory Runtime
  imports Worker Rebalance Config
begin

text \<open>
  The assembled runtime (\<^verbatim>\<open>src/runtime/builder.rs\<close>, \<^verbatim>\<open>src/consumer/runtime.rs\<close>): how a run
  ends. \<open>stop()\<close> from Python cancels the pool's token; a signal first moves the coordinator
  to draining, and on Windows does no more than that. After the pool has shut down, \<open>run\<close> waits for the
  committer, whose loop ends when the coordinator is done.
\<close>

datatype stop_request = PythonStop | UnixSignal | WindowsSignal

definition request_stop :: "ShutdownCoordinator \<Rightarrow> stop_request \<Rightarrow> ShutdownCoordinator res" where
  "request_stop coord r =
     (case r of PythonStop \<Rightarrow> Inr coord
      | _ \<Rightarrow> res_bind (begin_draining coord) (\<lambda>(c, _). Inr c))"

definition cancels_pool :: "stop_request \<Rightarrow> bool" where
  \<comment> \<open>whether the request cancels the token that workers and pool wait for\<close>
  "cancels_pool r \<longleftrightarrow> r \<noteq> WindowsSignal"

definition runtime_finish ::
  "env \<Rightarrow> router \<Rightarrow> TopicPartitionKey list \<Rightarrow> services \<Rightarrow> ShutdownCoordinator \<Rightarrow> stop_request
   \<Rightarrow> (services \<times> ShutdownCoordinator \<times> consumer_call list) res" where
  \<comment> \<open>the request, the shutdown of the pool, and the coordinator the committer then watches\<close>
  "runtime_finish e rt ks s coord r =
     res_bind (request_stop coord r) (\<lambda>coord1. pool_shutdown e rt ks s coord1)"

fun committer_rounds ::
  "broker \<Rightarrow> CommitConfig \<Rightarrow> ShutdownCoordinator \<Rightarrow> TopicPartitionKey list \<Rightarrow> OffsetTracker \<Rightarrow> CommitterState
   \<Rightarrow> (nat \<times> commit_input) list \<Rightarrow> bool" where
  \<comment> \<open>whether the committer's loop is still going after these rounds\<close>
  "committer_rounds broker cfg coord ks t st [] = True"
| "committer_rounds broker cfg coord ks t st ((now, inp) # rest) =
     (let (go, st', _) = committer_round broker cfg coord ks t st now inp
      in if go then committer_rounds broker cfg coord ks t st' rest else False)"

lemma pool_shutdown_phases:
  "pool_shutdown e rt ks s coord =
     Inr (s\<lparr>svc_dlq := flush_failed_to_dlq e rt ks (svc_offsets s) (svc_dlq s)\<rparr>,
          if phase coord = Draining then coord\<lparr>phase := Done\<rparr> else coord,
          graceful_shutdown ks (svc_offsets s))"
  by (simp add: pool_shutdown_def begin_finalizing_def set_done_def Let_def)

lemma committer_rounds_running: "\<not> is_done coord \<Longrightarrow> committer_rounds broker cfg coord ks t st rs"
  by (induction rs arbitrary: st) (auto simp: committer_round_def Let_def split: prod.splits)

text \<open>
  After a signal the pool's shutdown takes the coordinator to done
  and the committer leaves its loop at its next round. After \<open>stop()\<close> from Python the
  coordinator is still running: the committer's loop never ends, and \<open>start()\<close>, which waits
  for it, does not return.
\<close>

lemma finish_by_request:
  "\<exists>s1 c1 calls1 s2 c2 calls2.
     runtime_finish e rt ks s (ShutdownCoordinator_new secs) UnixSignal = Inr (s1, c1, calls1)
     \<and> fst (committer_round broker cfg c1 ks t st now inp) = False
     \<and> runtime_finish e rt ks s (ShutdownCoordinator_new secs) PythonStop = Inr (s2, c2, calls2)
     \<and> phase c2 = Running \<and> committer_rounds broker cfg c2 ks t st rounds"
  by (auto simp: runtime_finish_def request_stop_def begin_draining_def ShutdownCoordinator_new_def
      pool_shutdown_phases committer_round_def is_done_def committer_rounds_running)

end
