(* ===== verification/FanOut.thy ===== *)
theory FanOut
  imports Worker
begin

text \<open>
  Fan-out (\<^verbatim>\<open>src/worker_pool/fan_out.rs\<close>, \<open>process_fan_out\<close> of
  \<^verbatim>\<open>src/worker_pool/worker.rs\<close>, \<^verbatim>\<open>src/execution/fan_out.rs\<close>): branch results and their tracker
  with its 8-bit counters, the interleaving of branches with the task that waits for them, slots,
  callbacks, and the dead letters of failed branches.
\<close>

section \<open>Results, callbacks and the tracker\<close>

datatype BranchResult = BrOk | BrError FailureReason string | BrTimeout nat

record CallbackRegistry =
  callbacks :: "nat \<rightharpoonup> nat"
  next_branch_id :: nat

text \<open>A callback is identified by a number; emitting answers the one that is invoked.\<close>

definition CallbackRegistry_new :: CallbackRegistry where
  "CallbackRegistry_new = \<lparr>callbacks = Map.empty, next_branch_id = 1\<rparr>"

definition on_sink_complete :: "CallbackRegistry \<Rightarrow> nat \<Rightarrow> nat \<times> CallbackRegistry" where
  "on_sink_complete r cb =
     (let branch_id = next_branch_id r
      in (branch_id, r\<lparr>next_branch_id := branch_id + 1, callbacks := (callbacks r)(branch_id \<mapsto> cb)\<rparr>))"

definition emit :: "CallbackRegistry \<Rightarrow> nat \<Rightarrow> nat option \<times> CallbackRegistry" where
  "emit r branch_id = (callbacks r branch_id, r\<lparr>callbacks := (callbacks r)(branch_id := None)\<rparr>)"

record SinkConfig =
  sk_topic :: string
  sk_handler :: nat
  sk_timeout :: "duration option"

record FanOutTracker =
  ft_max_fan_out :: u8
  ft_sinks :: "SinkConfig list"
  ft_inflight :: u8
  ft_callback_registry :: CallbackRegistry
  ft_total :: u8
  ft_completed :: u8
  ft_results :: "(nat \<times> BranchResult) list"

definition FanOutTracker_new :: "u8 \<Rightarrow> FanOutTracker" where
  "FanOutTracker_new max_fan_out =
     \<lparr>ft_max_fan_out = min max_fan_out 64, ft_sinks = [], ft_inflight = 0,
      ft_callback_registry = CallbackRegistry_new, ft_total = 0, ft_completed = 0, ft_results = []\<rparr>"

definition register_sink :: "FanOutTracker \<Rightarrow> string \<Rightarrow> nat \<Rightarrow> duration option \<Rightarrow> FanOutTracker" where
  "register_sink t topic handler timeout =
     t\<lparr>ft_sinks := ft_sinks t @ [\<lparr>sk_topic = topic, sk_handler = handler, sk_timeout = timeout\<rparr>]\<rparr>"

definition FanOutTracker_on_sink_complete :: "FanOutTracker \<Rightarrow> nat \<Rightarrow> nat \<times> FanOutTracker" where
  "FanOutTracker_on_sink_complete t cb =
     (let (b, r) = on_sink_complete (ft_callback_registry t) cb in (b, t\<lparr>ft_callback_registry := r\<rparr>))"

definition emit_completion :: "FanOutTracker \<Rightarrow> nat \<Rightarrow> nat option \<times> FanOutTracker" where
  "emit_completion t branch_id =
     (let (cb, r) = emit (ft_callback_registry t) branch_id in (cb, t\<lparr>ft_callback_registry := r\<rparr>))"

definition FanOutTracker_is_exhausted :: "FanOutTracker \<Rightarrow> bool" where
  "FanOutTracker_is_exhausted t \<longleftrightarrow> ft_inflight t \<ge> ft_max_fan_out t"

definition try_acquire_slot :: "FanOutTracker \<Rightarrow> bool \<times> FanOutTracker" where
  \<comment> \<open>run without a competing task, the compare-exchange succeeds\<close>
  "try_acquire_slot t =
     (if ft_inflight t \<ge> ft_max_fan_out t then (False, t) else (True, t\<lparr>ft_inflight := ft_inflight t + 1\<rparr>))"

definition release_slot :: "FanOutTracker \<Rightarrow> FanOutTracker" where
  "release_slot t = t\<lparr>ft_inflight := ft_inflight t - 1\<rparr>"

definition register_branch :: "FanOutTracker \<Rightarrow> nat \<times> FanOutTracker" where
  "register_branch t = (unat (ft_total t), t\<lparr>ft_total := ft_total t + 1\<rparr>)"

definition record_branch_result :: "FanOutTracker \<Rightarrow> nat \<Rightarrow> BranchResult \<Rightarrow> bool \<times> FanOutTracker" where
  \<comment> \<open>the first component: the waiters are notified\<close>
  "record_branch_result t branch_id result =
     (let t1 = t\<lparr>ft_results := ft_results t @ [(branch_id, result)], ft_completed := ft_completed t + 1\<rparr>
      in (ft_completed t1 \<ge> ft_total t1, t1))"

definition wait_ready :: "FanOutTracker \<Rightarrow> bool" where
  "wait_ready t \<longleftrightarrow> ft_completed t \<ge> ft_total t \<and> ft_completed t > 0"

section \<open>Slots and configuration\<close>

record FanOutSlotManager =
  sm_available :: nat
  sm_max_slots :: nat
  sm_topic :: string

definition FanOutSlotManager_new :: "u8 \<Rightarrow> string \<Rightarrow> FanOutSlotManager" where
  "FanOutSlotManager_new max_fan_out topic =
     (let m = min (unat max_fan_out) 64 in \<lparr>sm_available = m, sm_max_slots = m, sm_topic = topic\<rparr>)"

definition acquire :: "FanOutSlotManager \<Rightarrow> FanOutSlotManager option" where
  \<comment> \<open>waits without a free permit (\<open>None\<close>); the permit it gets is dropped on return\<close>
  "acquire m = (if sm_available m = 0 then None
     else Some (let held = m\<lparr>sm_available := sm_available m - 1\<rparr> in held\<lparr>sm_available := sm_available held + 1\<rparr>))"

record FanOutConfig =
  fc_sinks :: "SinkConfig list"
  fc_max_fan_out :: u8
  fc_slot_manager :: "FanOutSlotManager option"

definition FanOutConfig_is_exhausted :: "FanOutConfig \<Rightarrow> bool" where
  "FanOutConfig_is_exhausted c = (case fc_slot_manager c of Some m \<Rightarrow> sm_available m = 0 | None \<Rightarrow> False)"

definition register_into_consumer ::
  "string \<Rightarrow> string list \<Rightarrow> u8 \<Rightarrow> nat \<Rightarrow> (string \<times> string \<times> FanOutConfig) list \<times> (string \<times> nat) \<times> nat" where
  \<comment> \<open>the registrations (topic, handler name, configuration), the answer (group, identifier), and the
    global counter, which starts at 1\<close>
  "register_into_consumer group_name sink_topics max_degree counter =
     (map (\<lambda>t. (t, group_name @ ''['' @ t @ '']'', \<lparr>fc_sinks = [], fc_max_fan_out = max_degree, fc_slot_manager = None\<rparr>))
        sink_topics, (group_name, counter), counter + 1)"

section \<open>Branches\<close>

fun branch_result :: "ExecutionResult \<Rightarrow> BranchResult" where
  "branch_result ExOk = BrOk"
| "branch_result (ExError reason exception tb) = BrError reason exception"
| "branch_result (ExTimeout info) = BrTimeout (timeout_ms info)"
| "branch_result (ExRejected reason text) = BrError (Terminal HandlerPanic) ''Rejected''"

fun hex_digit :: "nat \<Rightarrow> char" where
  "hex_digit n = (if n < 10 then char_of (48 + n) else char_of (87 + n))"

fun encode_hex :: "bytes \<Rightarrow> string" where
  "encode_hex [] = []"
| "encode_hex (b # bs) = hex_digit (unat b div 16) # hex_digit (unat b mod 16) # encode_hex bs"

definition branch_context ::
  "OwnedMessage \<Rightarrow> nat \<Rightarrow> string \<Rightarrow> string option \<Rightarrow> bytes \<Rightarrow> bytes \<Rightarrow> nat \<Rightarrow> nat \<Rightarrow> ExecutionContext" where
  \<comment> \<open>random bytes for a missing trace id and for the span id\<close>
  "branch_context msg worker_id sink_topic parent_trace rnd16 rnd8 branch_id fan_out_id =
     ExecutionContext_with_trace sink_topic (msg_partition msg) (msg_offset msg) worker_id
       \<lparr>tr_trace_id = Some (case parent_trace of Some t \<Rightarrow> t | None \<Rightarrow> encode_hex rnd16),
        tr_span_id = Some (encode_hex rnd8), tr_trace_flags = Some ''01''\<rparr>
       (Some branch_id) (Some fan_out_id) ''''"

fun branch_failure :: "BranchResult \<Rightarrow> (string \<times> nat option) option" where
  "branch_failure BrOk = None"
| "branch_failure (BrError reason exception) = Some (exception, None)"
| "branch_failure (BrTimeout ms) = Some (''sink timeout after '' @ show_nat ms @ ''ms'', Some ms)"

definition branch_letter ::
  "env \<Rightarrow> router \<Rightarrow> OwnedMessage \<Rightarrow> nat \<Rightarrow> SharedDlqProducer \<Rightarrow> (nat \<times> BranchResult) \<times> string \<Rightarrow> SharedDlqProducer" where
  "branch_letter e rt msg fan_out_id p = (\<lambda>((branch_id, result), sink_topic).
     case branch_failure result of
       None \<Rightarrow> p
     | Some (exception, timeout) \<Rightarrow>
         produce_letter e rt p msg
           (DlqMetadata_new sink_topic (msg_partition msg) (msg_offset msg) exception 1 (utc_now e 0) (utc_now e 1)
              timeout None (Some branch_id) (Some fan_out_id)))"

definition fan_out_letters ::
  "env \<Rightarrow> router \<Rightarrow> OwnedMessage \<Rightarrow> nat \<Rightarrow> string list \<Rightarrow> (nat \<times> BranchResult) list \<Rightarrow> SharedDlqProducer \<Rightarrow> SharedDlqProducer" where
  \<comment> \<open>results in the order they were recorded, paired with the sinks in the order of the configuration\<close>
  "fan_out_letters e rt msg fan_out_id sink_topics results p =
     foldl (branch_letter e rt msg fan_out_id) p (zip results sink_topics)"

section \<open>Branches and the waiting task\<close>

datatype waiter = Checking | Unsubscribed | Waiting | Returned "(nat \<times> BranchResult) list"

record fan_out =
  fo_tracker :: FanOutTracker
  fo_todo :: "string list"
  fo_running :: "nat list"
  fo_waiter :: waiter

text \<open>
  A branch registers inside its own task, after it was spawned; it then records its result. The
  waiter checks the counters, and if they are not ready subscribes to the notification, which
  wakes only those already waiting. The push of a result and the increment of the counter are one
  step here, as are the waiter's test and its copy of the results.
\<close>

inductive fan_out_step :: "fan_out \<Rightarrow> fan_out \<Rightarrow> bool" where
  start: "fo_todo f = sink # rest \<Longrightarrow> register_branch (fo_tracker f) = (b, t)
    \<Longrightarrow> fan_out_step f (f\<lparr>fo_todo := rest, fo_running := fo_running f @ [b], fo_tracker := t\<rparr>)"
| finish: "fo_running f = xs @ b # ys \<Longrightarrow> record_branch_result (fo_tracker f) b result = (notify, t)
    \<Longrightarrow> fan_out_step f (f\<lparr>fo_running := xs @ ys, fo_tracker := release_slot t,
          fo_waiter := (if notify \<and> fo_waiter f = Waiting then Checking else fo_waiter f)\<rparr>)"
| check_done: "fo_waiter f = Checking \<Longrightarrow> wait_ready (fo_tracker f)
    \<Longrightarrow> fan_out_step f (f\<lparr>fo_waiter := Returned (ft_results (fo_tracker f))\<rparr>)"
| check_not: "fo_waiter f = Checking \<Longrightarrow> \<not> wait_ready (fo_tracker f)
    \<Longrightarrow> fan_out_step f (f\<lparr>fo_waiter := Unsubscribed\<rparr>)"
| subscribe: "fo_waiter f = Unsubscribed \<Longrightarrow> fan_out_step f (f\<lparr>fo_waiter := Waiting\<rparr>)"

definition fan_out_start :: "u8 \<Rightarrow> string list \<Rightarrow> fan_out" where
  "fan_out_start max_degree sinks =
     \<lparr>fo_tracker = FanOutTracker_new max_degree, fo_todo = sinks, fo_running = [], fo_waiter = Checking\<rparr>"

definition process_fan_out :: "FanOutConfig option \<Rightarrow> nat \<Rightarrow> (nat \<times> fan_out) option \<times> nat" where
  \<comment> \<open>the fan-out it starts, with its identifier, and the global counter\<close>
  "process_fan_out config counter =
     (case config of
        None \<Rightarrow> (None, counter)
      | Some c \<Rightarrow>
          if FanOutConfig_is_exhausted c then (None, counter)
          else (Some (counter, fan_out_start (fc_max_fan_out c) (map sk_topic (fc_sinks c))), counter + 1))"

inductive_cases fan_out_stepE: "fan_out_step f f'"

section \<open>Lemmas\<close>

definition started :: "string list \<Rightarrow> fan_out \<Rightarrow> nat" where
  "started sinks f = length sinks - length (fo_todo f)"

definition fan_out_inv :: "string list \<Rightarrow> fan_out \<Rightarrow> bool" where
  "fan_out_inv sinks f \<longleftrightarrow> length (fo_todo f) \<le> length sinks
     \<and> unat (ft_total (fo_tracker f)) = started sinks f
     \<and> unat (ft_completed (fo_tracker f)) = length (ft_results (fo_tracker f))
     \<and> length (ft_results (fo_tracker f)) + length (fo_running f) = started sinks f
     \<and> (\<forall>rs. fo_waiter f = Returned rs \<longrightarrow> rs \<noteq> [] \<and> length rs \<le> length (ft_results (fo_tracker f)))"

lemma u8_succ: "unat (a :: u8) < 255 \<Longrightarrow> unat (a + 1) = unat a + 1"
  by (rule unat_succ_no_wrap) simp

lemma fan_out_inv_step:
  assumes "fan_out_step f f'" "fan_out_inv sinks f" "length sinks < 256"
  shows "fan_out_inv sinks f'"
  using assms(1)
proof cases
  case (start sink rest b t)
  have "unat (ft_total (fo_tracker f)) < 255"
    using start(2) assms(2,3) by (simp add: fan_out_inv_def started_def)
  then have "unat (ft_total (fo_tracker f) + 1) = unat (ft_total (fo_tracker f)) + 1" by (rule u8_succ)
  with start assms(2) show ?thesis
    by (auto simp: fan_out_inv_def register_branch_def started_def)
next
  case (finish xs b ys result notify t)
  have "unat (ft_completed (fo_tracker f)) < 255"
    using finish(2) assms(2,3) by (auto simp: fan_out_inv_def started_def)
  then have "unat (ft_completed (fo_tracker f) + 1) = unat (ft_completed (fo_tracker f)) + 1" by (rule u8_succ)
  with finish assms(2) show ?thesis
    by (auto simp: fan_out_inv_def record_branch_result_def release_slot_def started_def Let_def split: if_splits)
next
  case check_done
  then show ?thesis using assms(2)
    by (auto simp: fan_out_inv_def wait_ready_def started_def word_gt_0 unat_eq_zero)
next
  case check_not
  then show ?thesis using assms(2) by (auto simp: fan_out_inv_def started_def)
next
  case subscribe
  then show ?thesis using assms(2) by (auto simp: fan_out_inv_def started_def)
qed

lemma fan_out_inv_reachable:
  assumes "fan_out_step\<^sup>*\<^sup>* (fan_out_start max_degree sinks) f" "length sinks < 256"
  shows "fan_out_inv sinks f"
  using assms(1)
proof (induction rule: rtranclp_induct)
  case base
  then show ?case by (simp add: fan_out_inv_def fan_out_start_def FanOutTracker_new_def started_def)
next
  case (step f f')
  then show ?case using fan_out_inv_step assms(2) by blast
qed

lemma fan_out_idle_inv:
  "fan_out_step\<^sup>*\<^sup>* (fan_out_start max_degree []) f \<Longrightarrow>
     fo_todo f = [] \<and> fo_running f = [] \<and> ft_completed (fo_tracker f) = 0 \<and> (\<forall>rs. fo_waiter f \<noteq> Returned rs)"
proof (induction rule: rtranclp_induct)
  case base
  then show ?case by (simp add: fan_out_start_def FanOutTracker_new_def)
next
  case (step f f')
  then show ?case by (auto elim!: fan_out_stepE simp: wait_ready_def)
qed

section \<open>Properties of fan-out\<close>


definition fan_out_one_done :: fan_out where
  \<comment> \<open>of two sinks, the first has reported before the second has started\<close>
  "fan_out_one_done =
     \<lparr>fo_tracker = \<lparr>ft_max_fan_out = 4, ft_sinks = [], ft_inflight = - 1,
        ft_callback_registry = CallbackRegistry_new, ft_total = 1, ft_completed = 1, ft_results = [(0, BrOk)]\<rparr>,
      fo_todo = [''b''], fo_running = [], fo_waiter = Checking\<rparr>"

lemma fan_out_one_done_reached: "fan_out_step\<^sup>*\<^sup>* (fan_out_start 4 [''a'', ''b'']) fan_out_one_done"
proof -
  let ?f0 = "fan_out_start 4 [''a'', ''b'']"
  have s1: "fan_out_step ?f0 (?f0\<lparr>fo_todo := [''b''], fo_running := [0],
      fo_tracker := (fo_tracker ?f0)\<lparr>ft_total := 1\<rparr>\<rparr>)" (is "fan_out_step _ ?f1")
    using start [of ?f0 "''a''" "[''b'']" 0 "(fo_tracker ?f0)\<lparr>ft_total := 1\<rparr>"]
    by (simp add: fan_out_start_def FanOutTracker_new_def register_branch_def)
  have s2: "fan_out_step ?f1 fan_out_one_done"
    using finish [of ?f1 "[]" 0 "[]" BrOk True]
    by (simp add: fan_out_start_def FanOutTracker_new_def record_branch_result_def release_slot_def
        fan_out_one_done_def min_def)
  from s1 s2 show ?thesis by (meson converse_rtranclp_into_rtranclp rtranclp.rtrancl_refl)
qed


text \<open>
  Three hazards of waiting for branches. The waiter can return while a sink has
  not even started, because branches register inside their own tasks. It can wait for ever
  although every branch has reported, because the last report may come between its check and its
  subscription. And a fan-out without sinks, which is the configuration that group registration
  builds, never ends the wait.
\<close>

lemma wait_all_hazards:
  "(\<exists>f rs. fan_out_step\<^sup>*\<^sup>* (fan_out_start 4 [''a'', ''b'']) f \<and> fo_waiter f = Returned rs \<and> fo_todo f = [''b''])
   \<and> (\<exists>f. fan_out_step\<^sup>*\<^sup>* (fan_out_start 4 [''a'']) f \<and> fo_todo f = [] \<and> fo_running f = []
        \<and> length (ft_results (fo_tracker f)) = 1 \<and> fo_waiter f = Waiting \<and> (\<nexists>f'. fan_out_step f f'))
   \<and> (\<nexists>f rs. fan_out_step\<^sup>*\<^sup>* (fan_out_start 4 []) f \<and> fo_waiter f = Returned rs)"
proof (intro conjI)
  have "fan_out_step fan_out_one_done (fan_out_one_done\<lparr>fo_waiter := Returned [(0, BrOk)]\<rparr>)"
    using check_done [of fan_out_one_done] by (simp add: fan_out_one_done_def wait_ready_def)
  with fan_out_one_done_reached
  show "\<exists>f rs. fan_out_step\<^sup>*\<^sup>* (fan_out_start 4 [''a'', ''b'']) f \<and> fo_waiter f = Returned rs \<and> fo_todo f = [''b'']"
    by (intro exI [of _ "fan_out_one_done\<lparr>fo_waiter := Returned [(0, BrOk)]\<rparr>"] exI [of _ "[(0, BrOk)]"])
      (auto simp: fan_out_one_done_def)
next
  let ?f0 = "fan_out_start 4 [''a'']"
  let ?f1 = "?f0\<lparr>fo_waiter := Unsubscribed\<rparr>"
  let ?f2 = "?f1\<lparr>fo_todo := [], fo_running := [0], fo_tracker := (fo_tracker ?f0)\<lparr>ft_total := 1\<rparr>\<rparr>"
  let ?f3 = "?f2\<lparr>fo_running := [], fo_tracker := (fo_tracker ?f2)\<lparr>ft_results := [(0, BrOk)], ft_completed := 1,
      ft_inflight := - 1\<rparr>\<rparr>"
  let ?f4 = "?f3\<lparr>fo_waiter := Waiting\<rparr>"
  have "fan_out_step ?f0 ?f1"
    by (rule check_not) (simp_all add: fan_out_start_def FanOutTracker_new_def wait_ready_def)
  moreover have "fan_out_step ?f1 ?f2"
    using start [of ?f1 "''a''" "[]" 0 "(fo_tracker ?f0)\<lparr>ft_total := 1\<rparr>"]
    by (simp add: fan_out_start_def FanOutTracker_new_def register_branch_def)
  moreover have "fan_out_step ?f2 ?f3"
    using finish [of ?f2 "[]" 0 "[]" BrOk True]
    by (simp add: fan_out_start_def FanOutTracker_new_def record_branch_result_def release_slot_def)
  moreover have "fan_out_step ?f3 ?f4" by (rule subscribe) simp
  ultimately have "fan_out_step\<^sup>*\<^sup>* ?f0 ?f4" by (meson rtranclp.rtrancl_refl rtranclp.rtrancl_into_rtrancl)
  moreover have "\<nexists>f'. fan_out_step ?f4 f'" by (auto elim!: fan_out_stepE)
  ultimately show "\<exists>f. fan_out_step\<^sup>*\<^sup>* (fan_out_start 4 [''a'']) f \<and> fo_todo f = [] \<and> fo_running f = []
      \<and> length (ft_results (fo_tracker f)) = 1 \<and> fo_waiter f = Waiting \<and> (\<nexists>f'. fan_out_step f f')"
    by (intro exI [of _ ?f4]) simp
next
  show "\<nexists>f rs. fan_out_step\<^sup>*\<^sup>* (fan_out_start 4 []) f \<and> fo_waiter f = Returned rs"
    using fan_out_idle_inv by blast
qed

text \<open>
  Failures are attributed by position: results come in the order in which branches
  finished, sinks in the order of the configuration. When the second of two sinks fails first,
  its dead letter goes to the dead-letter topic of the first.
\<close>

lemma branch_failure_misattributed:
  "map dlq_topic (dlq_queue (fan_out_letters plain_env (route with_default_prefix) (sample_message ''t'' 7) 1
      [''a'', ''b''] [(1, BrTimeout 500), (0, BrOk)] SharedDlqProducer_new)) = [''dlq.a'']"
  by (simp add: fan_out_letters_def branch_letter_def produce_letter_def produce_async_def plain_env_def
      SharedDlqProducer_new_def DLQ_CHANNEL_CAPACITY_def route_def with_default_prefix_def
      DefaultDlqRouter_new_def DlqMetadata_new_def Let_def)

end
