(* ===== verification/Handlers.thy ===== *)
theory Handlers
  imports FanOut Config
begin

text \<open>
  Python handlers (\<^verbatim>\<open>src/execution/callback.rs\<close>), the middleware around them
  (\<^verbatim>\<open>src/middleware/\<close>), their concurrency limits (\<^verbatim>\<open>src/worker_pool/concurrency.rs\<close>) and their
  registration with a consumer (\<^verbatim>\<open>src/consumer/runtime.rs\<close>, the handler map of
  \<^verbatim>\<open>src/runtime/builder.rs\<close>). What a Python callable answers to which arguments, and how long it
  takes, is a parameter; so are the type name and the hooks of a middleware object.
\<close>

section \<open>Values handed to Python\<close>

datatype py_value =
    PyStr string
  | PyInt int
  | PyBytes "bytes option"
  | PyHeaders "header list"
  | PyMap "string \<rightharpoonup> string"

type_synonym py_dict = "string \<rightharpoonup> py_value"

fun timestamp_or_zero :: "MessageTimestamp \<Rightarrow> i64" where
  "timestamp_or_zero NotAvailable = 0"
| "timestamp_or_zero (CreateTime ts) = ts"
| "timestamp_or_zero (LogAppendTime ts) = ts"

definition message_to_pydict :: "OwnedMessage \<Rightarrow> (string \<rightharpoonup> string) option \<Rightarrow> py_dict" where
  "message_to_pydict m trace_context =
     (let d = [''topic'' \<mapsto> PyStr (msg_topic m), ''partition'' \<mapsto> PyInt (msg_partition m),
               ''offset'' \<mapsto> PyInt (msg_offset m), ''key'' \<mapsto> PyBytes (msg_key m),
               ''payload'' \<mapsto> PyBytes (msg_payload m),
               ''timestamp'' \<mapsto> PyInt (timestamp_or_zero (msg_timestamp m)),
               ''headers'' \<mapsto> PyHeaders (msg_headers m)]
      in case trace_context of Some t \<Rightarrow> d(''_trace_context'' \<mapsto> PyMap t) | None \<Rightarrow> d)"

definition set_some :: "string \<Rightarrow> string option \<Rightarrow> py_dict \<Rightarrow> py_dict" where
  "set_some k v d = (case v of Some s \<Rightarrow> d(k \<mapsto> PyStr s) | None \<Rightarrow> d)"

definition set_trace :: "TraceContext \<Rightarrow> py_dict \<Rightarrow> py_dict" where
  "set_trace t d = set_some ''trace_flags'' (tr_trace_flags t)
     (set_some ''span_id'' (tr_span_id t) (set_some ''trace_id'' (tr_trace_id t) d))"

definition ctx_to_pydict :: "ExecutionContext \<Rightarrow> OwnedMessage \<Rightarrow> py_dict" where
  "ctx_to_pydict ctx m =
     (set_trace (ctx_trace ctx)
       [''topic'' \<mapsto> PyStr (ctx_topic ctx), ''partition'' \<mapsto> PyInt (ctx_partition ctx),
        ''offset'' \<mapsto> PyInt (ctx_offset ctx), ''timestamp'' \<mapsto> PyInt (timestamp_or_zero (msg_timestamp m)),
        ''headers'' \<mapsto> PyHeaders (msg_headers m)])(''source_topic'' \<mapsto> PyStr (ctx_source_topic ctx))"

definition middleware_ctx_to_pydict :: "ExecutionContext \<Rightarrow> py_dict" where
  "middleware_ctx_to_pydict ctx = set_trace (ctx_trace ctx)
     [''topic'' \<mapsto> PyStr (ctx_topic ctx), ''partition'' \<mapsto> PyInt (ctx_partition ctx),
      ''offset'' \<mapsto> PyInt (ctx_offset ctx), ''worker_id'' \<mapsto> PyInt (int (ctx_worker_id ctx))]"

section \<open>Handlers\<close>

datatype HandlerMode = SingleSync | BatchSync

fun HandlerMode_str :: "HandlerMode \<Rightarrow> string" where
  "HandlerMode_str SingleSync = ''SingleSync''"
| "HandlerMode_str BatchSync = ''BatchSync''"

definition from_opt_str :: "string option \<Rightarrow> HandlerMode" where
  "from_opt_str s = (if s = Some ''batch_sync'' then BatchSync else SingleSync)"

record BatchPolicy =
  max_batch_size :: nat
  max_batch_wait_ms :: nat

definition BatchPolicy_default :: BatchPolicy where
  "BatchPolicy_default = \<lparr>max_batch_size = 1, max_batch_wait_ms = 0\<rparr>"

record PythonHandler =
  ph_callback :: nat
  ph_retry_policy :: "RetryPolicy option"
  ph_mode :: HandlerMode
  ph_batch_policy :: "BatchPolicy option"
  ph_timeout :: "duration option"
  ph_name :: string
  ph_middleware :: "nat list option"
  ph_fan_out :: "FanOutConfig option"

text \<open>Callables and middleware objects are identified by numbers.\<close>

definition PythonHandler_new ::
  "nat \<Rightarrow> RetryPolicy option \<Rightarrow> HandlerMode \<Rightarrow> BatchPolicy option \<Rightarrow> duration option \<Rightarrow> string
   \<Rightarrow> nat list option \<Rightarrow> PythonHandler" where
  "PythonHandler_new callback policy mode batch timeout name mw =
     \<lparr>ph_callback = callback, ph_retry_policy = policy, ph_mode = mode, ph_batch_policy = batch,
      ph_timeout = timeout, ph_name = name, ph_middleware = mw, ph_fan_out = None\<rparr>"

definition set_fan_out :: "PythonHandler \<Rightarrow> FanOutConfig \<Rightarrow> PythonHandler" where
  "set_fan_out h c = h\<lparr>ph_fan_out := Some c\<rparr>"

section \<open>Invocation\<close>

record py_error =
  pe_repr :: string
  pe_text :: string
  pe_type :: "string option"

datatype py_answer = PyReturned | PyRaised py_error | PyPanicked

datatype py_args = CallOne py_dict py_dict | CallBatch "py_dict list"

text \<open>
  A call answers after some time, or never (\<open>None\<close>). \<open>PyPanicked\<close> is the failure of the
  blocking task that makes the call.
\<close>

type_synonym python = "nat \<Rightarrow> py_args \<Rightarrow> py_answer \<times> duration option"

fun result_of :: "py_answer \<Rightarrow> ExecutionResult" where
  "result_of PyReturned = ExOk"
| "result_of (PyRaised err) =
     ExError (classify (pe_repr err) (pe_text err)) (case pe_type err of Some n \<Rightarrow> n | None \<Rightarrow> ''Unknown'') (pe_text err)"
| "result_of PyPanicked = ExError (Terminal HandlerPanic) ''Panic'' ''spawn_blocking task panicked''"

definition invoke ::
  "python \<Rightarrow> (bytes \<Rightarrow> string) \<Rightarrow> PythonHandler \<Rightarrow> ExecutionContext \<Rightarrow> OwnedMessage
   \<Rightarrow> ExecutionResult \<times> duration option" where
  "invoke py utf8 h ctx m =
     (let trace_context = inject_trace_context (header_map utf8 (msg_headers m)) Map.empty;
          (answer, time) = py (ph_callback h) (CallOne (message_to_pydict m (Some trace_context)) (ctx_to_pydict ctx m))
      in (result_of answer, time))"

fun batch_result_of :: "OwnedMessage list \<Rightarrow> py_answer \<Rightarrow> BatchExecutionResult" where
  "batch_result_of ms PyReturned = AllSuccess (map msg_offset ms)"
| "batch_result_of ms (PyRaised err) = AllFailure (classify (pe_repr err) (pe_text err))"
| "batch_result_of ms PyPanicked = AllFailure (Terminal HandlerPanic)"

definition invoke_batch ::
  "python \<Rightarrow> (bytes \<Rightarrow> string) \<Rightarrow> PythonHandler \<Rightarrow> ExecutionContext \<Rightarrow> OwnedMessage list
   \<Rightarrow> BatchExecutionResult \<times> duration option" where
  \<comment> \<open>every message of the batch carries the trace context of the first\<close>
  "invoke_batch py utf8 h ctx ms =
     (let headers = (case ms of [] \<Rightarrow> Map.empty | m # _ \<Rightarrow> header_map utf8 (msg_headers m));
          trace_context = inject_trace_context headers Map.empty;
          (answer, time) = py (ph_callback h) (CallBatch (map (\<lambda>m. message_to_pydict m (Some trace_context)) ms))
      in (batch_result_of ms answer, time))"

definition invoke_mode_batch ::
  "python \<Rightarrow> (bytes \<Rightarrow> string) \<Rightarrow> PythonHandler \<Rightarrow> ExecutionContext \<Rightarrow> OwnedMessage list
   \<Rightarrow> (BatchExecutionResult \<times> duration option) res" where
  "invoke_mode_batch py utf8 h ctx ms =
     (case ph_mode h of BatchSync \<Rightarrow> Inr (invoke_batch py utf8 h ctx ms)
      | SingleSync \<Rightarrow> Inl (Panic ''invoke_mode_batch only valid for batch modes''))"

fun single_of_batch :: "BatchExecutionResult \<Rightarrow> ExecutionResult" where
  "single_of_batch (AllSuccess _) = ExOk"
| "single_of_batch (AllFailure reason) = ExError reason ''BatchHandlerError'' ''Batch handler failed''"

definition invoke_mode ::
  "python \<Rightarrow> (bytes \<Rightarrow> string) \<Rightarrow> PythonHandler \<Rightarrow> ExecutionContext \<Rightarrow> OwnedMessage
   \<Rightarrow> ExecutionResult \<times> duration option" where
  "invoke_mode py utf8 h ctx m =
     (case ph_mode h of
        SingleSync \<Rightarrow> invoke py utf8 h ctx m
      | BatchSync \<Rightarrow> (let (result, time) = invoke_batch py utf8 h ctx [m] in (single_of_batch result, time)))"

definition timed :: "duration \<Rightarrow> duration option \<Rightarrow> ExecutionResult \<times> duration option \<Rightarrow> (ExecutionResult \<times> duration) option" where
  \<comment> \<open>\<open>tokio::time::timeout\<close>, whose timer fires \<open>late\<close> after the deadline: the result and the time
    passed, or no answer at all\<close>
  "timed late timeout call =
     (case timeout of
        None \<Rightarrow> map_option (\<lambda>time. (fst call, time)) (snd call)
      | Some t \<Rightarrow>
          let expired = (ExTimeout \<lparr>timeout_ms = t div 1000000 mod 2 ^ 64, last_processed_offset = None\<rparr>, t + late)
          in case snd call of
               None \<Rightarrow> Some expired
             | Some time \<Rightarrow> Some (if time \<le> t + late then (fst call, time) else expired))"

section \<open>Middleware\<close>

datatype Middleware = LoggingMw | MetricsMw | PythonMw nat

datatype mw_effect =
    MwLog log_level string
  | MwLatency "(string \<times> string) list" duration
  | MwThroughput string string string
  | MwErrorCount "(string \<times> string) list"
  | MwCall nat string py_dict "string list" "nat list"

text \<open>
  The last two arguments of a call into a middleware object are the result label and the elapsed
  milliseconds, where the hook takes them.
\<close>

definition build_middleware_chain :: "(nat \<Rightarrow> string) \<Rightarrow> nat list \<Rightarrow> Middleware list" where
  "build_middleware_chain type_name mws =
     map (\<lambda>i. if type_name i = ''Logging'' then LoggingMw
              else if type_name i = ''Metrics'' then MetricsMw else PythonMw i) mws"

definition place_text :: "ExecutionContext \<Rightarrow> string" where
  "place_text ctx = ''handler_id='' @ ctx_topic ctx @ '' topic='' @ ctx_topic ctx @ '' partition=''
     @ show_int (ctx_partition ctx) @ '' offset='' @ show_int (ctx_offset ctx)"

definition mw_labels :: "ExecutionContext \<Rightarrow> (string \<times> string) list" where
  "mw_labels ctx = [(''handler_id'', ctx_topic ctx), (''topic'', ctx_topic ctx)]"

definition logging_before :: "ExecutionContext \<Rightarrow> mw_effect list" where
  "logging_before ctx = [MwLog LInfo (''handler middleware: before: '' @ place_text ctx)]"

definition logging_after :: "ExecutionContext \<Rightarrow> ExecutionResult \<Rightarrow> duration \<Rightarrow> mw_effect list" where
  "logging_after ctx result elapsed =
     [MwLog LInfo (''handler middleware: after: '' @ place_text ctx @ '' elapsed_ms='' @ show_nat (elapsed div 1000000)
        @ '' result='' @ error_type_label result)]"

definition logging_on_error :: "ExecutionContext \<Rightarrow> ExecutionResult \<Rightarrow> mw_effect list" where
  "logging_on_error ctx result =
     [MwLog LError (''handler middleware: error: '' @ place_text ctx @ '' error_type='' @ error_type_label result)]"

definition metrics_after :: "ExecutionContext \<Rightarrow> ExecutionResult \<Rightarrow> duration \<Rightarrow> mw_effect list" where
  "metrics_after ctx result elapsed =
     MwLatency (mw_labels ctx) elapsed
     # (if is_ok result then [MwThroughput (ctx_topic ctx) (ctx_topic ctx) ''SingleSync''] else [])"

definition metrics_on_error :: "ExecutionContext \<Rightarrow> mw_effect list" where
  "metrics_on_error ctx = [MwErrorCount (mw_labels ctx)]"

definition python_before :: "(nat \<Rightarrow> string \<Rightarrow> bool) \<Rightarrow> nat \<Rightarrow> ExecutionContext \<Rightarrow> mw_effect list" where
  "python_before has_hook i ctx =
     (if has_hook i ''before'' then [MwCall i ''before'' (middleware_ctx_to_pydict ctx) [] []] else [])"

definition python_after :: "(nat \<Rightarrow> string \<Rightarrow> bool) \<Rightarrow> nat \<Rightarrow> ExecutionContext \<Rightarrow> ExecutionResult \<Rightarrow> duration \<Rightarrow> mw_effect list" where
  "python_after has_hook i ctx result elapsed =
     (if has_hook i ''after''
      then [MwCall i ''after'' (middleware_ctx_to_pydict ctx) [error_type_label result] [elapsed div 1000000]] else [])"

definition python_on_error :: "(nat \<Rightarrow> string \<Rightarrow> bool) \<Rightarrow> nat \<Rightarrow> ExecutionContext \<Rightarrow> ExecutionResult \<Rightarrow> mw_effect list" where
  "python_on_error has_hook i ctx result =
     (if has_hook i ''on_error''
      then [MwCall i ''on_error'' (middleware_ctx_to_pydict ctx) [error_type_label result] []] else [])"

text \<open>The hooks of the trait; a hook that an implementation leaves out does nothing.\<close>

fun mw_before :: "(nat \<Rightarrow> string \<Rightarrow> bool) \<Rightarrow> ExecutionContext \<Rightarrow> Middleware \<Rightarrow> mw_effect list" where
  "mw_before has_hook ctx LoggingMw = logging_before ctx"
| "mw_before has_hook ctx MetricsMw = []"
| "mw_before has_hook ctx (PythonMw i) = python_before has_hook i ctx"

fun mw_after :: "(nat \<Rightarrow> string \<Rightarrow> bool) \<Rightarrow> ExecutionContext \<Rightarrow> ExecutionResult \<Rightarrow> duration \<Rightarrow> Middleware \<Rightarrow> mw_effect list" where
  "mw_after has_hook ctx result elapsed LoggingMw = logging_after ctx result elapsed"
| "mw_after has_hook ctx result elapsed MetricsMw = metrics_after ctx result elapsed"
| "mw_after has_hook ctx result elapsed (PythonMw i) = python_after has_hook i ctx result elapsed"

fun mw_on_error :: "(nat \<Rightarrow> string \<Rightarrow> bool) \<Rightarrow> ExecutionContext \<Rightarrow> ExecutionResult \<Rightarrow> Middleware \<Rightarrow> mw_effect list" where
  "mw_on_error has_hook ctx result LoggingMw = logging_on_error ctx result"
| "mw_on_error has_hook ctx result MetricsMw = metrics_on_error ctx"
| "mw_on_error has_hook ctx result (PythonMw i) = python_on_error has_hook i ctx result"

lemmas hook_defs = logging_before_def logging_after_def logging_on_error_def metrics_after_def
  metrics_on_error_def python_before_def python_after_def python_on_error_def

definition before_all :: "(nat \<Rightarrow> string \<Rightarrow> bool) \<Rightarrow> Middleware list \<Rightarrow> ExecutionContext \<Rightarrow> mw_effect list" where
  "before_all has_hook chain ctx = concat (map (mw_before has_hook ctx) chain)"

definition after_all ::
  "(nat \<Rightarrow> string \<Rightarrow> bool) \<Rightarrow> Middleware list \<Rightarrow> ExecutionContext \<Rightarrow> ExecutionResult \<Rightarrow> duration \<Rightarrow> mw_effect list" where
  "after_all has_hook chain ctx result elapsed = concat (map (mw_after has_hook ctx result elapsed) (rev chain))"

definition on_error_all ::
  "(nat \<Rightarrow> string \<Rightarrow> bool) \<Rightarrow> Middleware list \<Rightarrow> ExecutionContext \<Rightarrow> ExecutionResult \<Rightarrow> mw_effect list" where
  "on_error_all has_hook chain ctx result = concat (map (mw_on_error has_hook ctx result) (rev chain))"

text \<open>
  The invocation of a handler with its middleware: the effects, and the result if there is one.
  The own timeout of a sink overrides the timeout of the handler.
\<close>

record invocation_env =
  ie_python :: python
  ie_utf8 :: "bytes \<Rightarrow> string"
  ie_type_name :: "nat \<Rightarrow> string"
  ie_has_hook :: "nat \<Rightarrow> string \<Rightarrow> bool"
  ie_late :: duration

definition invoke_mode_with_timeout_override ::
  "invocation_env \<Rightarrow> PythonHandler \<Rightarrow> ExecutionContext \<Rightarrow> OwnedMessage \<Rightarrow> duration option
   \<Rightarrow> mw_effect list \<times> ExecutionResult option" where
  "invoke_mode_with_timeout_override ie h ctx m timeout =
     (let chain = (case ph_middleware h of None \<Rightarrow> [] | Some ms \<Rightarrow> build_middleware_chain (ie_type_name ie) ms);
          pre = before_all (ie_has_hook ie) chain ctx;
          effective = (case timeout of Some t \<Rightarrow> Some t | None \<Rightarrow> ph_timeout h)
      in case timed (ie_late ie) effective (invoke_mode (ie_python ie) (ie_utf8 ie) h ctx m) of
           None \<Rightarrow> (pre, None)
         | Some (result, elapsed) \<Rightarrow>
             (pre @ (if is_ok result then after_all (ie_has_hook ie) chain ctx result elapsed
                     else on_error_all (ie_has_hook ie) chain ctx result), Some result))"

definition invoke_mode_with_timeout ::
  "invocation_env \<Rightarrow> PythonHandler \<Rightarrow> ExecutionContext \<Rightarrow> OwnedMessage \<Rightarrow> mw_effect list \<times> ExecutionResult option" where
  "invoke_mode_with_timeout ie h ctx m =
     (let chain = (case ph_middleware h of None \<Rightarrow> [] | Some ms \<Rightarrow> build_middleware_chain (ie_type_name ie) ms);
          pre = before_all (ie_has_hook ie) chain ctx
      in case timed (ie_late ie) (ph_timeout h) (invoke_mode (ie_python ie) (ie_utf8 ie) h ctx m) of
           None \<Rightarrow> (pre, None)
         | Some (result, elapsed) \<Rightarrow>
             (pre @ (if is_ok result then after_all (ie_has_hook ie) chain ctx result elapsed
                     else on_error_all (ie_has_hook ie) chain ctx result), Some result))"

section \<open>Concurrency limits\<close>

record HandlerConcurrency =
  hc_semaphores :: "string \<rightharpoonup> nat"
  hc_default_limit :: nat

text \<open>A semaphore is its number of free permits.\<close>

definition HandlerConcurrency_new :: "nat \<Rightarrow> HandlerConcurrency" where
  "HandlerConcurrency_new default_limit = \<lparr>hc_semaphores = Map.empty, hc_default_limit = default_limit\<rparr>"

definition with_default_limit :: "HandlerConcurrency \<Rightarrow> nat \<Rightarrow> HandlerConcurrency" where
  "with_default_limit c limit = c\<lparr>hc_default_limit := limit\<rparr>"

definition set_limit :: "HandlerConcurrency \<Rightarrow> string \<Rightarrow> nat \<Rightarrow> HandlerConcurrency" where
  "set_limit c handler_id limit = c\<lparr>hc_semaphores := (hc_semaphores c)(handler_id \<mapsto> limit)\<rparr>"

definition HandlerConcurrency_acquire :: "HandlerConcurrency \<Rightarrow> string \<Rightarrow> bool \<times> HandlerConcurrency" where
  \<comment> \<open>the first component: a permit was free; otherwise the caller waits, and the semaphore exists\<close>
  "HandlerConcurrency_acquire c handler_id =
     (let free = (case hc_semaphores c handler_id of Some n \<Rightarrow> n | None \<Rightarrow> hc_default_limit c)
      in (free > 0, c\<lparr>hc_semaphores := (hc_semaphores c)(handler_id \<mapsto> free - 1)\<rparr>))"

definition drop_permit :: "HandlerConcurrency \<Rightarrow> string \<Rightarrow> HandlerConcurrency" where
  \<comment> \<open>the end of the permit's scope in the worker loop\<close>
  "drop_permit c handler_id =
     c\<lparr>hc_semaphores := (hc_semaphores c)(handler_id := map_option Suc (hc_semaphores c handler_id))\<rparr>"

definition available :: "HandlerConcurrency \<Rightarrow> string \<Rightarrow> nat option" where
  "available c handler_id = hc_semaphores c handler_id"

definition concurrency_limits :: "nat \<Rightarrow> (string \<times> nat option) list \<Rightarrow> HandlerConcurrency" where
  \<comment> \<open>the assembly of the runtime: explicit limits that are positive, else the default\<close>
  "concurrency_limits default_limit metas =
     foldl (\<lambda>c (topic, limit). case limit of Some l \<Rightarrow> if l > 0 then set_limit c topic l else c | None \<Rightarrow> c)
       (HandlerConcurrency_new default_limit) metas"

section \<open>Registration\<close>

record ConsumerHandlerMetadata =
  meta_callback :: "nat option"
  meta_mode :: HandlerMode
  meta_batch_max_size :: "nat option"
  meta_batch_max_wait_ms :: "nat option"
  meta_timeout_ms :: "nat option"
  meta_concurrency :: "nat option"
  meta_middleware :: "nat list option"
  meta_fan_out_config :: "FanOutConfig option"

text \<open>No callback is the Python value \<open>None\<close> that marks a sink.\<close>

record PyConsumer =
  pc_handlers :: "string \<rightharpoonup> ConsumerHandlerMetadata"
  pc_fan_out_handlers :: "string \<rightharpoonup> PythonHandler"
  pc_cancelled :: bool

definition PyConsumer_new :: PyConsumer where
  "PyConsumer_new = \<lparr>pc_handlers = Map.empty, pc_fan_out_handlers = Map.empty, pc_cancelled = False\<rparr>"

definition add_handler ::
  "string option \<Rightarrow> string \<Rightarrow> nat \<Rightarrow> string option \<Rightarrow> nat option \<Rightarrow> nat option \<Rightarrow> nat option \<Rightarrow> nat option
   \<Rightarrow> nat list option \<Rightarrow> PyConsumer \<Rightarrow> PyConsumer" where
  \<comment> \<open>the first argument: the environment variable with the default mode\<close>
  "add_handler default_mode topic callback mode bsize bwait timeout concurrency mw c =
     c\<lparr>pc_handlers := (pc_handlers c)(topic \<mapsto>
       \<lparr>meta_callback = Some callback,
        meta_mode = from_opt_str (case mode of Some m \<Rightarrow> Some m | None \<Rightarrow> default_mode),
        meta_batch_max_size = bsize, meta_batch_max_wait_ms = bwait, meta_timeout_ms = timeout,
        meta_concurrency = concurrency, meta_middleware = mw, meta_fan_out_config = None\<rparr>)\<rparr>"

definition add_handler_with_fan_out :: "string \<Rightarrow> PythonHandler \<Rightarrow> FanOutConfig \<Rightarrow> PyConsumer \<Rightarrow> PyConsumer" where
  "add_handler_with_fan_out topic h config c =
     c\<lparr>pc_handlers := (pc_handlers c)(topic \<mapsto>
         \<lparr>meta_callback = None, meta_mode = SingleSync, meta_batch_max_size = None,
          meta_batch_max_wait_ms = None, meta_timeout_ms = None, meta_concurrency = None,
          meta_middleware = None, meta_fan_out_config = Some config\<rparr>),
       pc_fan_out_handlers := (pc_fan_out_handlers c)(topic \<mapsto> h)\<rparr>"

definition register_fanout ::
  "string \<Rightarrow> string list \<Rightarrow> nat \<Rightarrow> u8 option \<Rightarrow> nat option \<Rightarrow> nat \<Rightarrow> PyConsumer \<Rightarrow> (string \<times> nat) \<times> PyConsumer \<times> nat" where
  \<comment> \<open>the answer, the consumer and the global counter of groups\<close>
  "register_fanout group_name sink_topics callback max_fan_out timeout counter c =
     (let max_degree = min (case max_fan_out of Some n \<Rightarrow> n | None \<Rightarrow> 4) 64;
          (regs, answer, counter') = register_into_consumer group_name sink_topics max_degree counter
      in (answer,
          foldl (\<lambda>c (topic, name, config). add_handler_with_fan_out topic
                   (PythonHandler_new callback None (from_opt_str None) None (map_option from_millis timeout) name None)
                   config c) c regs,
          counter'))"

definition stop_consumer :: "PyConsumer \<Rightarrow> PyConsumer" where
  "stop_consumer c = c\<lparr>pc_cancelled := True\<rparr>"

definition resolve_timeout :: "nat option \<Rightarrow> nat option \<Rightarrow> duration option" where
  \<comment> \<open>the handler's own timeout, else the configured one\<close>
  "resolve_timeout handler_ms default_ms =
     (case map_option from_millis handler_ms of Some d \<Rightarrow> Some d | None \<Rightarrow> map_option from_millis default_ms)"

definition resolve_batch_policy :: "nat option \<Rightarrow> nat option \<Rightarrow> BatchPolicy option" where
  "resolve_batch_policy max_size max_wait_ms =
     map_option (\<lambda>n. \<lparr>max_batch_size = n, max_batch_wait_ms = (case max_wait_ms of Some w \<Rightarrow> w | None \<Rightarrow> 1000)\<rparr>) max_size"

definition default_concurrency :: "(string \<Rightarrow> nat option) \<Rightarrow> string option \<Rightarrow> nat" where
  \<comment> \<open>the environment variable, parsed, if positive\<close>
  "default_concurrency parse var =
     (case Option.bind var parse of Some v \<Rightarrow> if v > 0 then v else 4 | None \<Rightarrow> 4)"

definition handler_map :: "nat \<Rightarrow> RetryPolicy \<Rightarrow> nat option \<Rightarrow> PyConsumer \<Rightarrow> (string \<rightharpoonup> PythonHandler)" where
  \<comment> \<open>the first argument identifies Python's \<open>None\<close>\<close>
  "handler_map py_none policy default_ms c = (\<lambda>topic.
     map_option (\<lambda>meta. case pc_fan_out_handlers c topic of
         Some h \<Rightarrow> h
       | None \<Rightarrow> PythonHandler_new (case meta_callback meta of Some cb \<Rightarrow> cb | None \<Rightarrow> py_none) (Some policy)
                   (meta_mode meta) (resolve_batch_policy (meta_batch_max_size meta) (meta_batch_max_wait_ms meta))
                   (resolve_timeout (meta_timeout_ms meta) default_ms) topic (meta_middleware meta))
       (pc_handlers c topic))"

section \<open>Workers of the pool\<close>

datatype worker_kind = SingleWorker | BatchWorker PythonHandler

definition all_batch :: "string list \<Rightarrow> (string \<rightharpoonup> PythonHandler) \<Rightarrow> bool" where
  \<comment> \<open>the first argument: the keys of the map\<close>
  "all_batch ks handlers = list_all (\<lambda>k. map_option ph_mode (handlers k) = Some BatchSync) ks"

fun spawn_workers :: "bool \<Rightarrow> (string \<rightharpoonup> PythonHandler) \<Rightarrow> (nat \<times> string) list \<Rightarrow> (nat \<times> string \<times> worker_kind) list res" where
  "spawn_workers batch handlers [] = Inr []"
| "spawn_workers batch handlers ((i, topic) # rest) =
     res_bind (if batch
               then (case handlers topic of Some h \<Rightarrow> Inr (BatchWorker h)
                     | None \<Rightarrow> Inl (Panic ''handler must be registered for topic''))
               else Inr SingleWorker)
       (\<lambda>kind. res_bind (spawn_workers batch handlers rest) (\<lambda>ws. Inr ((i, topic, kind) # ws)))"

definition pool_new :: "nat \<Rightarrow> string list \<Rightarrow> string list \<Rightarrow> (string \<rightharpoonup> PythonHandler) \<Rightarrow> (nat \<times> string \<times> worker_kind) list res" where
  "pool_new n receivers ks handlers = spawn_workers (all_batch ks handlers) handlers (pool_assign n receivers)"

definition batch_worker_start :: "PythonHandler \<Rightarrow> batch_loop res" where
  "batch_worker_start h =
     (case ph_batch_policy h of
        None \<Rightarrow> Inl (Panic ''BatchSync requires batch_policy'')
      | Some p \<Rightarrow> Inr (batch_loop_new (max_batch_size p) (max_batch_wait_ms p)))"

section \<open>Lemmas on invocations\<close>

lemma invoke_mode_not_timeout [simp]: "\<not> is_timeout (fst (invoke_mode py utf8 h ctx m))"
proof -
  have "\<not> is_timeout (result_of a)" for a by (cases a) auto
  moreover have "\<not> is_timeout (single_of_batch b)" for b by (cases b) auto
  ultimately show ?thesis
    by (auto simp: invoke_mode_def invoke_def split: HandlerMode.splits prod.splits)
qed

lemma invoke_mode_middleware [simp]: "invoke_mode py utf8 (h\<lparr>ph_middleware := x\<rparr>) ctx m = invoke_mode py utf8 h ctx m"
  by (cases "ph_mode h") (simp_all add: invoke_mode_def invoke_def invoke_batch_def)

lemma invocation_result:
  "snd (invoke_mode_with_timeout ie h ctx m) =
     map_option fst (timed (ie_late ie) (ph_timeout h) (invoke_mode (ie_python ie) (ie_utf8 ie) h ctx m))"
  by (simp add: invoke_mode_with_timeout_def Let_def split: option.split)

lemma override_none: "invoke_mode_with_timeout_override ie h ctx m None = invoke_mode_with_timeout ie h ctx m"
  by (simp add: invoke_mode_with_timeout_override_def invoke_mode_with_timeout_def)

text \<open>Only the calls into middleware objects: which object, which hook.\<close>

fun hook_of :: "mw_effect \<Rightarrow> (nat \<times> string) list" where
  "hook_of (MwCall i hook d labels ms) = [(i, hook)]"
| "hook_of _ = []"

definition hooks :: "mw_effect list \<Rightarrow> (nat \<times> string) list" where
  "hooks es = concat (map hook_of es)"

lemma hooks_append [simp]: "hooks (xs @ ys) = hooks xs @ hooks ys"
  by (simp add: hooks_def)

lemma hooks_concat: "(\<And>x. x \<in> set xs \<Longrightarrow> hooks (f x) = [g x]) \<Longrightarrow> hooks (concat (map f xs)) = map g xs"
  by (induction xs) (simp_all add: hooks_def)

definition custom_mw :: "invocation_env \<Rightarrow> nat \<Rightarrow> bool" where
  "custom_mw ie i \<longleftrightarrow> ie_type_name ie i \<noteq> ''Logging'' \<and> ie_type_name ie i \<noteq> ''Metrics''
     \<and> list_all (ie_has_hook ie i) [''before'', ''after'', ''on_error'']"

lemma chain_custom:
  "\<forall>i\<in>set ms. custom_mw ie i \<Longrightarrow> build_middleware_chain (ie_type_name ie) ms = map PythonMw ms"
  by (induction ms) (auto simp: build_middleware_chain_def custom_mw_def)

lemma custom_hooks:
  assumes "\<forall>i\<in>set ms. custom_mw ie i"
  shows "hooks (before_all (ie_has_hook ie) (map PythonMw ms) ctx) = map (\<lambda>i. (i, ''before'')) ms"
    and "hooks (after_all (ie_has_hook ie) (map PythonMw ms) ctx r d) = map (\<lambda>i. (i, ''after'')) (rev ms)"
    and "hooks (on_error_all (ie_has_hook ie) (map PythonMw ms) ctx r) = map (\<lambda>i. (i, ''on_error'')) (rev ms)"
  using assms
  by (auto simp: before_all_def after_all_def on_error_all_def custom_mw_def rev_map o_def hooks_def hook_defs
      intro!: hooks_concat [unfolded hooks_def])

text \<open>The built-in metrics record a latency only for successes.\<close>

lemma metrics_latency_only_on_success:
  assumes "MwLatency labels d \<in> set (fst (invoke_mode_with_timeout ie h ctx m))"
  shows "snd (invoke_mode_with_timeout ie h ctx m) = Some ExOk"
proof -
  have before: "MwLatency labels d \<notin> set (before_all f chain ctx)" for f chain
  proof -
    have "MwLatency labels d \<notin> set (mw_before f ctx mw)" for mw by (cases mw) (auto simp: hook_defs)
    then show ?thesis by (auto simp: before_all_def)
  qed
  have failed: "MwLatency labels d \<notin> set (on_error_all f chain ctx r)" for f chain r
  proof -
    have "MwLatency labels d \<notin> set (mw_on_error f ctx r mw)" for mw by (cases mw) (auto simp: hook_defs)
    then show ?thesis by (auto simp: on_error_all_def)
  qed
  show ?thesis
    using assms before failed
    by (auto simp: invoke_mode_with_timeout_def is_ok_iff Let_def split: option.splits if_splits)
qed

section \<open>Lemmas on concurrency\<close>

datatype permit_event = Acquire string | Finish string

text \<open>Permits in use per handler, beside the semaphores; a task that finds no permit waits.\<close>

fun permit_step :: "HandlerConcurrency \<times> (string \<Rightarrow> nat) \<Rightarrow> permit_event \<Rightarrow> HandlerConcurrency \<times> (string \<Rightarrow> nat)" where
  "permit_step (c, used) (Acquire h) =
     (let (ok, c') = HandlerConcurrency_acquire c h in (c', if ok then used(h := used h + 1) else used))"
| "permit_step (c, used) (Finish h) =
     (if used h > 0 then (drop_permit c h, used(h := used h - 1)) else (c, used))"

definition permits_at :: "nat \<Rightarrow> HandlerConcurrency \<Rightarrow> nat \<Rightarrow> string \<Rightarrow> bool" where
  "permits_at limit c n h \<longleftrightarrow> (case hc_semaphores c h of
       Some free \<Rightarrow> free + n = limit
     | None \<Rightarrow> n = 0 \<and> hc_default_limit c = limit)"

definition permits_inv :: "(string \<Rightarrow> nat) \<Rightarrow> HandlerConcurrency \<times> (string \<Rightarrow> nat) \<Rightarrow> bool" where
  "permits_inv limit = (\<lambda>(c, used). \<forall>h. permits_at (limit h) c (used h) h)"

interpretation permits: event_invariant permit_step "permits_inv limit" for limit
proof (unfold_locales, goal_cases)
  case (1 s e)
  obtain c used where s: "s = (c, used)" by (cases s)
  have at: "permits_at (limit h) c (used h) h" for h using 1 by (simp add: s permits_inv_def)
  show ?case
  proof (cases e)
    case (Acquire h)
    have "permits_at (limit k) (fst (permit_step (c, used) e)) (snd (permit_step (c, used) e) k) k" for k
      using at [of k] by (auto simp: Acquire permits_at_def HandlerConcurrency_acquire_def Let_def split: option.splits)
    then show ?thesis by (simp add: s permits_inv_def split_beta)
  next
    case (Finish h)
    have "permits_at (limit k) (fst (permit_step (c, used) e)) (snd (permit_step (c, used) e) k) k" for k
      using at [of k] by (auto simp: Finish permits_at_def drop_permit_def split: option.splits)
    then show ?thesis by (simp add: s permits_inv_def split_beta)
  qed
qed

lemma concurrency_bounded:
  assumes "foldl permit_step (HandlerConcurrency_new limit, \<lambda>h. 0) es = (c, used)"
  shows "used h \<le> limit"
proof -
  have "permits_inv (\<lambda>h. limit) (c, used)"
    using permits.run_inv [of "\<lambda>h. limit" "(HandlerConcurrency_new limit, \<lambda>h. 0)" es] assms
    by (simp add: permits_inv_def permits_at_def HandlerConcurrency_new_def)
  then have "permits_at limit c (used h) h" by (simp add: permits_inv_def)
  then show ?thesis by (auto simp: permits_at_def split: option.splits)
qed

section \<open>Lemmas on registration\<close>

datatype consumer_op =
    AddHandler string nat "string option" "nat option" "nat option" "nat option" "nat option" "nat list option"
  | RegisterFanout string "string list" nat "u8 option" "nat option"
  | StopConsumer

fun consumer_step :: "string option \<Rightarrow> PyConsumer \<times> nat \<Rightarrow> consumer_op \<Rightarrow> PyConsumer \<times> nat" where
  "consumer_step dm (c, n) (AddHandler topic cb mode bsize bwait timeout conc mw) =
     (add_handler dm topic cb mode bsize bwait timeout conc mw c, n)"
| "consumer_step dm (c, n) (RegisterFanout grp sinks cb degree timeout) = snd (register_fanout grp sinks cb degree timeout n c)"
| "consumer_step dm (c, n) StopConsumer = (stop_consumer c, n)"

definition plain_handlers :: "PyConsumer \<Rightarrow> bool" where
  "plain_handlers c \<longleftrightarrow> (\<forall>topic h. pc_fan_out_handlers c topic = Some h \<longrightarrow> ph_fan_out h = None)"

lemma plain_handlers_insert:
  "plain_handlers c \<Longrightarrow> ph_fan_out h = None \<Longrightarrow> plain_handlers (add_handler_with_fan_out topic h config c)"
  by (simp add: plain_handlers_def add_handler_with_fan_out_def)

lemma plain_handlers_fold:
  assumes "\<And>name. ph_fan_out (mk name) = None" "plain_handlers c"
  shows "plain_handlers (foldl (\<lambda>c (topic, name, config). add_handler_with_fan_out topic (mk name) config c) c regs)"
  using assms(2) by (induction regs arbitrary: c) (auto intro!: plain_handlers_insert assms(1))

lemma plain_handlers_register: "plain_handlers c \<Longrightarrow> plain_handlers (fst (snd (register_fanout grp sinks cb degree timeout n c)))"
  unfolding register_fanout_def register_into_consumer_def Let_def prod.case fst_conv snd_conv
  by (rule plain_handlers_fold) (simp_all add: PythonHandler_new_def)

interpretation registrations: event_invariant "consumer_step dm" "\<lambda>s. plain_handlers (fst s)" for dm
proof (unfold_locales, goal_cases)
  case (1 s e)
  then show ?case
    by (cases s; cases e) (simp_all add: plain_handlers_register, simp_all add: plain_handlers_def add_handler_def stop_consumer_def)
qed

lemma registered_handlers_plain:
  assumes "foldl (consumer_step dm) (PyConsumer_new, 1) ops = (c, n)" "handler_map py_none policy ms c topic = Some h"
  shows "ph_fan_out h = None"
proof -
  have "plain_handlers c"
    using registrations.run_inv [of "(PyConsumer_new, 1)" dm ops] assms(1)
    by (simp add: plain_handlers_def PyConsumer_new_def)
  then show ?thesis
    using assms(2) by (auto simp: handler_map_def plain_handlers_def PythonHandler_new_def split: option.splits)
qed

text \<open>
  A batch handler registered without a batch size has no batch policy, and its batch worker panics
  when it starts.
\<close>

lemma batch_worker_needs_size:
  assumes "pc_fan_out_handlers c topic = None" "pc_handlers c topic = Some meta"
    "handler_map py_none policy ms c topic = Some h"
  shows "(\<exists>l. batch_worker_start h = Inr l) \<longleftrightarrow> meta_batch_max_size meta \<noteq> None"
  using assms
  by (auto simp: handler_map_def batch_worker_start_def PythonHandler_new_def resolve_batch_policy_def split: option.splits)

section \<open>Properties of handlers\<close>


definition hung_env :: invocation_env where
  "hung_env = \<lparr>ie_python = (\<lambda>cb args. (PyReturned, None)), ie_utf8 = (\<lambda>b. ''''), ie_type_name = (\<lambda>i. ''Audit''),
     ie_has_hook = (\<lambda>i k. True), ie_late = 0\<rparr>"

definition sample_handler :: PythonHandler where
  "sample_handler = PythonHandler_new 0 None SingleSync None (Some (from_millis 500)) ''t'' (Some [1, 2])"


text \<open>
  C39 (functional). Middleware nests around the handler: the objects of a handler are entered in
  order and left in reverse order, each through \<open>after\<close> when the handler succeeded and
  through \<open>on_error\<close> when it did not, and they do not change the result.
\<close>

theorem middleware_nests:
  assumes "ph_middleware h = Some ms" "\<forall>i\<in>set ms. custom_mw ie i"
    "snd (invoke_mode_with_timeout ie h ctx m) = Some r"
  shows "hooks (fst (invoke_mode_with_timeout ie h ctx m)) =
       map (\<lambda>i. (i, ''before'')) ms @ map (\<lambda>i. (i, if is_ok r then ''after'' else ''on_error'')) (rev ms)
     \<and> snd (invoke_mode_with_timeout ie (h\<lparr>ph_middleware := None\<rparr>) ctx m) = Some r"
proof
  from assms(3) obtain d where
    d: "timed (ie_late ie) (ph_timeout h) (invoke_mode (ie_python ie) (ie_utf8 ie) h ctx m) = Some (r, d)"
    by (auto simp: invocation_result)
  show "hooks (fst (invoke_mode_with_timeout ie h ctx m)) =
       map (\<lambda>i. (i, ''before'')) ms @ map (\<lambda>i. (i, if is_ok r then ''after'' else ''on_error'')) (rev ms)"
    by (simp add: invoke_mode_with_timeout_def d assms(1) chain_custom [OF assms(2)] custom_hooks [OF assms(2)] Let_def)
  show "snd (invoke_mode_with_timeout ie (h\<lparr>ph_middleware := None\<rparr>) ctx m) = Some r"
    using assms(3) by (simp add: invocation_result)
qed

theorem middleware_nests_witness:
  "hooks (fst (invoke_mode_with_timeout hung_env sample_handler (ExecutionContext_new ''t'' 0 7 1) (sample_message ''t'' 7)))
   = [(1, ''before''), (2, ''before''), (2, ''on_error''), (1, ''on_error'')]"
proof -
  have r: "snd (invoke_mode_with_timeout hung_env sample_handler (ExecutionContext_new ''t'' 0 7 1) (sample_message ''t'' 7))
      = Some (ExTimeout \<lparr>timeout_ms = 500, last_processed_offset = None\<rparr>)"
    by (simp add: invocation_result timed_def hung_env_def invoke_mode_def invoke_def sample_handler_def
        PythonHandler_new_def from_millis_def)
  show ?thesis
    using middleware_nests [OF _ _ r, of "[1, 2]"]
    by (simp add: sample_handler_def PythonHandler_new_def custom_mw_def hung_env_def)
qed

text \<open>
  C40 (safety). A registered fan-out never fans out: in every consumer that registration can
  build, no handler of the runtime carries a fan-out configuration, so a worker starts no branch
  for any message.
\<close>

theorem registered_fan_out_never_fans:
  assumes "foldl (consumer_step dm) (PyConsumer_new, 1) ops = (c, n)" "handler_map py_none policy ms c topic = Some h"
  shows "process_fan_out (ph_fan_out h) counter = (None, counter)"
  using registered_handlers_plain [OF assms] by (simp add: process_fan_out_def)

theorem registered_fan_out_never_fans_witness:
  "\<exists>c n h. foldl (consumer_step None) (PyConsumer_new, 1) [RegisterFanout ''g'' [''a'', ''b''] 0 None None] = (c, n)
     \<and> map_option meta_fan_out_config (pc_handlers c ''a'') =
         Some (Some \<lparr>fc_sinks = [], fc_max_fan_out = 4, fc_slot_manager = None\<rparr>)
     \<and> handler_map 0 sample_policy None c ''a'' = Some h \<and> process_fan_out (ph_fan_out h) 1 = (None, 1)"
proof -
  obtain c n where c: "foldl (consumer_step None) (PyConsumer_new, 1) [RegisterFanout ''g'' [''a'', ''b''] 0 None None] = (c, n)"
    by (cases "foldl (consumer_step None) (PyConsumer_new, 1) [RegisterFanout ''g'' [''a'', ''b''] 0 None None]")
  then have config: "map_option meta_fan_out_config (pc_handlers c ''a'') =
         Some (Some \<lparr>fc_sinks = [], fc_max_fan_out = 4, fc_slot_manager = None\<rparr>)"
    by (auto simp: register_fanout_def register_into_consumer_def add_handler_with_fan_out_def PyConsumer_new_def Let_def min_def)
  then obtain h where "handler_map 0 sample_policy None c ''a'' = Some h"
    by (auto simp: handler_map_def)
  with registered_fan_out_never_fans [OF c] c config show ?thesis by blast
qed

end
