(* ===== verification/Pipeline.thy ===== *)
theory Pipeline
  imports Runtime Handlers
begin

text \<open>
  An abstract view of the components together: the dispatcher fills the queues, workers take messages from
  them and report results of any message they have taken, one by one or in batches, in any order and any number
  of times, the committer reads the same tracker, failed offsets may be flushed to the dead-letter queue and
  letters taken from it at any time. It leaves out the loops of the tasks; \<open>Refinement\<close> shows that the running program is one of its runs.
\<close>

section \<open>The system\<close>

record kafpy =
  k_services :: services
  k_taken :: "OwnedMessage list"
  k_committer :: CommitterState
  k_calls :: "consumer_call list"

datatype kafpy_event =
    KDispatch channel OwnedMessage
  | KTake string
  | KResult env nat OwnedMessage ExecutionResult
  | KBatch env nat "OwnedMessage list" py_answer
  | KRound broker ShutdownCoordinator "TopicPartitionKey list" nat commit_input
  | KFlush env "TopicPartitionKey list"
  | KLetter

text \<open>
  Workers handle what they have taken; a batch holds messages of one topic and partition, as the
  accumulator forms them. An event that is not enabled has no successor.
\<close>

definition batch_taken :: "OwnedMessage list \<Rightarrow> OwnedMessage list \<Rightarrow> bool" where
  "batch_taken taken ms = (ms \<noteq> [] \<and> list_all (\<lambda>m. m \<in> set taken \<and> msg_topic m = msg_topic (hd ms)
     \<and> msg_partition m = msg_partition (hd ms)) ms)"

fun kafpy_step :: "router \<Rightarrow> (bytes \<Rightarrow> string) \<Rightarrow> CommitConfig \<Rightarrow> kafpy \<Rightarrow> kafpy_event \<Rightarrow> kafpy res" where
  "kafpy_step rt utf8 cfg k (KDispatch chan m) =
     Inr (k\<lparr>k_services := (k_services k)\<lparr>svc_queues := fst (send chan (svc_queues (k_services k)) m)\<rparr>\<rparr>)"
| "kafpy_step rt utf8 cfg k (KTake topic) =
     (case receive (svc_queues (k_services k)) topic of
        None \<Rightarrow> Inr k
      | Some (m, q) \<Rightarrow> Inr (k\<lparr>k_services := (k_services k)\<lparr>svc_queues := q\<rparr>, k_taken := m # k_taken k\<rparr>))"
| "kafpy_step rt utf8 cfg k (KResult e wid m result) =
     (if m \<in> set (k_taken k)
      then res_bind (handle_execution_result e rt (worker_context utf8 wid m) m result (k_services k))
             (\<lambda>(s, _). Inr (k\<lparr>k_services := s\<rparr>))
      else Inl (Panic ''message not taken''))"
| "kafpy_step rt utf8 cfg k (KBatch e wid ms answer) =
     (if batch_taken (k_taken k) ms
      then res_bind (flush_partition_batch e rt (\<lambda>ctx batch. batch_result_of batch answer) wid
               (msg_partition (hd ms)) ms (k_services k))
             (\<lambda>s. Inr (k\<lparr>k_services := s\<rparr>))
      else Inl (Panic ''batch not taken''))"
| "kafpy_step rt utf8 cfg k (KRound broker coord ks now inp) =
     (let (_, st, calls) = committer_round broker cfg coord ks (svc_offsets (k_services k)) (k_committer k) now inp
      in Inr (k\<lparr>k_committer := st, k_calls := k_calls k @ calls\<rparr>))"
| "kafpy_step rt utf8 cfg k (KFlush e ks) =
     Inr (k\<lparr>k_services := (k_services k)\<lparr>svc_dlq := flush_failed_to_dlq e rt ks (svc_offsets (k_services k))
       (svc_dlq (k_services k))\<rparr>\<rparr>)"
| "kafpy_step rt utf8 cfg k KLetter =
     Inr (k\<lparr>k_services := (k_services k)\<lparr>svc_dlq := take_letter (svc_dlq (k_services k))\<rparr>\<rparr>)"

definition kafpy_new :: "RetryPolicy \<Rightarrow> QueueManager \<Rightarrow> kafpy" where
  "kafpy_new policy q = \<lparr>k_services = services_new policy q, k_taken = [], k_committer = CommitterState_new, k_calls = []\<rparr>"

definition empty_queues :: "QueueManager \<Rightarrow> bool" where
  "empty_queues q \<longleftrightarrow> (\<forall>topic h. q topic = Some h \<longrightarrow> buffered h = [])"

fun successes :: "kafpy_event \<Rightarrow> OwnedMessage list" where
  \<comment> \<open>the messages for which the handler answered without error\<close>
  "successes (KResult e wid m result) = (if result = ExOk then [m] else [])"
| "successes (KBatch e wid ms answer) = (if answer = PyReturned then ms else [])"
| "successes _ = []"

definition handled :: "kafpy_event list \<Rightarrow> OwnedMessage list" where
  "handled es = concat (map successes es)"

definition place :: "OwnedMessage \<Rightarrow> string \<times> i32 \<times> i64" where
  "place m = (msg_topic m, msg_partition m, msg_offset m)"

definition first_handled :: "kafpy_event list \<Rightarrow> string \<Rightarrow> i32 \<Rightarrow> i64 option" where
  "first_handled es topic part =
     map_option msg_offset (find (\<lambda>m. msg_topic m = topic \<and> msg_partition m = part) (handled es))"

definition dispatched :: "kafpy_event list \<Rightarrow> OwnedMessage \<Rightarrow> bool" where
  "dispatched es m \<longleftrightarrow> (\<exists>chan. KDispatch chan m \<in> set es)"

section \<open>Messages come from the dispatcher\<close>

definition queued :: "QueueManager \<Rightarrow> OwnedMessage set" where
  "queued q = {m. \<exists>topic h. q topic = Some h \<and> m \<in> set (buffered h)}"

lemma queued_replace:
  assumes "q topic = Some h" "set (buffered h') \<subseteq> B \<union> set (buffered h)"
  shows "queued (q(topic \<mapsto> h')) \<subseteq> B \<union> queued q"
proof
  fix m assume "m \<in> queued (q(topic \<mapsto> h'))"
  then obtain t g where g: "(q(topic \<mapsto> h')) t = Some g" "m \<in> set (buffered g)" by (auto simp: queued_def)
  show "m \<in> B \<union> queued q"
  proof (cases "t = topic")
    case True
    with g assms have "m \<in> B \<union> set (buffered h)" by auto
    with assms(1) show ?thesis by (auto simp: queued_def)
  next
    case False
    with g show ?thesis by (auto simp: queued_def)
  qed
qed

lemma acquire_buffered: "try_acquire_semaphore h = (ok, h1) \<Longrightarrow> buffered h1 = buffered h"
  by (auto simp: try_acquire_semaphore_def Let_def split: option.splits if_splits)

lemma queued_send: "queued (fst (send chan q m)) \<subseteq> {m} \<union> queued q"
proof (cases "q (msg_topic m)")
  case None
  then show ?thesis by (auto simp: send_def Let_def)
next
  case (Some h)
  obtain ok h1 where acq: "try_acquire_semaphore h = (ok, h1)" by (cases "try_acquire_semaphore h")
  have "\<exists>h'. fst (send chan q m) = q(msg_topic m \<mapsto> h') \<and> set (buffered h') \<subseteq> {m} \<union> set (buffered h)"
    using acquire_buffered [OF acq]
    by (cases ok; cases "chan (capacity h1) (length (buffered h))") (auto simp: send_def Some acq Let_def)
  then obtain h' where "fst (send chan q m) = q(msg_topic m \<mapsto> h')" "set (buffered h') \<subseteq> {m} \<union> set (buffered h)"
    by blast
  then show ?thesis using queued_replace [of q "msg_topic m" h h' "{m}"] Some by simp
qed

lemma queued_ack: "queued (QueueManager_ack q topic n) \<subseteq> queued q"
proof (cases "q topic")
  case (Some h)
  have "buffered (HandlerMetadata_ack h n) = buffered h"
    by (simp add: HandlerMetadata_ack_def release_permits_def Let_def)
  then show ?thesis using queued_replace [of q topic h "HandlerMetadata_ack h n" "{}"] Some
    by (simp add: QueueManager_ack_def)
qed (simp add: QueueManager_ack_def)

lemma queued_receive:
  assumes "receive q topic = Some (m, q')"
  shows "m \<in> queued q \<and> queued q' \<subseteq> queued q"
proof -
  from assms obtain h ms where h: "q topic = Some h" "buffered h = m # ms" "q' = q(topic \<mapsto> h\<lparr>buffered := ms\<rparr>)"
    by (auto simp: receive_def split: option.splits list.splits)
  then have "m \<in> queued q" unfolding queued_def by (intro CollectI exI [of _ topic] exI [of _ h]) simp
  then show ?thesis using queued_replace [of q topic h "h\<lparr>buffered := ms\<rparr>" "{}"] h by auto
qed

section \<open>What results do to the services\<close>

lemma failure_effects:
  assumes "handle_execution_failure e rt ctx m result s = Inr (s', a)"
  shows "svc_offsets s' = svc_offsets s" and "queued (svc_queues s') \<subseteq> queued (svc_queues s)"
  using assms queued_ack [of "svc_queues s" "msg_topic m" 1]
  by (auto simp: handle_execution_failure_def Let_def split: if_splits)

text \<open>One step of the services on the tracker and on the queues, and a sequence of such steps.\<close>

definition steps_to :: "services \<Rightarrow> tracker_event list \<Rightarrow> services \<Rightarrow> bool" where
  "steps_to s tes s' \<longleftrightarrow> res_foldl tracker_step (svc_offsets s) tes = Inr (svc_offsets s')
     \<and> queued (svc_queues s') \<subseteq> queued (svc_queues s)"

lemma steps_to_fold:
  assumes "\<And>s x s1. f s x = Inr s1 \<Longrightarrow> steps_to s [g x] s1"
  shows "res_foldl f s xs = Inr s' \<Longrightarrow> steps_to s (map g xs) s'"
proof (induction xs arbitrary: s)
  case (Cons x xs)
  then obtain s1 where "f s x = Inr s1" "res_foldl f s1 xs = Inr s'" by auto
  with assms [of s x s1] Cons.IH [of s1] show ?case by (auto simp: steps_to_def)
qed (simp add: steps_to_def)

lemma result_effects:
  assumes "handle_execution_result e rt ctx m result s = Inr (s', a)"
  obtains reason where "steps_to s [if result = ExOk then TAck (ctx_topic ctx) (ctx_partition ctx) (ctx_offset ctx)
       else TFail (ctx_topic ctx) (ctx_partition ctx) (ctx_offset ctx) reason] s'"
proof (cases "result = ExOk")
  case True
  with assms queued_ack [of "svc_queues s" "msg_topic m" 1] that show ?thesis
    by (auto simp: steps_to_def Let_def)
next
  case False
  then obtain reason name where r: "failure_of result = Inr reason"
    "handle_execution_result e rt ctx m result s = fail_with e rt ctx m result reason name s"
    by (rule failing_result)
  define s1 where "s1 = s\<lparr>svc_logs := svc_logs s @ [log_failure ctx reason name False],
      svc_offsets := OffsetCoordinator_mark_failed (svc_offsets s) (ctx_topic ctx) (ctx_partition ctx) (ctx_offset ctx) reason\<rparr>"
  from assms r(2) have "handle_execution_failure e rt ctx m result s1 = Inr (s', the a)"
    by (auto simp: fail_with_def Let_def s1_def)
  from failure_effects [OF this] that [of reason] False show ?thesis
    by (simp add: steps_to_def s1_def)
qed

lemma batch_ack_effects:
  "res_foldl (batch_ack_one topic part) s offsets = Inr s' \<Longrightarrow> steps_to s (map (TAck topic part) offsets) s'"
proof (rule steps_to_fold)
  fix s x s1 assume "batch_ack_one topic part s x = Inr s1"
  then show "steps_to s [TAck topic part x] s1"
    using queued_ack [of "svc_queues s" topic 1] by (auto simp: steps_to_def batch_ack_one_def Let_def)
qed

lemma batch_fail_effects:
  "res_foldl (batch_fail_one e rt topic part reason) s ms = Inr s'
     \<Longrightarrow> steps_to s (map (\<lambda>m. TFail topic part (msg_offset m) reason) ms) s'"
proof (rule steps_to_fold)
  fix s m s1 assume "batch_fail_one e rt topic part reason s m = Inr s1"
  then show "steps_to s [TFail topic part (msg_offset m) reason] s1"
    using queued_ack [of "svc_queues s" topic 1]
    by (auto simp: steps_to_def batch_fail_one_def Let_def split: if_splits)
qed

lemma batch_effects:
  assumes "flush_partition_batch e rt (\<lambda>ctx batch. batch_result_of batch answer) wid part ms s = Inr s'" "ms \<noteq> []"
  obtains reason where "steps_to s (map (\<lambda>m. if answer = PyReturned then TAck (msg_topic (hd ms)) part (msg_offset m)
      else TFail (msg_topic (hd ms)) part (msg_offset m) reason) ms) s'"
proof (cases answer)
  case PyReturned
  with assms batch_ack_effects [of "msg_topic (hd ms)" part s "map msg_offset ms" s'] that show ?thesis
    by (auto simp: flush_partition_batch_def Let_def o_def split: list.splits)
next
  case (PyRaised err)
  with assms batch_fail_effects [of e rt "msg_topic (hd ms)" part "classify (pe_repr err) (pe_text err)" s ms s'] that
  show ?thesis by (auto simp: flush_partition_batch_def Let_def split: list.splits)
next
  case PyPanicked
  with assms batch_fail_effects [of e rt "msg_topic (hd ms)" part "Terminal HandlerPanic" s ms s'] that
  show ?thesis by (auto simp: flush_partition_batch_def Let_def split: list.splits)
qed

section \<open>Every acknowledgement has a successful invocation behind it\<close>

fun tracker_acks :: "tracker_event list \<Rightarrow> (string \<times> i32 \<times> i64) list" where
  "tracker_acks [] = []"
| "tracker_acks (TAck topic part x # es) = (topic, part, x) # tracker_acks es"
| "tracker_acks (TFail topic part x r # es) = tracker_acks es"

lemma tracker_acks_append [simp]: "tracker_acks (xs @ ys) = tracker_acks xs @ tracker_acks ys"
  by (induction xs rule: tracker_acks.induct) auto

lemma tracker_acks_map [simp]:
  "tracker_acks (map (\<lambda>m. TAck topic part (f m)) ms) = map (\<lambda>m. (topic, part, f m)) ms"
  "tracker_acks (map (\<lambda>m. TFail topic part (f m) r) ms) = []"
  by (induction ms) auto

lemma acked_offsets_tracker: "acked_offsets (events_of (topic, part) tes) = {x. (topic, part, x) \<in> set (tracker_acks tes)}"
  by (induction tes rule: tracker_acks.induct) (auto simp: acked_offsets_def)

lemma first_ack_tracker:
  "tracker_acks tes = map place ms \<Longrightarrow> first_ack (events_of (topic, part) tes)
     = map_option msg_offset (find (\<lambda>m. msg_topic m = topic \<and> msg_partition m = part) ms)"
  by (induction tes arbitrary: ms rule: tracker_acks.induct) (auto simp: place_def)

lemma dispatched_mono: "dispatched es m \<Longrightarrow> dispatched (es @ es') m"
  by (auto simp: dispatched_def)

definition explained :: "kafpy_event list \<Rightarrow> kafpy \<Rightarrow> bool" where
  "explained es k \<longleftrightarrow>
     (\<exists>tes. tracker_run tes = Inr (svc_offsets (k_services k)) \<and> tracker_acks tes = map place (handled es))
     \<and> queued (svc_queues (k_services k)) \<union> set (k_taken k) \<union> set (handled es) \<subseteq> {m. dispatched es m}"

lemma worker_context_place [simp]:
  "ctx_topic (worker_context utf8 wid m) = msg_topic m"
  "ctx_partition (worker_context utf8 wid m) = msg_partition m"
  "ctx_offset (worker_context utf8 wid m) = msg_offset m"
  by (simp_all add: worker_context_def ExecutionContext_with_trace_def Let_def)

lemma explained_steps:
  assumes "explained es k" "steps_to (k_services k) tes s"
    "tracker_acks tes = map place (successes ev)" "set (successes ev) \<subseteq> set (k_taken k)"
  shows "explained (es @ [ev]) (k\<lparr>k_services := s\<rparr>)"
proof -
  from assms(1) obtain tes0 where tes0: "tracker_run tes0 = Inr (svc_offsets (k_services k))"
    "tracker_acks tes0 = map place (handled es)"
    "queued (svc_queues (k_services k)) \<union> set (k_taken k) \<union> set (handled es) \<subseteq> {m. dispatched es m}"
    unfolding explained_def by blast
  have "tracker_run (tes0 @ tes) = Inr (svc_offsets s)"
    using tes0(1) assms(2) by (simp add: tracker_run_def steps_to_def res_foldl_append)
  moreover have "tracker_acks (tes0 @ tes) = map place (handled (es @ [ev]))"
    using tes0(2) assms(3) by (simp add: handled_def)
  moreover have "queued (svc_queues s) \<union> set (k_taken k) \<union> set (handled (es @ [ev])) \<subseteq> {m. dispatched (es @ [ev]) m}"
    using tes0(3) assms(2,4) dispatched_mono unfolding steps_to_def handled_def by auto
  ultimately show ?thesis unfolding explained_def by auto
qed

lemma explained_queues:
  assumes "explained es k" "svc_offsets (k_services k') = svc_offsets (k_services k)" "successes ev = []"
    "queued (svc_queues (k_services k')) \<union> set (k_taken k') \<subseteq> {m. dispatched (es @ [ev]) m}"
  shows "explained (es @ [ev]) k'"
proof -
  have "handled (es @ [ev]) = handled es" using assms(3) by (simp add: handled_def)
  with assms(1,2,4) dispatched_mono [of es _ "[ev]"] show ?thesis unfolding explained_def by auto
qed

lemma explained_dispatched:
  "explained es k \<Longrightarrow> queued (svc_queues (k_services k)) \<union> set (k_taken k) \<subseteq> {m. dispatched (es @ [ev]) m}"
  unfolding explained_def using dispatched_mono by blast

lemma explained_result:
  assumes "explained es k" "m \<in> set (k_taken k)"
    "handle_execution_result e rt (worker_context utf8 wid m) m result (k_services k) = Inr (s, a)"
  shows "explained (es @ [KResult e wid m result]) (k\<lparr>k_services := s\<rparr>)"
proof -
  from assms(3) obtain reason where "steps_to (k_services k)
      [if result = ExOk then TAck (msg_topic m) (msg_partition m) (msg_offset m)
       else TFail (msg_topic m) (msg_partition m) (msg_offset m) reason] s"
    by (rule result_effects) (simp only: worker_context_place)
  from explained_steps [OF assms(1) this, of "KResult e wid m result"] assms(2) show ?thesis
    by (cases "result = ExOk") (simp_all add: place_def)
qed

lemma explained_batch:
  assumes "explained es k" "batch_taken (k_taken k) ms"
    "flush_partition_batch e rt (\<lambda>ctx batch. batch_result_of batch answer) wid (msg_partition (hd ms)) ms (k_services k) = Inr s"
  shows "explained (es @ [KBatch e wid ms answer]) (k\<lparr>k_services := s\<rparr>)"
proof -
  from assms(2) have ms: "ms \<noteq> []" "set ms \<subseteq> set (k_taken k)"
    "\<And>m. m \<in> set ms \<Longrightarrow> place m = (msg_topic (hd ms), msg_partition (hd ms), msg_offset m)"
    unfolding batch_taken_def list_all_iff place_def by blast+
  from assms(3) ms(1) obtain reason where "steps_to (k_services k)
      (map (\<lambda>m. if answer = PyReturned then TAck (msg_topic (hd ms)) (msg_partition (hd ms)) (msg_offset m)
         else TFail (msg_topic (hd ms)) (msg_partition (hd ms)) (msg_offset m) reason) ms) s"
    by (rule batch_effects)
  from explained_steps [OF assms(1) this, of "KBatch e wid ms answer"] ms show ?thesis
    by (cases "answer = PyReturned") simp_all
qed

lemma explained_step:
  assumes "explained es k" "kafpy_step rt utf8 cfg k ev = Inr k'"
  shows "explained (es @ [ev]) k'"
proof (cases ev)
  case (KDispatch chan m)
  have "dispatched (es @ [ev]) m" by (auto simp: KDispatch dispatched_def)
  with queued_send [of chan "svc_queues (k_services k)" m] explained_dispatched [OF assms(1), of ev]
  have "queued (fst (send chan (svc_queues (k_services k)) m)) \<union> set (k_taken k) \<subseteq> {m. dispatched (es @ [ev]) m}"
    by blast
  with assms(2) show ?thesis by (intro explained_queues [OF assms(1)]) (auto simp: KDispatch)
next
  case (KTake topic)
  show ?thesis
  proof (cases "receive (svc_queues (k_services k)) topic")
    case None
    with explained_dispatched [OF assms(1), of ev] assms(2) show ?thesis
      by (intro explained_queues [OF assms(1)]) (auto simp: KTake)
  next
    case (Some p)
    obtain m q where p: "p = (m, q)" by (cases p)
    have "queued q \<union> set (m # k_taken k) \<subseteq> {m. dispatched (es @ [ev]) m}"
      using queued_receive [OF Some [unfolded p]] explained_dispatched [OF assms(1), of ev] by auto
    with assms(2) Some p show ?thesis by (intro explained_queues [OF assms(1)]) (auto simp: KTake)
  qed
next
  case (KResult e wid m result)
  with assms show ?thesis by (auto split: if_splits intro: explained_result)
next
  case (KBatch e wid ms answer)
  with assms show ?thesis by (auto split: if_splits intro: explained_batch)
next
  case (KRound broker coord ks now inp)
  with assms(2) explained_dispatched [OF assms(1), of ev] show ?thesis
    by (intro explained_queues [OF assms(1)]) (auto split: prod.splits)
next
  case (KFlush e ks)
  with assms(2) explained_dispatched [OF assms(1), of ev] show ?thesis
    by (intro explained_queues [OF assms(1)]) auto
next
  case KLetter
  with assms(2) explained_dispatched [OF assms(1), of ev] show ?thesis
    by (intro explained_queues [OF assms(1)]) auto
qed

lemma explained_run:
  assumes "empty_queues q" "res_foldl (kafpy_step rt utf8 cfg) (kafpy_new policy q) es = Inr k"
  shows "explained es k"
  using assms(2)
proof (induction es arbitrary: k rule: rev_induct)
  case Nil
  then show ?case using assms(1)
    by (auto simp: explained_def kafpy_new_def services_new_def tracker_run_def queued_def empty_queues_def handled_def
        intro!: exI [of _ "[]"])
next
  case (snoc e es)
  then show ?case by (auto simp: res_foldl_append intro: explained_step)
qed

section \<open>Stored offsets\<close>

lemma calls_step:
  assumes "kafpy_step rt utf8 cfg k ev = Inr k'" "StoreOffset topic part offset \<in> set (k_calls k')"
  shows "StoreOffset topic part offset \<in> set (k_calls k)
     \<or> highest_contiguous (svc_offsets (k_services k)) topic part = Some offset"
  using assms by (cases ev) (auto split: prod.splits option.splits if_splits dest: round_stores_watermark)

lemma stored_at:
  assumes "res_foldl (kafpy_step rt utf8 cfg) (kafpy_new policy q) es = Inr k"
    "StoreOffset topic part offset \<in> set (k_calls k)"
  shows "\<exists>es1 es2 k1. es = es1 @ es2 \<and> res_foldl (kafpy_step rt utf8 cfg) (kafpy_new policy q) es1 = Inr k1
     \<and> StoreOffset topic part offset \<notin> set (k_calls k1)
     \<and> highest_contiguous (svc_offsets (k_services k1)) topic part = Some offset"
  using assms
proof (induction es arbitrary: k rule: rev_induct)
  case Nil
  then show ?case by (auto simp: kafpy_new_def)
next
  case (snoc e es)
  then obtain k0 where k0: "res_foldl (kafpy_step rt utf8 cfg) (kafpy_new policy q) es = Inr k0"
    "kafpy_step rt utf8 cfg k0 e = Inr k" by (auto simp: res_foldl_append)
  show ?case
  proof (cases "StoreOffset topic part offset \<in> set (k_calls k0)")
    case True
    from snoc.IH [OF k0(1) this] show ?thesis by (metis append.assoc)
  next
    case False
    with calls_step [OF k0(2) snoc.prems(2)] k0(1) show ?thesis by blast
  qed
qed

text \<open>
  At-least-once, end to end: before an offset is first handed to the broker for a partition, every
  message of that partition from the first one handled up to it was delivered by the dispatcher and
  handled without error.
\<close>

lemma commits_cover_handled:
  assumes "empty_queues q" "res_foldl (kafpy_step rt utf8 cfg) (kafpy_new policy q) es = Inr k"
    "StoreOffset topic part offset \<in> set (k_calls k)"
  shows "\<exists>es1 es2 k1 b. es = es1 @ es2
     \<and> res_foldl (kafpy_step rt utf8 cfg) (kafpy_new policy q) es1 = Inr k1
     \<and> StoreOffset topic part offset \<notin> set (k_calls k1)
     \<and> first_handled es1 topic part = Some b \<and> b \<le> offset
     \<and> list_all (\<lambda>x. list_ex (\<lambda>m. place m = (topic, part, x) \<and> dispatched es1 m) (handled es1)) [b..offset]"
proof -
  from stored_at [OF assms(2,3)] obtain es1 es2 k1 where es: "es = es1 @ es2"
    "res_foldl (kafpy_step rt utf8 cfg) (kafpy_new policy q) es1 = Inr k1"
    "StoreOffset topic part offset \<notin> set (k_calls k1)"
    "highest_contiguous (svc_offsets (k_services k1)) topic part = Some offset" by blast
  from explained_run [OF assms(1) es(2)] obtain tes where tes:
    "tracker_run tes = Inr (svc_offsets (k_services k1))" "tracker_acks tes = map place (handled es1)"
    "set (handled es1) \<subseteq> {m. dispatched es1 m}" by (auto simp: explained_def)
  from tracker_watermarkE [OF tes(1) es(4)] obtain b where b:
    "first_ack (events_of (topic, part) tes) = Some b" "b \<le> offset"
    "{b..offset} \<subseteq> acked_offsets (events_of (topic, part) tes)" by blast
  have "first_handled es1 topic part = Some b"
    using first_ack_tracker [OF tes(2)] b(1) by (simp add: first_handled_def)
  moreover have "list_ex (\<lambda>m. place m = (topic, part, x) \<and> dispatched es1 m) (handled es1)" if "x \<in> {b..offset}" for x
  proof -
    from that b(3) have "(topic, part, x) \<in> set (map place (handled es1))"
      by (auto simp: acked_offsets_tracker tes(2))
    with tes(3) show ?thesis by (auto simp: list_ex_iff)
  qed
  ultimately show ?thesis using es(1,2,3) b(2)
    by (intro exI [of _ es1] exI [of _ es2] exI [of _ k1] exI [of _ b]) (auto simp: list_all_iff)
qed

end
