(* ===== verification/Metrics.thy ===== *)
theory Metrics
  imports Handlers "HOL-Library.List_Lexorder" "HOL-Library.Char_ord"
begin

text \<open>
  Metrics (\<^verbatim>\<open>src/observability/metrics.rs\<close>): labels in canonical order, the Prometheus sink with its
  registered families, the recorders, and what a worker records for a message and for a batch
  (\<^verbatim>\<open>src/worker_pool/worker.rs\<close>, \<^verbatim>\<open>src/worker_pool/batch_loop.rs\<close>). The sink interface is the locale
  \<open>metrics_sink\<close>. A histogram is the list of values it was given; the buckets belong to the client
  library. It shows that labels do not depend on the order of insertion, that every recorded
  family is registered, and what each family holds after any sequence of records.
\<close>

section \<open>Labels\<close>

type_synonym labels = "(string \<times> string) list"

definition MetricLabels_new :: labels where "MetricLabels_new = []"

definition MetricLabels_insert :: "string \<Rightarrow> string \<Rightarrow> labels \<Rightarrow> labels" where
  \<comment> \<open>\<open>sort_by_key\<close> is stable, and strings compare byte by byte\<close>
  "MetricLabels_insert key v ls = sort_key fst (ls @ [(key, v)])"

definition as_slice :: "labels \<Rightarrow> labels" where
  "as_slice ls = map (\<lambda>(k, v). (k, v)) ls"

section \<open>The sink\<close>

text \<open>The calls of the trait \<open>MetricsSink\<close>.\<close>

datatype metric_call =
    CounterCall string labels
  | HistogramCall string real labels
  | GaugeCall string real labels

definition LATENCY_BUCKETS :: "real list" where
  "LATENCY_BUCKETS = [0.001, 0.005, 0.01, 0.025, 0.05, 0.1, 0.25, 0.5, 1.0, 2.5, 5.0, 10.0]"

record PrometheusSink =
  registry :: "(string \<times> string) list"
  counters :: "string \<rightharpoonup> 64 word"
  histograms :: "string \<rightharpoonup> real list"
  gauges :: "string \<rightharpoonup> i64"

definition PrometheusSink_new :: PrometheusSink where
  "PrometheusSink_new = \<lparr>registry = [], counters = Map.empty, histograms = Map.empty, gauges = Map.empty\<rparr>"

definition register_counter :: "string \<Rightarrow> string \<Rightarrow> PrometheusSink \<Rightarrow> PrometheusSink" where
  "register_counter name help s =
     (if counters s name \<noteq> None then s
      else s\<lparr>registry := registry s @ [(name, help)], counters := (counters s)(name \<mapsto> 0)\<rparr>)"

definition register_histogram :: "string \<Rightarrow> string \<Rightarrow> PrometheusSink \<Rightarrow> PrometheusSink" where
  "register_histogram name help s =
     (if histograms s name \<noteq> None then s
      else s\<lparr>registry := registry s @ [(name, help)], histograms := (histograms s)(name \<mapsto> [])\<rparr>)"

definition register_gauge :: "string \<Rightarrow> string \<Rightarrow> PrometheusSink \<Rightarrow> PrometheusSink" where
  "register_gauge name help s =
     (if gauges s name \<noteq> None then s
      else s\<lparr>registry := registry s @ [(name, help)], gauges := (gauges s)(name \<mapsto> 0)\<rparr>)"

definition f64_as_i64 :: "real \<Rightarrow> i64" where
  \<comment> \<open>\<open>as i64\<close>: towards zero, saturating\<close>
  "f64_as_i64 x = max i64_min (min i64_max (if 0 \<le> x then \<lfloor>x\<rfloor> else \<lceil>x\<rceil>))"

definition record_counter :: "string \<Rightarrow> labels \<Rightarrow> PrometheusSink \<Rightarrow> PrometheusSink" where
  "record_counter name ls s =
     (case counters s name of None \<Rightarrow> s | Some c \<Rightarrow> s\<lparr>counters := (counters s)(name \<mapsto> c + 1)\<rparr>)"

definition record_histogram :: "string \<Rightarrow> real \<Rightarrow> labels \<Rightarrow> PrometheusSink \<Rightarrow> PrometheusSink" where
  "record_histogram name v ls s =
     (case histograms s name of None \<Rightarrow> s | Some vs \<Rightarrow> s\<lparr>histograms := (histograms s)(name \<mapsto> vs @ [v])\<rparr>)"

definition record_gauge :: "string \<Rightarrow> real \<Rightarrow> labels \<Rightarrow> PrometheusSink \<Rightarrow> PrometheusSink" where
  "record_gauge name v ls s =
     (case gauges s name of None \<Rightarrow> s | Some g \<Rightarrow> s\<lparr>gauges := (gauges s)(name \<mapsto> f64_as_i64 v)\<rparr>)"

fun sink_call :: "PrometheusSink \<Rightarrow> metric_call \<Rightarrow> PrometheusSink" where
  \<comment> \<open>the shared sink takes its lock and forwards the call\<close>
  "sink_call s (CounterCall name ls) = record_counter name ls s"
| "sink_call s (HistogramCall name v ls) = record_histogram name v ls s"
| "sink_call s (GaugeCall name v ls) = record_gauge name v ls s"

definition SharedPrometheusSink_new :: PrometheusSink where
  "SharedPrometheusSink_new =
     (let s = PrometheusSink_new;
          s = register_counter ''kafpy.message.throughput'' ''Messages delivered per second'' s;
          s = register_histogram ''kafpy.handler.latency'' ''Handler processing time in seconds'' s;
          s = register_histogram ''kafpy.handler.batch_size'' ''Batch size distribution'' s;
          s = register_counter ''kafpy.handler.invocation'' ''Handler invocation count'' s;
          s = register_counter ''kafpy.handler.error'' ''Handler error count'' s;
          s = register_gauge ''kafpy.queue.depth'' ''Current queue depth per handler'' s;
          s = register_gauge ''kafpy.consumer.lag'' ''Consumer lag per partition'' s;
          s = register_counter ''kafpy.dlq.messages'' ''Messages produced to DLQ'' s;
          s = register_counter ''kafpy.handler.timeout_total'' ''Handler timeout count'' s;
          s = register_counter ''kafpy.python.call_total'' ''Python callback invocation count'' s;
          s = register_histogram ''kafpy.python.call_duration_seconds'' ''Python callback duration in seconds'' s;
          s = register_histogram ''kafpy.python.queue_wait_seconds''
                ''Wait time before Python callback execution in seconds'' s;
          s = register_histogram ''kafpy.python.batch_size'' ''Python callback batch size distribution'' s;
          s = register_counter ''kafpy.python.backpressure_total''
                ''Python callback backpressure/saturation count'' s;
          s = register_histogram ''kafpy.fanout.branch_duration_seconds''
                ''Fan-out branch processing time in seconds'' s
      in register_counter ''kafpy.fanout.branch_total'' ''Fan-out branch completion count'' s)"

section \<open>Recorders\<close>

definition record_invocation :: "labels \<Rightarrow> metric_call list" where
  "record_invocation ls = [CounterCall ''kafpy.handler.invocation'' (as_slice ls)]"

definition record_latency :: "(real \<Rightarrow> real) \<Rightarrow> labels \<Rightarrow> duration \<Rightarrow> metric_call list" where
  "record_latency rnd ls elapsed = [HistogramCall ''kafpy.handler.latency'' (as_secs_f64 rnd elapsed) (as_slice ls)]"

definition record_error :: "labels \<Rightarrow> metric_call list" where
  "record_error ls = [CounterCall ''kafpy.handler.error'' (as_slice ls)]"

definition record_batch_size :: "(real \<Rightarrow> real) \<Rightarrow> labels \<Rightarrow> nat \<Rightarrow> metric_call list" where
  "record_batch_size rnd ls n = [HistogramCall ''kafpy.handler.batch_size'' (rnd (real n)) (as_slice ls)]"

definition record_throughput :: "string \<Rightarrow> string \<Rightarrow> string \<Rightarrow> metric_call list" where
  "record_throughput topic handler_id mode =
     (let ls = MetricLabels_insert ''mode'' mode (MetricLabels_insert ''handler_id'' handler_id
                 (MetricLabels_insert ''topic'' topic MetricLabels_new))
      in [CounterCall ''kafpy.message.throughput'' (as_slice ls)])"

definition record_lag :: "(real \<Rightarrow> real) \<Rightarrow> string \<Rightarrow> i32 \<Rightarrow> i64 \<Rightarrow> metric_call list" where
  "record_lag rnd topic part lag =
     (let ls = MetricLabels_insert ''partition'' (show_int part) (MetricLabels_insert ''topic'' topic MetricLabels_new)
      in [GaugeCall ''kafpy.consumer.lag'' (rnd (of_int lag)) (as_slice ls)])"

definition record_queue_depth :: "(real \<Rightarrow> real) \<Rightarrow> string \<Rightarrow> usize \<Rightarrow> metric_call list" where
  "record_queue_depth rnd handler_id depth =
     (let ls = MetricLabels_insert ''handler_id'' handler_id MetricLabels_new
      in [GaugeCall ''kafpy.queue.depth'' (rnd (real (unat depth))) (as_slice ls)])"

definition record_dlq_message :: "string \<Rightarrow> string \<Rightarrow> metric_call list" where
  "record_dlq_message dest origin =
     (let ls = MetricLabels_insert ''original_topic'' origin (MetricLabels_insert ''dlq_topic'' dest MetricLabels_new)
      in [CounterCall ''kafpy.dlq.messages'' (as_slice ls)])"

definition record_branch_completion :: "nat \<Rightarrow> string \<Rightarrow> string \<Rightarrow> metric_call list" where
  "record_branch_completion fan_out_id branch_name branch_outcome =
     (let ls = MetricLabels_insert ''branch_outcome'' branch_outcome (MetricLabels_insert ''branch_name'' branch_name
                 (MetricLabels_insert ''fan_out_id'' (show_nat fan_out_id) MetricLabels_new))
      in [CounterCall ''kafpy.fanout.branch_total'' (as_slice ls)])"

fun outcome_from_result :: "BranchResult \<Rightarrow> string" where
  "outcome_from_result BrOk = ''ok''"
| "outcome_from_result (BrError _ _) = ''error''"
| "outcome_from_result (BrTimeout _) = ''timeout''"

definition record_timeout :: "string \<Rightarrow> string \<Rightarrow> metric_call list" where
  "record_timeout topic handler_name =
     (let ls = MetricLabels_insert ''handler_name'' handler_name (MetricLabels_insert ''topic'' topic MetricLabels_new)
      in [CounterCall ''kafpy.handler.timeout_total'' (as_slice ls)])"

definition record_call :: "(real \<Rightarrow> real) \<Rightarrow> string \<Rightarrow> string \<Rightarrow> duration \<Rightarrow> nat \<Rightarrow> metric_call list" where
  "record_call rnd path mode elapsed batch_size =
     (let ls = MetricLabels_insert ''path'' path (MetricLabels_insert ''mode'' mode MetricLabels_new)
      in [CounterCall ''kafpy.python.call_total'' (as_slice ls),
          HistogramCall ''kafpy.python.call_duration_seconds'' (as_secs_f64 rnd elapsed) (as_slice ls),
          HistogramCall ''kafpy.python.batch_size'' (rnd (real batch_size)) (as_slice ls)])"

definition record_queue_wait :: "(real \<Rightarrow> real) \<Rightarrow> string \<Rightarrow> string \<Rightarrow> duration \<Rightarrow> metric_call list" where
  "record_queue_wait rnd path mode elapsed =
     (let ls = MetricLabels_insert ''path'' path (MetricLabels_insert ''mode'' mode MetricLabels_new)
      in [HistogramCall ''kafpy.python.queue_wait_seconds'' (as_secs_f64 rnd elapsed) (as_slice ls)])"

record QueueSnapshot =
  qs_queue_depth :: usize
  qs_inflight :: usize

definition QueueSnapshot_new :: QueueSnapshot where
  "QueueSnapshot_new = \<lparr>qs_queue_depth = 0, qs_inflight = 0\<rparr>"

section \<open>What the workers record\<close>

text \<open>Durations of one invocation: waiting for a permit, the call, and from start to end.\<close>

record invocation_times =
  it_wait :: duration
  it_call :: duration
  it_total :: duration

definition worker_records ::
  "(real \<Rightarrow> real) \<Rightarrow> PythonHandler \<Rightarrow> ExecutionContext \<Rightarrow> ExecutionResult \<Rightarrow> invocation_times \<Rightarrow> metric_call list" where
  "worker_records rnd h ctx result t =
     (let mode = HandlerMode_str (ph_mode h);
          invocation_labels = MetricLabels_insert ''mode'' mode (MetricLabels_insert ''topic'' (ctx_topic ctx)
            (MetricLabels_insert ''handler_id'' (ctx_topic ctx) MetricLabels_new));
          error_labels = MetricLabels_insert ''error_type'' (error_type_label result)
            (MetricLabels_insert ''handler_id'' (ctx_topic ctx) MetricLabels_new)
      in record_queue_wait rnd ''handler'' mode (it_wait t) @ record_call rnd ''handler'' mode (it_call t) 1
         @ record_invocation invocation_labels @ record_latency rnd invocation_labels (it_total t)
         @ record_throughput (ctx_topic ctx) (ph_name h) mode
         @ (if is_ok result then [] else record_error error_labels)
         @ (if is_timeout result then record_timeout (ctx_topic ctx) (ph_name h) else []))"

definition batch_result_records ::
  "(real \<Rightarrow> real) \<Rightarrow> string \<Rightarrow> i32 \<Rightarrow> nat \<Rightarrow> BatchExecutionResult \<Rightarrow> metric_call list" where
  "batch_result_records rnd topic part n result =
     (let batch_size_labels = MetricLabels_insert ''partition'' (show_int part) (MetricLabels_insert ''topic'' topic
            (MetricLabels_insert ''handler_id'' topic MetricLabels_new))
      in record_batch_size rnd batch_size_labels n
         @ (case result of
              AllSuccess offsets \<Rightarrow> concat (map (\<lambda>_. record_throughput topic topic ''BatchSync'') offsets)
            | AllFailure reason \<Rightarrow> []))"

definition batch_records ::
  "(real \<Rightarrow> real) \<Rightarrow> PythonHandler \<Rightarrow> string \<Rightarrow> i32 \<Rightarrow> nat \<Rightarrow> BatchExecutionResult \<Rightarrow> duration \<Rightarrow> metric_call list" where
  "batch_records rnd h topic part n result elapsed =
     record_call rnd ''handler'' (HandlerMode_str (ph_mode h)) elapsed n @ batch_result_records rnd topic part n result"

definition branch_records :: "nat \<Rightarrow> (nat \<times> BranchResult) list \<Rightarrow> string list \<Rightarrow> metric_call list" where
  "branch_records fan_out_id results sink_topics =
     concat (map (\<lambda>((_, r), topic). record_branch_completion fan_out_id topic (outcome_from_result r))
       (zip results sink_topics))"

fun middleware_records :: "(real \<Rightarrow> real) \<Rightarrow> mw_effect \<Rightarrow> metric_call list" where
  "middleware_records rnd (MwLatency ls d) = record_latency rnd ls d"
| "middleware_records rnd (MwThroughput topic handler mode) = record_throughput topic handler mode"
| "middleware_records rnd (MwErrorCount ls) = record_error ls"
| "middleware_records rnd _ = []"

section \<open>Labels are canonical\<close>

definition labels_of :: "labels \<Rightarrow> labels" where
  "labels_of ps = foldl (\<lambda>ls (k, v). MetricLabels_insert k v ls) MetricLabels_new ps"

lemma sort_key_snoc: "sort_key f (sort_key f xs @ [x]) = sort_key f (xs @ [x])"
proof (rule sym, rule properties_for_sort_key)
  show "filter (\<lambda>y. f k = f y) (sort_key f (sort_key f xs @ [x])) = filter (\<lambda>y. f k = f y) (xs @ [x])" for k
    using sort_key_stable [of f "f k" "sort_key f xs @ [x]"] sort_key_stable [of f "f k" xs]
    by (simp add: eq_commute)
qed simp_all

lemma labels_of_sort: "labels_of ps = sort_key fst ps"
proof (induction ps rule: rev_induct)
  case Nil
  then show ?case by (simp add: labels_of_def MetricLabels_new_def)
next
  case (snoc p ps)
  then show ?case
    by (cases p) (simp add: labels_of_def MetricLabels_insert_def sort_key_snoc)
qed

lemma as_slice_id [simp]: "as_slice ls = ls"
  by (simp add: as_slice_def case_prod_beta)

text \<open>
  Labels have one form: their keys are in ascending order, nothing is lost or
  added, and label sets built from the same pairs in different orders are equal when no key occurs twice.
\<close>

lemma labels_canonical:
  assumes "mset ps = mset qs" "distinct (map fst ps)"
  shows "as_slice (labels_of ps) = as_slice (labels_of qs)
     \<and> sorted (map fst (as_slice (labels_of ps))) \<and> mset (as_slice (labels_of ps)) = mset ps"
proof -
  have "inj_on fst (set ps)" using assms(2) by (simp add: distinct_map)
  then have "sort_key fst ps = sort_key fst qs"
    by (rule sort_key_inj_key_eq [rotated]) (simp_all add: assms(1))
  then show ?thesis using assms(1) by (simp add: labels_of_sort)
qed

section \<open>What a sink holds\<close>

text \<open>
  The promise behind the trait \<open>MetricsSink\<close>: a counter counts the calls that name it, a gauge shows the
  last value written under its name, a histogram the values given to it, and a call leaves the other
  families alone.
\<close>

fun counter_hits :: "string \<Rightarrow> metric_call \<Rightarrow> bool" where
  "counter_hits n (CounterCall name ls) = (name = n)"
| "counter_hits n _ = False"

fun gauge_writes :: "string \<Rightarrow> metric_call \<Rightarrow> real list" where
  "gauge_writes n (GaugeCall name v ls) = (if name = n then [v] else [])"
| "gauge_writes n _ = []"

fun observations :: "string \<Rightarrow> metric_call \<Rightarrow> real list" where
  "observations n (HistogramCall name v ls) = (if name = n then [v] else [])"
| "observations n _ = []"

locale metrics_sink =
  fixes call :: "'s \<Rightarrow> metric_call \<Rightarrow> 's"
    and counter :: "'s \<Rightarrow> string \<rightharpoonup> 64 word"
    and gauge :: "'s \<Rightarrow> string \<rightharpoonup> i64"
    and histogram :: "'s \<Rightarrow> string \<rightharpoonup> real list"
  assumes counter_call: "counter (call s c) n = map_option (\<lambda>x. if counter_hits n c then x + 1 else x) (counter s n)"
    and gauge_call: "gauge (call s c) n = map_option (\<lambda>g. foldl (\<lambda>_ v. f64_as_i64 v) g (gauge_writes n c)) (gauge s n)"
    and histogram_call: "histogram (call s c) n = map_option (\<lambda>vs. vs @ observations n c) (histogram s n)"
begin

lemma counter_run:
  "counter (foldl call s cs) n = map_option (\<lambda>x. x + of_nat (length (filter (counter_hits n) cs))) (counter s n)"
  by (induction cs arbitrary: s)
    (auto simp: counter_call option.map_comp comp_def ac_simps option.map_ident intro!: option.map_cong)

lemma gauge_run:
  "gauge (foldl call s cs) n =
     map_option (\<lambda>g. foldl (\<lambda>_ v. f64_as_i64 v) g (concat (map (gauge_writes n) cs))) (gauge s n)"
  by (induction cs arbitrary: s) (simp_all add: gauge_call option.map_comp comp_def option.map_ident)

lemma histogram_run:
  "histogram (foldl call s cs) n = map_option (\<lambda>vs. vs @ concat (map (observations n) cs)) (histogram s n)"
  by (induction cs arbitrary: s) (simp_all add: histogram_call option.map_comp comp_def option.map_ident)

lemma families_kept:
  "dom (counter (foldl call s cs)) = dom (counter s)" "dom (gauge (foldl call s cs)) = dom (gauge s)"
  "dom (histogram (foldl call s cs)) = dom (histogram s)"
  by (auto simp: dom_def counter_run gauge_run histogram_run)

end

interpretation prometheus: metrics_sink sink_call counters gauges histograms
proof unfold_locales
  fix s :: PrometheusSink and c n
  show "counters (sink_call s c) n = map_option (\<lambda>x. if counter_hits n c then x + 1 else x) (counters s n)"
    by (cases c; cases "counters s n")
      (auto simp: record_counter_def record_histogram_def record_gauge_def split: option.splits)
  show "gauges (sink_call s c) n = map_option (\<lambda>g. foldl (\<lambda>_ v. f64_as_i64 v) g (gauge_writes n c)) (gauges s n)"
    by (cases c) (auto simp: record_counter_def record_histogram_def record_gauge_def option.map_ident split: option.splits)
  show "histograms (sink_call s c) n = map_option (\<lambda>vs. vs @ observations n c) (histograms s n)"
    by (cases c) (auto simp: record_counter_def record_histogram_def record_gauge_def option.map_ident split: option.splits)
qed

section \<open>The registered families\<close>

lemma register_lookup:
  "counters (register_counter n h s) m = (if m = n then Some (case counters s n of None \<Rightarrow> 0 | Some c \<Rightarrow> c) else counters s m)"
  "counters (register_histogram n h s) = counters s" "counters (register_gauge n h s) = counters s"
  "histograms (register_histogram n h s) m
     = (if m = n then Some (case histograms s n of None \<Rightarrow> [] | Some vs \<Rightarrow> vs) else histograms s m)"
  "histograms (register_counter n h s) = histograms s" "histograms (register_gauge n h s) = histograms s"
  "gauges (register_gauge n h s) m = (if m = n then Some (case gauges s n of None \<Rightarrow> 0 | Some g \<Rightarrow> g) else gauges s m)"
  "gauges (register_counter n h s) = gauges s" "gauges (register_histogram n h s) = gauges s"
  by (auto simp: register_counter_def register_histogram_def register_gauge_def)

lemma shared_families:
  "counters SharedPrometheusSink_new ''kafpy.message.throughput'' = Some 0"
  "counters SharedPrometheusSink_new ''kafpy.handler.invocation'' = Some 0"
  "counters SharedPrometheusSink_new ''kafpy.handler.error'' = Some 0"
  "counters SharedPrometheusSink_new ''kafpy.dlq.messages'' = Some 0"
  "counters SharedPrometheusSink_new ''kafpy.handler.timeout_total'' = Some 0"
  "counters SharedPrometheusSink_new ''kafpy.python.call_total'' = Some 0"
  "counters SharedPrometheusSink_new ''kafpy.fanout.branch_total'' = Some 0"
  "histograms SharedPrometheusSink_new ''kafpy.handler.latency'' = Some []"
  "histograms SharedPrometheusSink_new ''kafpy.handler.batch_size'' = Some []"
  "histograms SharedPrometheusSink_new ''kafpy.python.call_duration_seconds'' = Some []"
  "histograms SharedPrometheusSink_new ''kafpy.python.queue_wait_seconds'' = Some []"
  "histograms SharedPrometheusSink_new ''kafpy.python.batch_size'' = Some []"
  "gauges SharedPrometheusSink_new ''kafpy.queue.depth'' = Some 0"
  "gauges SharedPrometheusSink_new ''kafpy.consumer.lag'' = Some 0"
  by (simp_all add: SharedPrometheusSink_new_def Let_def register_lookup PrometheusSink_new_def)

fun registered :: "PrometheusSink \<Rightarrow> metric_call \<Rightarrow> bool" where
  "registered s (CounterCall name ls) = (counters s name \<noteq> None)"
| "registered s (HistogramCall name v ls) = (histograms s name \<noteq> None)"
| "registered s (GaugeCall name v ls) = (gauges s name \<noteq> None)"

lemmas recorder_defs = record_invocation_def record_latency_def record_error_def record_batch_size_def
  record_throughput_def record_lag_def record_queue_depth_def record_dlq_message_def
  record_branch_completion_def record_timeout_def record_call_def record_queue_wait_def Let_def

lemma recorders_registered:
  "list_all (registered SharedPrometheusSink_new) (record_invocation ls)"
  "list_all (registered SharedPrometheusSink_new) (record_latency rnd ls d)"
  "list_all (registered SharedPrometheusSink_new) (record_error ls)"
  "list_all (registered SharedPrometheusSink_new) (record_batch_size rnd ls n)"
  "list_all (registered SharedPrometheusSink_new) (record_throughput a b c)"
  "list_all (registered SharedPrometheusSink_new) (record_lag rnd a part lag)"
  "list_all (registered SharedPrometheusSink_new) (record_queue_depth rnd a depth)"
  "list_all (registered SharedPrometheusSink_new) (record_dlq_message a b)"
  "list_all (registered SharedPrometheusSink_new) (record_branch_completion n a b)"
  "list_all (registered SharedPrometheusSink_new) (record_timeout a b)"
  "list_all (registered SharedPrometheusSink_new) (record_call rnd a b d n)"
  "list_all (registered SharedPrometheusSink_new) (record_queue_wait rnd a b d)"
  by (simp_all add: recorder_defs shared_families)

lemma list_all_concat_map: "(\<And>x. x \<in> set xs \<Longrightarrow> list_all P (f x)) \<Longrightarrow> list_all P (concat (map f xs))"
  by (induction xs) simp_all

text \<open>
  No record is lost: whatever a worker, a batch, a fan-out, the metrics middleware, the
  snapshot task or the dead-letter producer records names a family of the right kind that the
  shared sink has registered, before and after any other records.
\<close>

lemma records_reach_families:
  "list_all (registered (foldl sink_call SharedPrometheusSink_new cs))
     (worker_records rnd h ctx result t @ batch_records rnd h topic part n bresult d
      @ branch_records fid results sinks @ middleware_records rnd eff
      @ record_lag rnd topic part lag @ record_queue_depth rnd topic depth @ record_dlq_message topic origin)"
proof -
  have same: "registered (foldl sink_call s cs) = registered s" for s
  proof
    show "registered (foldl sink_call s cs) c = registered s c" for c
      using prometheus.families_kept [of s cs] by (cases c) (auto simp: dom_def set_eq_iff)
  qed
  have "list_all (registered SharedPrometheusSink_new) (batch_records rnd h topic part n bresult d)"
    by (auto simp: batch_records_def batch_result_records_def Let_def recorders_registered split: BatchExecutionResult.splits
        intro: list_all_concat_map)
  moreover have "list_all (registered SharedPrometheusSink_new) (branch_records fid results sinks)"
    by (auto simp: branch_records_def recorders_registered intro!: list_all_concat_map)
  moreover have "list_all (registered SharedPrometheusSink_new) (middleware_records rnd eff)"
    by (cases eff) (simp_all add: recorders_registered)
  ultimately show ?thesis by (simp add: same worker_records_def Let_def recorders_registered)
qed

section \<open>What the counters mean\<close>

type_synonym handled_call = "PythonHandler \<times> ExecutionContext \<times> ExecutionResult \<times> invocation_times"

definition call_result :: "handled_call \<Rightarrow> ExecutionResult" where
  "call_result c = (case c of (h, ctx, r, t) \<Rightarrow> r)"

definition call_records :: "(real \<Rightarrow> real) \<Rightarrow> handled_call \<Rightarrow> metric_call list" where
  "call_records rnd c = (case c of (h, ctx, r, t) \<Rightarrow> worker_records rnd h ctx r t)"

lemma worker_hits:
  "length (filter (counter_hits ''kafpy.handler.invocation'') (call_records rnd c)) = 1"
  "length (filter (counter_hits ''kafpy.message.throughput'') (call_records rnd c)) = 1"
  "length (filter (counter_hits ''kafpy.handler.error'') (call_records rnd c)) = (if is_ok (call_result c) then 0 else 1)"
  "length (filter (counter_hits ''kafpy.handler.timeout_total'') (call_records rnd c))
     = (if is_timeout (call_result c) then 1 else 0)"
  by (cases c; simp add: call_records_def call_result_def worker_records_def recorder_defs)+

lemma length_filter_concat_map:
  "(\<And>x. length (filter P (f x)) = (if Q x then 1 else 0)) \<Longrightarrow>
     length (filter P (concat (map f xs))) = length (filter Q xs)"
  by (induction xs) simp_all

text \<open>
  What the counters of a worker show after any number of invocations: the
  invocation counter and, despite its description as messages delivered, the throughput counter
  count every attempt, failed or not; the error counter counts the results that are not successes
  and the timeout counter the timeouts. No label separates handlers or topics.
\<close>

lemma worker_counters:
  "let s = foldl sink_call SharedPrometheusSink_new (concat (map (call_records rnd) calls))
   in counters s ''kafpy.handler.invocation'' = Some (of_nat (length calls))
      \<and> counters s ''kafpy.message.throughput'' = Some (of_nat (length calls))
      \<and> counters s ''kafpy.handler.error'' = Some (of_nat (length (filter (\<lambda>c. \<not> is_ok (call_result c)) calls)))
      \<and> counters s ''kafpy.handler.timeout_total'' = Some (of_nat (length (filter (\<lambda>c. is_timeout (call_result c)) calls)))"
proof -
  have "length (filter (counter_hits ''kafpy.handler.invocation'') (concat (map (call_records rnd) calls))) = length calls"
    "length (filter (counter_hits ''kafpy.message.throughput'') (concat (map (call_records rnd) calls))) = length calls"
    by (simp_all add: length_filter_concat_map [where Q = "\<lambda>_. True"] worker_hits)
  moreover have "length (filter (counter_hits ''kafpy.handler.error'') (concat (map (call_records rnd) calls)))
      = length (filter (\<lambda>c. \<not> is_ok (call_result c)) calls)"
    "length (filter (counter_hits ''kafpy.handler.timeout_total'') (concat (map (call_records rnd) calls)))
      = length (filter (\<lambda>c. is_timeout (call_result c)) calls)"
    by (rule length_filter_concat_map, simp add: worker_hits)+
  ultimately show ?thesis by (simp add: prometheus.counter_run shared_families)
qed

text \<open>
  A gauge has one value for all its labels: after the depths of several handlers are recorded it
  shows the last one.
\<close>

lemma queue_depth_gauge_is_last:
  "gauges (foldl sink_call s (concat (map (\<lambda>(h, d). record_queue_depth rnd h d) (hds @ [(h, d)])))) ''kafpy.queue.depth''
     = map_option (\<lambda>_. f64_as_i64 (rnd (real (unat d)))) (gauges s ''kafpy.queue.depth'')"
  unfolding prometheus.gauge_run by (simp add: recorder_defs)

text \<open>Two registered families are never recorded.\<close>

lemma dead_families:
  "\<not> list_ex (counter_hits ''kafpy.python.backpressure_total'') (worker_records rnd h ctx result t)"
  "\<not> list_ex (counter_hits ''kafpy.python.backpressure_total'') (batch_records rnd h topic part n bresult d)"
  "concat (map (observations ''kafpy.fanout.branch_duration_seconds'') (branch_records fid results sinks)) = []"
  by (auto simp: worker_records_def batch_records_def batch_result_records_def branch_records_def recorder_defs list_ex_iff
      split: BatchExecutionResult.splits)

end
