(* ===== verification/Snapshot.thy ===== *)
theory Snapshot
  imports Metrics
begin

text \<open>
  Runtime snapshots (\<^verbatim>\<open>src/observability/runtime_snapshot.rs\<close>) and the Python functions that read them
  (\<^verbatim>\<open>src/consumer/runtime.rs\<close>): the status that workers post, one poll of the snapshot task, the global
  slot that holds the first task of the process, and the dictionary given to Python. It shows that
  the posted status mirrors the worker, what a poll copies, that only the first runtime of a process is
  ever visible, and that the dictionary determines the snapshot.
\<close>

section \<open>Data\<close>

datatype ObsWorkerState = ObsIdle | ObsActive string string i32 i64 | ObsBusy string

record QueueDepthInfo =
  qd_queue_depth :: usize
  qd_inflight :: usize

record PartitionAccumulatorInfo =
  pa_message_count :: nat
  pa_has_deadline :: bool
  pa_deadline_ms_remaining :: "i64 option"

record AccumulatorInfo =
  ai_total_messages :: nat
  ai_partitions :: "i32 \<rightharpoonup> PartitionAccumulatorInfo"

record PartitionLagInfo =
  pl_consumer_lag :: i64
  pl_committed_offset :: i64

record TopicLagInfo =
  tl_total_lag :: i64
  tl_partitions :: "i32 \<rightharpoonup> PartitionLagInfo"

record ConsumerLagSummary =
  cl_total_lag :: i64
  cl_per_topic :: "string \<rightharpoonup> TopicLagInfo"

definition ConsumerLagSummary_default :: ConsumerLagSummary where
  "ConsumerLagSummary_default = \<lparr>cl_total_lag = 0, cl_per_topic = Map.empty\<rparr>"

text \<open>A time is in nanoseconds since the Unix epoch.\<close>

record RuntimeSnapshot =
  rs_timestamp :: int
  rs_worker_states :: "nat \<rightharpoonup> ObsWorkerState"
  rs_queue_depths :: "string \<rightharpoonup> QueueDepthInfo"
  rs_accumulator_info :: "string \<rightharpoonup> AccumulatorInfo"
  rs_consumer_lag_summary :: ConsumerLagSummary

definition RuntimeSnapshot_default :: RuntimeSnapshot where
  "RuntimeSnapshot_default =
     \<lparr>rs_timestamp = 0, rs_worker_states = Map.empty, rs_queue_depths = Map.empty,
      rs_accumulator_info = Map.empty, rs_consumer_lag_summary = ConsumerLagSummary_default\<rparr>"

section \<open>The status that workers post\<close>

datatype WorkerStatus = StIdle | StActive string string i32 i64 | StBusy string

type_synonym WorkerPoolState = "nat \<rightharpoonup> WorkerStatus"

definition WorkerPoolState_new :: "nat \<Rightarrow> WorkerPoolState" where
  "WorkerPoolState_new n = (\<lambda>i. if i < n then Some StIdle else None)"

definition set_active :: "nat \<Rightarrow> string \<Rightarrow> string \<Rightarrow> i32 \<Rightarrow> i64 \<Rightarrow> WorkerPoolState \<Rightarrow> WorkerPoolState" where
  "set_active worker_id handler_id topic part offset s = s(worker_id \<mapsto> StActive handler_id topic part offset)"

definition set_busy :: "nat \<Rightarrow> string \<Rightarrow> WorkerPoolState \<Rightarrow> WorkerPoolState" where
  "set_busy worker_id handler_id s = s(worker_id \<mapsto> StBusy handler_id)"

definition set_idle :: "nat \<Rightarrow> WorkerPoolState \<Rightarrow> WorkerPoolState" where
  "set_idle worker_id s = s(worker_id \<mapsto> StIdle)"

definition get_states :: "WorkerPoolState \<Rightarrow> WorkerPoolState" where
  "get_states s = s"

text \<open>
  What a worker posts at each step of its loop: active when it picks a message, idle when it is
  done with it or stops in the middle of it. A panic posts nothing.
\<close>

fun post_status :: "nat \<Rightarrow> WorkerPoolState \<Rightarrow> worker_label \<Rightarrow> WorkerPoolState" where
  "post_status wid s (LPick m) = set_active wid (msg_topic m) (msg_topic m) (msg_partition m) (msg_offset m) s"
| "post_status wid s (LSettle m a) = set_idle wid s"
| "post_status wid s (LAbandon m) = set_idle wid s"
| "post_status wid s _ = s"

definition batch_status :: "nat \<Rightarrow> OwnedMessage list \<Rightarrow> WorkerPoolState \<Rightarrow> WorkerPoolState list" where
  \<comment> \<open>the statuses that one flush shows, in order\<close>
  "batch_status wid batch s =
     (if batch = [] then [] else let busy = set_busy wid ''shared'' s in [busy, set_idle wid busy])"

section \<open>One poll\<close>

fun WorkerState_of_status :: "WorkerStatus \<Rightarrow> ObsWorkerState" where
  "WorkerState_of_status StIdle = ObsIdle"
| "WorkerState_of_status (StActive h t p off) = ObsActive h t p off"
| "WorkerState_of_status (StBusy h) = ObsBusy h"

definition poll_queue_depths ::
  "(real \<Rightarrow> real) \<Rightarrow> string list \<Rightarrow> QueueManager option \<Rightarrow> (string \<rightharpoonup> QueueDepthInfo) \<times> metric_call list" where
  \<comment> \<open>\<open>ks\<close> is the order in which the hash map of queues is visited\<close>
  "poll_queue_depths rnd ks qm =
     (case qm of None \<Rightarrow> (Map.empty, [])
      | Some q \<Rightarrow>
         (map_option (\<lambda>(depth, infl). \<lparr>qd_queue_depth = depth, qd_inflight = infl\<rparr>) \<circ> queue_snapshots q,
          concat (map (\<lambda>k. case queue_snapshots q k of None \<Rightarrow> [] | Some (depth, _) \<Rightarrow> record_queue_depth rnd k depth) ks)))"

definition poll_worker_states :: "WorkerPoolState option \<Rightarrow> nat \<rightharpoonup> ObsWorkerState" where
  "poll_worker_states wps =
     (case wps of None \<Rightarrow> Map.empty | Some s \<Rightarrow> map_option WorkerState_of_status \<circ> get_states s)"

definition add_partition_lag :: "(string \<rightharpoonup> TopicLagInfo) \<Rightarrow> string \<Rightarrow> i32 \<Rightarrow> PartitionLagInfo \<Rightarrow> (string \<rightharpoonup> TopicLagInfo)" where
  \<comment> \<open>\<open>entry(topic).or_insert_with(..).partitions.insert(partition, part_info)\<close>\<close>
  "add_partition_lag per_topic topic part info =
     (let tinfo = (case per_topic topic of None \<Rightarrow> \<lparr>tl_total_lag = 0, tl_partitions = Map.empty\<rparr> | Some t \<Rightarrow> t)
      in per_topic(topic \<mapsto> tinfo\<lparr>tl_partitions := (tl_partitions tinfo)(part \<mapsto> info)\<rparr>))"

fun lag_loop ::
  "(real \<Rightarrow> real) \<Rightarrow> ((string \<times> i32) \<times> i64) list \<Rightarrow> i64 \<Rightarrow> (string \<rightharpoonup> TopicLagInfo)
   \<Rightarrow> i64 \<times> (string \<rightharpoonup> TopicLagInfo) \<times> metric_call list" where
  "lag_loop rnd [] acc per_topic = (acc, per_topic, [])"
| "lag_loop rnd (((topic, part), committed) # rest) acc per_topic =
     (let consumer_lag = 0;
          info = \<lparr>pl_consumer_lag = consumer_lag, pl_committed_offset = committed\<rparr>;
          (acc', per_topic', calls) = lag_loop rnd rest (acc + consumer_lag) (add_partition_lag per_topic topic part info)
      in (acc', per_topic', record_lag rnd topic part consumer_lag @ calls))"

definition topic_partitions :: "string \<Rightarrow> ((string \<times> i32) \<times> i64) list \<Rightarrow> i32 list" where
  "topic_partitions topic snapshots = map (snd \<circ> fst) (filter (\<lambda>e. fst (fst e) = topic) snapshots)"

definition sum_topic :: "i32 list \<Rightarrow> TopicLagInfo \<Rightarrow> TopicLagInfo" where
  "sum_topic ps t = t\<lparr>tl_total_lag :=
     sum_list (map (\<lambda>p. case tl_partitions t p of None \<Rightarrow> 0 | Some i \<Rightarrow> pl_consumer_lag i) ps)\<rparr>"

definition poll_consumer_lag ::
  "(real \<Rightarrow> real) \<Rightarrow> TopicPartitionKey list \<Rightarrow> OffsetTracker option \<Rightarrow> ConsumerLagSummary \<times> metric_call list" where
  "poll_consumer_lag rnd ks ot =
     (case ot of None \<Rightarrow> (ConsumerLagSummary_default, [])
      | Some t \<Rightarrow>
         (let snapshots = concat (map (\<lambda>k. case offset_snapshots t k of None \<Rightarrow> [] | Some c \<Rightarrow> [(k, c)]) ks);
              (total_lag, per_topic, calls) = lag_loop rnd snapshots 0 Map.empty
          in (\<lparr>cl_total_lag = total_lag,
               cl_per_topic = (\<lambda>topic. map_option (sum_topic (topic_partitions topic snapshots)) (per_topic topic))\<rparr>,
              calls)))"

definition poll_and_update ::
  "(real \<Rightarrow> real) \<Rightarrow> int \<Rightarrow> string list \<Rightarrow> TopicPartitionKey list \<Rightarrow> QueueManager option \<Rightarrow> OffsetTracker option
   \<Rightarrow> WorkerPoolState option \<Rightarrow> PrometheusSink \<Rightarrow> RuntimeSnapshot \<times> PrometheusSink" where
  "poll_and_update rnd now qks oks qm ot wps sink =
     (let (queue_depths, depth_calls) = poll_queue_depths rnd qks qm;
          (lag, lag_calls) = poll_consumer_lag rnd oks ot
      in (\<lparr>rs_timestamp = now, rs_worker_states = poll_worker_states wps, rs_queue_depths = queue_depths,
           rs_accumulator_info = Map.empty, rs_consumer_lag_summary = lag\<rparr>,
          foldl sink_call sink (depth_calls @ lag_calls)))"

section \<open>The global task\<close>

text \<open>
  Every runtime of the process spawns a task; the cell that Python reads is set once. The
  registry of callbacks is created when it is first asked for. Tasks are numbered in the order of
  their creation.
\<close>

record snapshot_globals =
  sg_tasks :: "RuntimeSnapshot list"
  sg_global :: "nat option"
  sg_callbacks :: "nat list"

definition snapshot_globals_new :: snapshot_globals where
  "snapshot_globals_new = \<lparr>sg_tasks = [], sg_global = None, sg_callbacks = []\<rparr>"

definition RuntimeSnapshotTask_spawn :: "snapshot_globals \<Rightarrow> snapshot_globals" where
  "RuntimeSnapshotTask_spawn g =
     g\<lparr>sg_tasks := sg_tasks g @ [RuntimeSnapshot_default],
       sg_global := (case sg_global g of None \<Rightarrow> Some (length (sg_tasks g)) | Some t \<Rightarrow> Some t)\<rparr>"

definition store_snapshot :: "nat \<Rightarrow> RuntimeSnapshot \<Rightarrow> snapshot_globals \<Rightarrow> snapshot_globals" where
  "store_snapshot i snap g = (if i < length (sg_tasks g) then g\<lparr>sg_tasks := (sg_tasks g)[i := snap]\<rparr> else g)"

definition get_snapshot :: "snapshot_globals \<Rightarrow> nat \<Rightarrow> RuntimeSnapshot" where
  "get_snapshot g i = sg_tasks g ! i"

definition get_current_snapshot :: "snapshot_globals \<Rightarrow> RuntimeSnapshot" where
  "get_current_snapshot g = (case sg_global g of None \<Rightarrow> RuntimeSnapshot_default | Some i \<Rightarrow> get_snapshot g i)"

definition get_callback_registry :: "snapshot_globals \<Rightarrow> nat list option" where
  "get_callback_registry g = map_option (\<lambda>_. sg_callbacks g) (sg_global g)"

definition register_status_callback :: "nat \<Rightarrow> snapshot_globals \<Rightarrow> snapshot_globals" where
  "register_status_callback callback g =
     (case get_callback_registry g of None \<Rightarrow> g | Some cbs \<Rightarrow> g\<lparr>sg_callbacks := cbs @ [callback]\<rparr>)"

definition invoke_callbacks :: "snapshot_globals \<Rightarrow> nat list" where
  \<comment> \<open>the callables invoked after a poll: the body is empty\<close>
  "invoke_callbacks g = []"

datatype snapshot_event = Spawn | Polled nat RuntimeSnapshot | Registered nat

fun snapshot_step :: "snapshot_globals \<Rightarrow> snapshot_event \<Rightarrow> snapshot_globals" where
  "snapshot_step g Spawn = RuntimeSnapshotTask_spawn g"
| "snapshot_step g (Polled i snap) = store_snapshot i snap g"
| "snapshot_step g (Registered c) = register_status_callback c g"

section \<open>The dictionary for Python\<close>

datatype py_key = KStr string | KInt int

datatype py_obj = OInt int | OStr string | OBool bool | ODict "py_key \<Rightarrow> py_obj option"

definition dict_of :: "(string \<times> py_obj) list \<Rightarrow> py_obj" where
  "dict_of kvs = ODict (\<lambda>k. case k of KStr s \<Rightarrow> map_of kvs s | KInt i \<Rightarrow> None)"

definition str_dict :: "('v \<Rightarrow> py_obj) \<Rightarrow> (string \<rightharpoonup> 'v) \<Rightarrow> py_obj" where
  "str_dict f m = ODict (\<lambda>k. case k of KStr s \<Rightarrow> map_option f (m s) | KInt i \<Rightarrow> None)"

definition int_dict :: "('v \<Rightarrow> py_obj) \<Rightarrow> (int \<rightharpoonup> 'v) \<Rightarrow> py_obj" where
  "int_dict f m = ODict (\<lambda>k. case k of KInt i \<Rightarrow> map_option f (m i) | KStr s \<Rightarrow> None)"

fun worker_state_dict :: "ObsWorkerState \<Rightarrow> py_obj" where
  "worker_state_dict ObsIdle = dict_of [(''status'', OStr ''idle'')]"
| "worker_state_dict (ObsActive handler_id topic part offset) =
     dict_of [(''status'', OStr ''active''), (''handler_id'', OStr handler_id), (''topic'', OStr topic),
              (''partition'', OInt part), (''offset'', OInt offset)]"
| "worker_state_dict (ObsBusy handler_id) =
     dict_of [(''status'', OStr ''busy''), (''handler_id'', OStr handler_id)]"

definition queue_depth_dict :: "QueueDepthInfo \<Rightarrow> py_obj" where
  "queue_depth_dict i =
     dict_of [(''queue_depth'', OInt (uint (qd_queue_depth i))), (''inflight'', OInt (uint (qd_inflight i)))]"

definition partition_accumulator_dict :: "PartitionAccumulatorInfo \<Rightarrow> py_obj" where
  "partition_accumulator_dict p =
     dict_of [(''message_count'', OInt (int (pa_message_count p))), (''has_deadline'', OBool (pa_has_deadline p)),
              (''deadline_ms_remaining'', OInt (case pa_deadline_ms_remaining p of None \<Rightarrow> - 1 | Some ms \<Rightarrow> ms))]"

definition accumulator_dict :: "AccumulatorInfo \<Rightarrow> py_obj" where
  "accumulator_dict a =
     dict_of [(''total_messages'', OInt (int (ai_total_messages a))),
              (''partitions'', int_dict partition_accumulator_dict (ai_partitions a))]"

definition partition_lag_dict :: "PartitionLagInfo \<Rightarrow> py_obj" where
  "partition_lag_dict p =
     dict_of [(''consumer_lag'', OInt (pl_consumer_lag p)), (''committed_offset'', OInt (pl_committed_offset p))]"

definition topic_lag_dict :: "TopicLagInfo \<Rightarrow> py_obj" where
  "topic_lag_dict t =
     dict_of [(''total_lag'', OInt (tl_total_lag t)), (''partitions'', int_dict partition_lag_dict (tl_partitions t))]"

definition lag_dict :: "ConsumerLagSummary \<Rightarrow> py_obj" where
  "lag_dict c =
     dict_of [(''total_lag'', OInt (cl_total_lag c)), (''per_topic'', str_dict topic_lag_dict (cl_per_topic c))]"

definition snapshot_to_pydict :: "RuntimeSnapshot \<Rightarrow> py_obj" where
  "snapshot_to_pydict s =
     dict_of [(''timestamp'', OInt (if 0 \<le> rs_timestamp s then rs_timestamp s div 1000000000 else 0)),
              (''worker_states'', int_dict worker_state_dict (\<lambda>i. if 0 \<le> i then rs_worker_states s (nat i) else None)),
              (''queue_depths'', str_dict queue_depth_dict (rs_queue_depths s)),
              (''accumulator_info'', str_dict accumulator_dict (rs_accumulator_info s)),
              (''consumer_lag_summary'', lag_dict (rs_consumer_lag_summary s))]"

definition get_runtime_snapshot :: "snapshot_globals \<Rightarrow> py_obj" where
  "get_runtime_snapshot g = snapshot_to_pydict (get_current_snapshot g)"

section \<open>The status mirrors the worker\<close>

definition shown_status :: "worker \<Rightarrow> WorkerStatus" where
  "shown_status w =
     (case wk_state w of Idle \<Rightarrow> StIdle
      | Processing m \<Rightarrow> if wk_stopped w then StIdle
                         else StActive (msg_topic m) (msg_topic m) (msg_partition m) (msg_offset m))"

fun is_panic :: "worker_label \<Rightarrow> bool" where
  "is_panic (LPanic m) = True"
| "is_panic _ = False"

lemmas status_defs = set_active_def set_busy_def set_idle_def shown_status_def

lemma status_step:
  assumes "worker_step rt utf8 wid topic w l w'" "s wid = Some (shown_status w)" "\<not> is_panic l"
  shows "post_status wid s l wid = Some (shown_status w')"
  using assms by (cases rule: worker_step.cases) (auto simp: status_defs split: WorkerState.splits)

text \<open>
  The posted status of a worker refines its state: after any run of a worker without
  a panic, interleaved with anything else, the pool shows it active on exactly the message it is
  processing, and idle when it waits or has stopped. No other worker's status changes.
\<close>

lemma status_mirrors_worker:
  assumes "worker_run rt utf8 wid topic w ls w'" "wk_state w = Idle" "wid < n" "\<not> list_ex is_panic ls"
  shows "foldl (post_status wid) (WorkerPoolState_new n) ls wid = Some (shown_status w')
     \<and> (other = wid \<or> foldl (post_status wid) (WorkerPoolState_new n) ls other = WorkerPoolState_new n other)"
  using assms
proof (induction rule: worker_run.induct)
  case (run_nil w)
  then show ?case by (simp add: WorkerPoolState_new_def shown_status_def)
next
  case (run_snoc w ls w1 l w2)
  then have IH: "foldl (post_status wid) (WorkerPoolState_new n) ls wid = Some (shown_status w1)"
    "other = wid \<or> foldl (post_status wid) (WorkerPoolState_new n) ls other = WorkerPoolState_new n other"
    by simp_all
  have "post_status wid s l other = s other" if "other \<noteq> wid" for s
    using that by (cases l) (simp_all add: status_defs)
  moreover have "post_status wid (foldl (post_status wid) (WorkerPoolState_new n) ls) l wid = Some (shown_status w2)"
    by (rule status_step [OF run_snoc.hyps(2)]) (use IH(1) run_snoc.prems in simp_all)
  ultimately show ?case using IH(2) by (cases "other = wid") simp_all
qed

section \<open>What a poll copies\<close>

definition lag_of :: "(string \<rightharpoonup> TopicLagInfo) \<Rightarrow> string \<Rightarrow> i32 \<Rightarrow> PartitionLagInfo option" where
  "lag_of m topic part = (case m topic of None \<Rightarrow> None | Some t \<Rightarrow> tl_partitions t part)"

lemma lag_of_add:
  "lag_of (add_partition_lag m topic part info) t p = (if t = topic \<and> p = part then Some info else lag_of m t p)"
  by (auto simp: lag_of_def add_partition_lag_def Let_def split: option.splits)

lemma lag_loop_partitions:
  "distinct (map fst sn) \<Longrightarrow> lag_loop rnd sn acc m = (acc', m', calls) \<Longrightarrow>
     acc' = acc \<and> lag_of m' t p = (case map_of sn (t, p) of None \<Rightarrow> lag_of m t p
       | Some c \<Rightarrow> Some \<lparr>pl_consumer_lag = 0, pl_committed_offset = c\<rparr>)"
proof (induction rnd sn acc m arbitrary: acc' m' calls rule: lag_loop.induct)
  case (1 rnd acc m)
  then show ?case by simp
next
  case (2 rnd topic part committed rest acc m)
  let ?m = "add_partition_lag m topic part \<lparr>pl_consumer_lag = 0, pl_committed_offset = committed\<rparr>"
  obtain a b c where rest: "lag_loop rnd rest acc ?m = (a, b, c)" by (cases "lag_loop rnd rest acc ?m")
  with 2 have "a = acc \<and> lag_of b t p = (case map_of rest (t, p) of None \<Rightarrow> lag_of ?m t p
       | Some c \<Rightarrow> Some \<lparr>pl_consumer_lag = 0, pl_committed_offset = c\<rparr>)" by simp
  moreover have "(topic, part) \<notin> dom (map_of rest)" using "2.prems" by (simp add: dom_map_of_conv_image_fst)
  ultimately show ?case using "2.prems" rest
    by (auto simp: Let_def lag_of_add split: option.splits)
qed

definition tracked :: "OffsetTracker \<Rightarrow> TopicPartitionKey list \<Rightarrow> (TopicPartitionKey \<times> i64) list" where
  "tracked t ks = concat (map (\<lambda>k. case offset_snapshots t k of None \<Rightarrow> [] | Some c \<Rightarrow> [(k, c)]) ks)"

lemma map_of_tracked: "map_of (tracked t ks) k = (if k \<in> set ks then offset_snapshots t k else None)"
  by (induction ks) (auto simp: tracked_def split: option.splits)

lemma fst_tracked: "fst ` set (tracked t ks) \<subseteq> set ks"
  by (auto simp: tracked_def split: option.splits)

lemma distinct_tracked: "distinct ks \<Longrightarrow> distinct (map fst (tracked t ks))"
proof (induction ks)
  case (Cons k ks)
  then show ?case using fst_tracked [of t ks]
    by (auto simp: tracked_def split: option.splits)
qed (simp add: tracked_def)

lemma poll_lag_partitions:
  assumes "iterates ks (partitions t)" "poll_consumer_lag rnd ks (Some t) = (lag, calls)"
  shows "cl_total_lag lag = 0 \<and> lag_of (cl_per_topic lag) topic part =
     map_option (\<lambda>st. \<lparr>pl_consumer_lag = 0, pl_committed_offset = committed_offset st\<rparr>) (partitions t (topic, part))"
proof -
  obtain a m c where loop: "lag_loop rnd (tracked t ks) 0 Map.empty = (a, m, c)"
    by (cases "lag_loop rnd (tracked t ks) 0 Map.empty")
  from assms(1) have ks: "distinct ks" "set ks = dom (partitions t)" by (simp_all add: iterates_def)
  from lag_loop_partitions [OF distinct_tracked [OF ks(1)] loop, of topic part]
  have "a = 0" "lag_of m topic part =
      map_option (\<lambda>st. \<lparr>pl_consumer_lag = 0, pl_committed_offset = committed_offset st\<rparr>) (partitions t (topic, part))"
    by (auto simp: map_of_tracked ks(2) offset_snapshots_def lag_of_def split: option.splits)
  moreover have "lag = \<lparr>cl_total_lag = a,
      cl_per_topic = (\<lambda>topic. map_option (sum_topic (topic_partitions topic (tracked t ks))) (m topic))\<rparr>"
    using assms(2) loop by (simp add: poll_consumer_lag_def tracked_def [symmetric])
  ultimately show ?thesis by (auto simp: lag_of_def sum_topic_def split: option.splits)
qed

text \<open>
  What Python sees of a poll: every queue with its counters, every worker with its
  posted status, every tracked partition with the offset the tracker holds as committed and no
  others. Nothing is known of accumulators, and every lag is reported as zero.
\<close>

lemma poll_reflects_components:
  assumes "iterates oks (partitions t)" "poll_and_update rnd now qks oks (Some q) (Some t) (Some wps) sink = (snap, sink')"
  shows "rs_queue_depths snap topic
       = map_option (\<lambda>h. \<lparr>qd_queue_depth = queue_depth h, qd_inflight = inflight h\<rparr>) (q topic)
     \<and> rs_worker_states snap wid = map_option WorkerState_of_status (wps wid)
     \<and> lag_of (cl_per_topic (rs_consumer_lag_summary snap)) topic part
       = map_option (\<lambda>st. \<lparr>pl_consumer_lag = 0, pl_committed_offset = committed_offset st\<rparr>) (partitions t (topic, part))
     \<and> cl_total_lag (rs_consumer_lag_summary snap) = 0 \<and> rs_accumulator_info snap = Map.empty"
proof -
  obtain lag calls where lag: "poll_consumer_lag rnd oks (Some t) = (lag, calls)"
    by (cases "poll_consumer_lag rnd oks (Some t)")
  with assms(2) show ?thesis using poll_lag_partitions [OF assms(1) lag, of topic part]
    by (auto simp: poll_and_update_def poll_queue_depths_def poll_worker_states_def get_states_def
        queue_snapshots_def option.map_comp comp_def)
qed

section \<open>Only the first runtime is visible\<close>

fun seen_by :: "nat \<Rightarrow> RuntimeSnapshot \<Rightarrow> snapshot_event \<Rightarrow> RuntimeSnapshot" where
  "seen_by i s (Polled j snap) = (if i = j then snap else s)"
| "seen_by i s _ = s"

lemma global_task_kept:
  assumes "sg_global g = Some 0" "sg_tasks g \<noteq> []"
  shows "sg_global (foldl snapshot_step g es) = Some 0 \<and> sg_tasks (foldl snapshot_step g es) \<noteq> []
     \<and> get_current_snapshot (foldl snapshot_step g es) = foldl (seen_by 0) (get_current_snapshot g) es"
  using assms
proof (induction es arbitrary: g)
  case (Cons e es)
  have "sg_global (snapshot_step g e) = Some 0 \<and> sg_tasks (snapshot_step g e) \<noteq> []
      \<and> get_current_snapshot (snapshot_step g e) = seen_by 0 (get_current_snapshot g) e"
    using Cons.prems
    by (cases e) (auto simp: RuntimeSnapshotTask_spawn_def store_snapshot_def register_status_callback_def
        get_callback_registry_def get_current_snapshot_def get_snapshot_def nth_append)
  with Cons.IH [of "snapshot_step g e"] show ?case by simp
qed simp

fun early_event :: "snapshot_event \<Rightarrow> bool" where
  "early_event Spawn = False"
| "early_event _ = True"

lemma before_spawn: "list_all early_event es \<Longrightarrow> foldl snapshot_step snapshot_globals_new es = snapshot_globals_new"
proof (induction es)
  case (Cons e es)
  then show ?case
    by (cases e) (simp_all add: snapshot_globals_new_def store_snapshot_def register_status_callback_def
        get_callback_registry_def)
qed simp

text \<open>
  The snapshot that Python reads belongs to the first runtime of the process: whatever
  happens later, other runtimes included, it is what the first task stored last. Before any runtime is
  started the default is read, and callbacks registered until then are dropped.
\<close>

lemma first_runtime_is_shown:
  assumes "list_all early_event before"
  shows "get_runtime_snapshot (foldl snapshot_step snapshot_globals_new (before @ Spawn # es))
       = snapshot_to_pydict (foldl (seen_by 0) RuntimeSnapshot_default es)
     \<and> get_runtime_snapshot (foldl snapshot_step snapshot_globals_new before) = snapshot_to_pydict RuntimeSnapshot_default
     \<and> sg_callbacks (foldl snapshot_step snapshot_globals_new before) = []"
proof -
  let ?g = "RuntimeSnapshotTask_spawn snapshot_globals_new"
  have "sg_global ?g = Some 0" "sg_tasks ?g \<noteq> []" "get_current_snapshot ?g = RuntimeSnapshot_default"
    by (simp_all add: RuntimeSnapshotTask_spawn_def snapshot_globals_new_def get_current_snapshot_def get_snapshot_def)
  then have "get_current_snapshot (foldl snapshot_step ?g es) = foldl (seen_by 0) RuntimeSnapshot_default es"
    using global_task_kept [of ?g es] by simp
  moreover have "get_current_snapshot snapshot_globals_new = RuntimeSnapshot_default"
    "sg_callbacks snapshot_globals_new = []"
    by (simp_all add: snapshot_globals_new_def get_current_snapshot_def)
  ultimately show ?thesis by (simp add: before_spawn [OF assms] get_runtime_snapshot_def)
qed

section \<open>The dictionary determines the snapshot\<close>

fun dict_get :: "string \<Rightarrow> py_obj \<Rightarrow> py_obj option" where
  "dict_get k (ODict f) = f (KStr k)"
| "dict_get k _ = None"

lemma dict_get_dict_of [simp]: "dict_get k (dict_of kvs) = map_of kvs k"
  by (simp add: dict_of_def)

lemma str_dict_inject: "inj f \<Longrightarrow> str_dict f m = str_dict f m' \<longleftrightarrow> m = m'"
proof
  assume f: "inj f" and eq: "str_dict f m = str_dict f m'"
  show "m = m'"
  proof
    fix k
    have "map_option f (m k) = map_option f (m' k)"
      using arg_cong [OF eq, of "dict_get k"] by (simp add: str_dict_def)
    then show "m k = m' k" using option.inj_map [OF f] by (simp add: inj_eq)
  qed
qed simp

lemma int_dict_inject: "inj f \<Longrightarrow> int_dict f m = int_dict f m' \<longleftrightarrow> m = m'"
proof
  assume f: "inj f" and eq: "int_dict f m = int_dict f m'"
  show "m = m'"
  proof
    fix i
    have "(case KInt i of KInt i \<Rightarrow> map_option f (m i) | KStr s \<Rightarrow> None)
        = (case KInt i of KInt i \<Rightarrow> map_option f (m' i) | KStr s \<Rightarrow> None)"
      using eq unfolding int_dict_def by (metis py_obj.inject(4))
    then have "map_option f (m i) = map_option f (m' i)" by simp
    then show "m i = m' i" using option.inj_map [OF f] by (simp add: inj_eq)
  qed
qed simp

lemma dict_injI: "(\<And>x y. f x = f y \<Longrightarrow> (\<And>k. dict_get k (f x) = dict_get k (f y)) \<Longrightarrow> x = y) \<Longrightarrow> inj f"
  by (rule injI) metis

lemma worker_state_dict_inject: "inj worker_state_dict"
proof (rule dict_injI)
  fix x y
  assume get: "\<And>k. dict_get k (worker_state_dict x) = dict_get k (worker_state_dict y)"
  show "x = y"
    using get [of "''status''"] get [of "''handler_id''"] get [of "''topic''"] get [of "''partition''"] get [of "''offset''"]
    by (cases x; cases y) simp_all
qed

lemma queue_depth_dict_inject: "inj queue_depth_dict"
proof (rule dict_injI)
  fix x y
  assume get: "\<And>k. dict_get k (queue_depth_dict x) = dict_get k (queue_depth_dict y)"
  show "x = y" using get [of "''queue_depth''"] get [of "''inflight''"]
    by (cases x; cases y) (simp add: queue_depth_dict_def word_uint_eq_iff)
qed

lemma partition_lag_dict_inject: "inj partition_lag_dict"
proof (rule dict_injI)
  fix x y
  assume get: "\<And>k. dict_get k (partition_lag_dict x) = dict_get k (partition_lag_dict y)"
  show "x = y" using get [of "''consumer_lag''"] get [of "''committed_offset''"]
    by (simp add: partition_lag_dict_def)
qed

lemma topic_lag_dict_inject: "inj topic_lag_dict"
proof (rule dict_injI)
  fix x y
  assume get: "\<And>k. dict_get k (topic_lag_dict x) = dict_get k (topic_lag_dict y)"
  show "x = y" using get [of "''total_lag''"] get [of "''partitions''"]
    by (simp add: topic_lag_dict_def int_dict_inject [OF partition_lag_dict_inject])
qed

lemma lag_dict_inject: "inj lag_dict"
proof (rule dict_injI)
  fix x y
  assume get: "\<And>k. dict_get k (lag_dict x) = dict_get k (lag_dict y)"
  show "x = y" using get [of "''total_lag''"] get [of "''per_topic''"]
    by (simp add: lag_dict_def str_dict_inject [OF topic_lag_dict_inject])
qed

text \<open>
  Nothing of a snapshot is lost on the way to Python except fractions of a second
  and, if accumulators were ever reported, the difference between a missing deadline and one
  reported as minus one: equal dictionaries come from snapshots with the same seconds, workers, queues
  and lags.
\<close>

lemma snapshot_dict_determines:
  "snapshot_to_pydict s = snapshot_to_pydict s' \<longleftrightarrow>
     (max 0 (rs_timestamp s) div 1000000000 = max 0 (rs_timestamp s') div 1000000000
      \<and> rs_worker_states s = rs_worker_states s' \<and> rs_queue_depths s = rs_queue_depths s'
      \<and> rs_consumer_lag_summary s = rs_consumer_lag_summary s'
      \<and> str_dict accumulator_dict (rs_accumulator_info s) = str_dict accumulator_dict (rs_accumulator_info s'))"
    (is "?l \<longleftrightarrow> ?r")
proof
  have time: "(if 0 \<le> x then x div 1000000000 else 0) = max 0 x div (1000000000 :: int)" for x by (simp add: max_def)
  assume eq: ?l
  then have get: "dict_get k (snapshot_to_pydict s) = dict_get k (snapshot_to_pydict s')" for k by simp
  have workers: "(\<lambda>i. if 0 \<le> i then rs_worker_states s (nat i) else None)
      = (\<lambda>i. if 0 \<le> i then rs_worker_states s' (nat i) else None)"
    using get [of "''worker_states''"] by (simp add: snapshot_to_pydict_def int_dict_inject [OF worker_state_dict_inject])
  have "rs_worker_states s i = rs_worker_states s' i" for i
    using fun_cong [OF workers, of "int i"] by simp
  then have "rs_worker_states s = rs_worker_states s'" by blast
  then show ?r
    using get [of "''timestamp''"] get [of "''queue_depths''"] get [of "''consumer_lag_summary''"] get [of "''accumulator_info''"]
    by (simp add: snapshot_to_pydict_def time str_dict_inject [OF queue_depth_dict_inject] inj_eq [OF lag_dict_inject])
next
  have time: "(if 0 \<le> x then x div 1000000000 else 0) = max 0 x div (1000000000 :: int)" for x by (simp add: max_def)
  assume r: ?r
  then have "rs_worker_states s = rs_worker_states s'" by blast
  then have "(\<lambda>i. if 0 \<le> i then rs_worker_states s (nat i) else None)
      = (\<lambda>i. if 0 \<le> i then rs_worker_states s' (nat i) else None)" by presburger
  with r show ?l by (simp add: snapshot_to_pydict_def time)
qed

end
