(* ===== verification/Parsing.thy ===== *)
theory Parsing
  imports Prelude
begin

text \<open>
  What the Python-facing code takes from the Rust standard library and from \<^verbatim>\<open>pyo3\<close> to read settings
  out of text: Python errors as values with the early return of the \<open>?\<close> operator, \<open>str::parse\<close> for
  unsigned integers and booleans, \<open>str::trim\<close>, and environment variables. It shows that parsing
  inverts printing and that a parsed number fits its width.
\<close>

section \<open>Python errors\<close>

datatype PyErr = PyRuntimeError string | PyValueError string | PyTypeError string

definition try_bind :: "'e + 'a \<Rightarrow> ('a \<Rightarrow> 'e + 'b) \<Rightarrow> 'e + 'b" where
  \<comment> \<open>the \<open>?\<close> operator: the rest of the function runs only on a value\<close>
  "try_bind r f = (case r of Inl e \<Rightarrow> Inl e | Inr x \<Rightarrow> f x)"

lemma try_bind_simps [simp]:
  "try_bind (Inl e) f = Inl e"
  "try_bind (Inr x) f = f x"
  by (simp_all add: try_bind_def)

lemma try_bind_Inr_iff: "try_bind r f = Inr y \<longleftrightarrow> (\<exists>x. r = Inr x \<and> f x = Inr y)"
  by (cases r) simp_all

lemma try_bind_weak_cong: "r = r' \<Longrightarrow> try_bind r f = try_bind r' f"
  by simp

section \<open>Parsing numbers and booleans\<close>

definition is_digit :: "char \<Rightarrow> bool" where
  "is_digit c = (48 \<le> (of_char c :: nat) \<and> (of_char c :: nat) \<le> 57)"

definition digit_value :: "char \<Rightarrow> nat" where
  "digit_value c = of_char c - 48"

datatype ParseIntError = EmptyText | InvalidDigit | PosOverflow

fun parse_digits :: "nat \<Rightarrow> nat \<Rightarrow> string \<Rightarrow> ParseIntError + nat" where
  \<comment> \<open>one digit at a time with checked arithmetic in a type of \<open>w\<close> bits\<close>
  "parse_digits w acc [] = Inr acc"
| "parse_digits w acc (c # cs) =
     (if \<not> is_digit c then Inl InvalidDigit
      else if 2 ^ w \<le> acc * 10 + digit_value c then Inl PosOverflow
      else parse_digits w (acc * 10 + digit_value c) cs)"

definition parse_uint :: "nat \<Rightarrow> string \<Rightarrow> ParseIntError + nat" where
  "parse_uint w s =
     (if s = [] then Inl EmptyText
      else if s = ''+'' \<or> s = ''-'' then Inl InvalidDigit
      else parse_digits w 0 (if hd s = CHR ''+'' then tl s else s))"

fun ParseIntError_str :: "ParseIntError \<Rightarrow> string" where
  "ParseIntError_str EmptyText = ''cannot parse integer from empty string''"
| "ParseIntError_str InvalidDigit = ''invalid digit found in string''"
| "ParseIntError_str PosOverflow = ''number too large to fit in target type''"

definition py_parse_uint :: "nat \<Rightarrow> string \<Rightarrow> PyErr + nat" where
  "py_parse_uint w s = map_sum (\<lambda>e. PyValueError (ParseIntError_str e)) id (parse_uint w s)"

definition py_parse_bool :: "string \<Rightarrow> PyErr + bool" where
  "py_parse_bool s =
     (if s = ''true'' then Inr True else if s = ''false'' then Inr False
      else Inl (PyValueError ''provided string was not `true` or `false`''))"

lemma is_digit_digit_char: "n < 10 \<Longrightarrow> is_digit (digit_char n)"
  by (simp add: is_digit_def digit_char_def)

lemma digit_value_digit_char: "n < 10 \<Longrightarrow> digit_value (digit_char n) = n"
  by (simp add: digit_value_def digit_char_value)

lemma parse_digits_append:
  "parse_digits w acc (xs @ ys) = try_bind (parse_digits w acc xs) (\<lambda>a. parse_digits w a ys)"
  by (induction xs arbitrary: acc) simp_all

lemma parse_digits_show:
  "parse_digits w 0 (show_nat n) = (if n < 2 ^ w then Inr n else Inl PosOverflow)"
proof (induction n rule: show_nat.induct)
  case (1 n)
  show ?case
  proof (cases "n < 10")
    case True
    then show ?thesis
      by (simp add: show_nat.simps [of n] is_digit_digit_char digit_value_digit_char)
  next
    case False
    then have "parse_digits w 0 (show_nat (n div 10)) = (if n div 10 < 2 ^ w then Inr (n div 10) else Inl PosOverflow)"
      by (rule "1")
    moreover have "n < 2 ^ w \<Longrightarrow> n div 10 < 2 ^ w" by linarith
    ultimately show ?thesis using False
      by (auto simp: show_nat.simps [of n] parse_digits_append is_digit_digit_char digit_value_digit_char)
  qed
qed

lemma parse_digits_bound: "parse_digits w acc s = Inr n \<Longrightarrow> acc < 2 ^ w \<Longrightarrow> n < 2 ^ w"
  by (induction s arbitrary: acc) (auto split: if_splits)

lemma show_nat_digits: "c \<in> set (show_nat n) \<Longrightarrow> is_digit c"
proof (induction n rule: show_nat.induct)
  case (1 n)
  then show ?case
    by (cases "n < 10") (auto simp: show_nat.simps [of n] is_digit_digit_char)
qed

lemma show_nat_nonempty [simp]: "show_nat n \<noteq> []"
  by (subst show_nat.simps) simp

lemma hd_show_nat: "is_digit (hd (show_nat n))"
  by (rule show_nat_digits [of _ n]) simp

lemma not_digit_sign [simp]: "\<not> is_digit CHR ''+''" "\<not> is_digit CHR ''-''"
  by (simp_all add: is_digit_def)

lemma parse_show_nat [simp]:
  "py_parse_uint w (show_nat n) =
     (if n < 2 ^ w then Inr n else Inl (PyValueError ''number too large to fit in target type''))"
proof -
  have "hd (show_nat n) \<noteq> CHR ''+''" "show_nat n \<noteq> ''+''" "show_nat n \<noteq> ''-''"
    using hd_show_nat [of n] by (metis not_digit_sign list.sel(1))+
  then show ?thesis by (simp add: py_parse_uint_def parse_uint_def parse_digits_show)
qed

lemma py_parse_uint_bound: "py_parse_uint w s = Inr n \<Longrightarrow> n < 2 ^ w"
  by (auto simp: py_parse_uint_def parse_uint_def map_sum_def
      split: sum.splits if_splits dest: parse_digits_bound)

lemma parse_show_bool [simp]: "py_parse_bool (show_bool b) = Inr b"
  by (simp add: py_parse_bool_def show_bool_def)

section \<open>Trimming and splitting\<close>

definition is_space :: "char \<Rightarrow> bool" where
  \<comment> \<open>the white space of \<open>str::trim\<close> in ASCII: tab to carriage return, and the blank\<close>
  "is_space c = ((9 \<le> (of_char c :: nat) \<and> (of_char c :: nat) \<le> 13) \<or> c = CHR '' '')"

definition trim :: "string \<Rightarrow> string" where
  "trim s = rev (dropWhile is_space (rev (dropWhile is_space s)))"

lemma trim_idem_ends: "s \<noteq> [] \<Longrightarrow> \<not> is_space (hd s) \<Longrightarrow> \<not> is_space (last s) \<Longrightarrow> trim s = s"
proof -
  assume "s \<noteq> []" "\<not> is_space (hd s)" "\<not> is_space (last s)"
  then have "dropWhile is_space s = s" "dropWhile is_space (rev s) = rev s"
    by (simp_all add: dropWhile_eq_self_iff hd_rev)
  then show "trim s = s" by (simp add: trim_def)
qed

lemma trim_Nil [simp]: "trim [] = []"
  by (simp add: trim_def)

fun str_join :: "char \<Rightarrow> string list \<Rightarrow> string" where
  "str_join d [] = []"
| "str_join d [w] = w"
| "str_join d (w # v # ws) = w @ d # str_join d (v # ws)"

lemma split_join:
  "ws \<noteq> [] \<Longrightarrow> list_all (\<lambda>w. d \<notin> set w) ws \<Longrightarrow> str_split d (str_join d ws) = ws"
  by (induction d ws rule: str_join.induct) (simp_all add: str_split_no_delim str_split_append)

section \<open>Environment variables\<close>

type_synonym environ = "string \<rightharpoonup> string"
  \<comment> \<open>the variables that \<open>env::var\<close> answers for: present and valid text\<close>

definition var_or :: "environ \<Rightarrow> string \<Rightarrow> string \<Rightarrow> string" where
  "var_or e name dflt = (case e name of Some v \<Rightarrow> v | None \<Rightarrow> dflt)"

definition parse_var_opt :: "(string \<Rightarrow> PyErr + 'a) \<Rightarrow> environ \<Rightarrow> string \<Rightarrow> PyErr + 'a option" where
  \<comment> \<open>\<open>env::var(..).ok().map(|s| s.parse()).transpose()\<close>\<close>
  "parse_var_opt parse e name =
     (case e name of None \<Rightarrow> Inr None | Some s \<Rightarrow> map_sum id Some (parse s))"

lemma parse_var_opt_None [simp]: "e name = None \<Longrightarrow> parse_var_opt p e name = Inr None"
  by (simp add: parse_var_opt_def)

lemma parse_var_opt_map:
  "e name = map_option sh v \<Longrightarrow> (\<And>x. v = Some x \<Longrightarrow> p (sh x) = Inr x) \<Longrightarrow> parse_var_opt p e name = Inr v"
  by (cases v) (simp_all add: parse_var_opt_def)

lemma var_or_simps [simp]:
  "e name = None \<Longrightarrow> var_or e name d = d"
  "e name = Some v \<Longrightarrow> var_or e name d = v"
  by (simp_all add: var_or_def)

end
