(* ===== verification/PyConfig.thy ===== *)
theory PyConfig
  imports Config Parsing
begin

text \<open>
  The configuration classes that Python sees (\<^verbatim>\<open>src/config.rs\<close>): constructors with the defaults of
  their signatures, the readers of environment variables, and the fluent builders. Integers that
  Rust holds as \<open>u32\<close>, \<open>u64\<close> or \<open>usize\<close> are naturals; the readers check their width. It
  shows what a builder can build, that the readers invert printing, and that constructor, builder and
  environment agree on the defaults.
\<close>

section \<open>Constructors\<close>

definition PyConsumerConfig_new ::
  "string \<Rightarrow> string \<Rightarrow> string list \<Rightarrow> string \<Rightarrow> bool
   \<Rightarrow> nat \<Rightarrow> nat option \<Rightarrow> nat \<Rightarrow> nat \<Rightarrow>
   string option \<Rightarrow> string option \<Rightarrow> string option \<Rightarrow> string option
   \<Rightarrow> nat \<Rightarrow> nat \<Rightarrow> string \<Rightarrow> nat \<Rightarrow> nat
   \<Rightarrow> PyRetryPolicy option \<Rightarrow> string option \<Rightarrow> nat option
   \<Rightarrow> nat option \<Rightarrow> bool option \<Rightarrow> PyObservabilityConfig option
   \<Rightarrow> nat option \<Rightarrow> PyConsumerConfig" where
  "PyConsumerConfig_new brokers group_id topics auto_offset_reset enable_auto_commit session_timeout_ms
     bootstrap_timeout_ms heartbeat_interval_ms max_poll_interval_ms security_protocol
     sasl_mechanism sasl_username sasl_password fetch_min_bytes max_partition_fetch_bytes
     partition_assignment_strategy retry_backoff_ms message_batch_size default_retry_policy
     dlq_topic_prefix drain_timeout_secs num_workers enable_auto_offset_store observability_config
     handler_timeout_ms =
     \<lparr>py_brokers = brokers, py_group_id = group_id, py_topics = topics,
      py_auto_offset_reset = auto_offset_reset, py_enable_auto_commit = enable_auto_commit,
      py_session_timeout_ms = session_timeout_ms, py_bootstrap_timeout_ms = bootstrap_timeout_ms,
      py_heartbeat_interval_ms = heartbeat_interval_ms, py_max_poll_interval_ms = max_poll_interval_ms,
      py_security_protocol = security_protocol, py_sasl_mechanism = sasl_mechanism,
      py_sasl_username = sasl_username, py_sasl_password = sasl_password,
      py_fetch_min_bytes = fetch_min_bytes, py_max_partition_fetch_bytes = max_partition_fetch_bytes,
      py_partition_assignment_strategy = partition_assignment_strategy,
      py_retry_backoff_ms = retry_backoff_ms, py_message_batch_size = message_batch_size,
      py_default_retry_policy = default_retry_policy, py_dlq_topic_prefix = dlq_topic_prefix,
      py_drain_timeout_secs = drain_timeout_secs, py_num_workers = num_workers,
      py_enable_auto_offset_store = enable_auto_offset_store,
      py_observability_config = observability_config, py_handler_timeout_ms = handler_timeout_ms\<rparr>"

record PyProducerConfig =
  pp_brokers :: string
  pp_message_timeout_ms :: nat
  pp_queue_buffering_max_messages :: nat
  pp_queue_buffering_max_kbytes :: nat
  pp_batch_num_messages :: nat
  pp_compression_type :: string
  pp_linger_ms :: nat
  pp_request_timeout_ms :: nat
  pp_retry_backoff_ms :: nat
  pp_retries :: nat
  pp_max_in_flight :: nat
  pp_enable_idempotence :: bool
  pp_acks :: string
  pp_security_protocol :: "string option"
  pp_sasl_mechanism :: "string option"
  pp_sasl_username :: "string option"
  pp_sasl_password :: "string option"

definition PyProducerConfig_new ::
  "string \<Rightarrow> nat \<Rightarrow> nat \<Rightarrow> nat \<Rightarrow> nat \<Rightarrow> string
   \<Rightarrow> nat \<Rightarrow> nat \<Rightarrow> nat \<Rightarrow> nat \<Rightarrow> nat
   \<Rightarrow> bool \<Rightarrow> string \<Rightarrow> string option \<Rightarrow> string option
   \<Rightarrow> string option \<Rightarrow> string option \<Rightarrow> PyProducerConfig" where
  "PyProducerConfig_new brokers message_timeout_ms queue_buffering_max_messages
     queue_buffering_max_kbytes batch_num_messages compression_type linger_ms request_timeout_ms
     retry_backoff_ms retries max_in_flight enable_idempotence acks security_protocol sasl_mechanism
     sasl_username sasl_password =
     \<lparr>pp_brokers = brokers, pp_message_timeout_ms = message_timeout_ms,
      pp_queue_buffering_max_messages = queue_buffering_max_messages,
      pp_queue_buffering_max_kbytes = queue_buffering_max_kbytes,
      pp_batch_num_messages = batch_num_messages, pp_compression_type = compression_type,
      pp_linger_ms = linger_ms, pp_request_timeout_ms = request_timeout_ms,
      pp_retry_backoff_ms = retry_backoff_ms, pp_retries = retries, pp_max_in_flight = max_in_flight,
      pp_enable_idempotence = enable_idempotence, pp_acks = acks,
      pp_security_protocol = security_protocol, pp_sasl_mechanism = sasl_mechanism,
      pp_sasl_username = sasl_username, pp_sasl_password = sasl_password\<rparr>"

text \<open>The defaults of the Python signatures.\<close>

definition PyConsumerConfig_default :: "string \<Rightarrow> string \<Rightarrow> string list \<Rightarrow> PyConsumerConfig" where
  "PyConsumerConfig_default brokers group_id topics = PyConsumerConfig_new brokers group_id topics
     ''earliest'' False 30000 None 3000 300000 None None None None 1 1048576 ''roundrobin'' 100 100
     None None None None None None None"

definition PyProducerConfig_default :: "string \<Rightarrow> PyProducerConfig" where
  "PyProducerConfig_default brokers = PyProducerConfig_new brokers 30000 100000 1048576 10000
     ''snappy'' 5 30000 100 2147483647 5 True ''all'' None None None None"

section \<open>The builder of the consumer configuration\<close>

record PyConsumerConfigBuilder =
  pcb_brokers :: "string option"
  pcb_group_id :: "string option"
  pcb_topics :: "string list"
  pcb_auto_offset_reset :: string
  pcb_enable_auto_commit :: bool
  pcb_session_timeout_ms :: nat
  pcb_bootstrap_timeout_ms :: "nat option"
  pcb_heartbeat_interval_ms :: nat
  pcb_max_poll_interval_ms :: nat
  pcb_security_protocol :: "string option"
  pcb_sasl_mechanism :: "string option"
  pcb_sasl_username :: "string option"
  pcb_sasl_password :: "string option"
  pcb_fetch_min_bytes :: nat
  pcb_max_partition_fetch_bytes :: nat
  pcb_partition_assignment_strategy :: string
  pcb_retry_backoff_ms :: nat
  pcb_message_batch_size :: nat
  pcb_default_retry_policy :: "PyRetryPolicy option"
  pcb_dlq_topic_prefix :: "string option"
  pcb_drain_timeout_secs :: "nat option"
  pcb_num_workers :: "nat option"
  pcb_enable_auto_offset_store :: "bool option"
  pcb_observability_config :: "PyObservabilityConfig option"
  pcb_handler_timeout_ms :: "nat option"

definition make_consumer_builder_clone :: "PyConsumerConfigBuilder \<Rightarrow> PyConsumerConfigBuilder" where
  "make_consumer_builder_clone b =
     \<lparr>pcb_brokers = pcb_brokers b, pcb_group_id = pcb_group_id b, pcb_topics = pcb_topics b,
      pcb_auto_offset_reset = pcb_auto_offset_reset b,
      pcb_enable_auto_commit = pcb_enable_auto_commit b,
      pcb_session_timeout_ms = pcb_session_timeout_ms b,
      pcb_bootstrap_timeout_ms = pcb_bootstrap_timeout_ms b,
      pcb_heartbeat_interval_ms = pcb_heartbeat_interval_ms b,
      pcb_max_poll_interval_ms = pcb_max_poll_interval_ms b,
      pcb_security_protocol = pcb_security_protocol b, pcb_sasl_mechanism = pcb_sasl_mechanism b,
      pcb_sasl_username = pcb_sasl_username b, pcb_sasl_password = pcb_sasl_password b,
      pcb_fetch_min_bytes = pcb_fetch_min_bytes b,
      pcb_max_partition_fetch_bytes = pcb_max_partition_fetch_bytes b,
      pcb_partition_assignment_strategy = pcb_partition_assignment_strategy b,
      pcb_retry_backoff_ms = pcb_retry_backoff_ms b, pcb_message_batch_size = pcb_message_batch_size b,
      pcb_default_retry_policy = pcb_default_retry_policy b,
      pcb_dlq_topic_prefix = pcb_dlq_topic_prefix b, pcb_drain_timeout_secs = pcb_drain_timeout_secs b,
      pcb_num_workers = pcb_num_workers b,
      pcb_enable_auto_offset_store = pcb_enable_auto_offset_store b,
      pcb_observability_config = pcb_observability_config b,
      pcb_handler_timeout_ms = pcb_handler_timeout_ms b\<rparr>"

definition PyConsumerConfigBuilder_new :: PyConsumerConfigBuilder where
  "PyConsumerConfigBuilder_new =
     \<lparr>pcb_brokers = None, pcb_group_id = None, pcb_topics = [],
      pcb_auto_offset_reset = ''earliest'', pcb_enable_auto_commit = False,
      pcb_session_timeout_ms = 30000, pcb_bootstrap_timeout_ms = None, pcb_heartbeat_interval_ms = 3000,
      pcb_max_poll_interval_ms = 300000, pcb_security_protocol = None, pcb_sasl_mechanism = None,
      pcb_sasl_username = None, pcb_sasl_password = None, pcb_fetch_min_bytes = 1,
      pcb_max_partition_fetch_bytes = 1048576, pcb_partition_assignment_strategy = ''roundrobin'',
      pcb_retry_backoff_ms = 100, pcb_message_batch_size = 100, pcb_default_retry_policy = None,
      pcb_dlq_topic_prefix = None, pcb_drain_timeout_secs = None, pcb_num_workers = None,
      pcb_enable_auto_offset_store = None, pcb_observability_config = None,
      pcb_handler_timeout_ms = None\<rparr>"

text \<open>A setter changes the builder and returns a copy of it.\<close>

definition consumer_fluent :: "PyConsumerConfigBuilder \<Rightarrow> PyConsumerConfigBuilder \<times> PyConsumerConfigBuilder" where
  "consumer_fluent b = (b, make_consumer_builder_clone b)"

definition set_brokers :: "string \<Rightarrow> PyConsumerConfigBuilder \<Rightarrow> PyConsumerConfigBuilder \<times> PyConsumerConfigBuilder" where
  "set_brokers v b = consumer_fluent (b\<lparr>pcb_brokers := Some v\<rparr>)"

definition set_group_id :: "string \<Rightarrow> PyConsumerConfigBuilder \<Rightarrow> PyConsumerConfigBuilder \<times> PyConsumerConfigBuilder" where
  "set_group_id v b = consumer_fluent (b\<lparr>pcb_group_id := Some v\<rparr>)"

definition set_topics :: "string list \<Rightarrow> PyConsumerConfigBuilder \<Rightarrow> PyConsumerConfigBuilder \<times> PyConsumerConfigBuilder" where
  "set_topics v b = consumer_fluent (b\<lparr>pcb_topics := v\<rparr>)"

definition set_add_topic :: "string \<Rightarrow> PyConsumerConfigBuilder \<Rightarrow> PyConsumerConfigBuilder \<times> PyConsumerConfigBuilder" where
  "set_add_topic v b = consumer_fluent (b\<lparr>pcb_topics := pcb_topics b @ [v]\<rparr>)"

definition set_auto_offset_reset :: "string \<Rightarrow> PyConsumerConfigBuilder \<Rightarrow> PyConsumerConfigBuilder \<times> PyConsumerConfigBuilder" where
  "set_auto_offset_reset v b = consumer_fluent (b\<lparr>pcb_auto_offset_reset := v\<rparr>)"

definition set_enable_auto_commit :: "bool \<Rightarrow> PyConsumerConfigBuilder \<Rightarrow> PyConsumerConfigBuilder \<times> PyConsumerConfigBuilder" where
  "set_enable_auto_commit v b = consumer_fluent (b\<lparr>pcb_enable_auto_commit := v\<rparr>)"

definition set_session_timeout_ms :: "nat \<Rightarrow> PyConsumerConfigBuilder \<Rightarrow> PyConsumerConfigBuilder \<times> PyConsumerConfigBuilder" where
  "set_session_timeout_ms v b = consumer_fluent (b\<lparr>pcb_session_timeout_ms := v\<rparr>)"

definition set_bootstrap_timeout_ms :: "nat \<Rightarrow> PyConsumerConfigBuilder \<Rightarrow> PyConsumerConfigBuilder \<times> PyConsumerConfigBuilder" where
  "set_bootstrap_timeout_ms v b = consumer_fluent (b\<lparr>pcb_bootstrap_timeout_ms := Some v\<rparr>)"

definition set_heartbeat_interval_ms :: "nat \<Rightarrow> PyConsumerConfigBuilder \<Rightarrow> PyConsumerConfigBuilder \<times> PyConsumerConfigBuilder" where
  "set_heartbeat_interval_ms v b = consumer_fluent (b\<lparr>pcb_heartbeat_interval_ms := v\<rparr>)"

definition set_max_poll_interval_ms :: "nat \<Rightarrow> PyConsumerConfigBuilder \<Rightarrow> PyConsumerConfigBuilder \<times> PyConsumerConfigBuilder" where
  "set_max_poll_interval_ms v b = consumer_fluent (b\<lparr>pcb_max_poll_interval_ms := v\<rparr>)"

definition set_security_protocol :: "string \<Rightarrow> PyConsumerConfigBuilder \<Rightarrow> PyConsumerConfigBuilder \<times> PyConsumerConfigBuilder" where
  "set_security_protocol v b = consumer_fluent (b\<lparr>pcb_security_protocol := Some v\<rparr>)"

definition set_sasl_mechanism :: "string \<Rightarrow> string \<Rightarrow> string \<Rightarrow> PyConsumerConfigBuilder \<Rightarrow> PyConsumerConfigBuilder \<times> PyConsumerConfigBuilder" where
  "set_sasl_mechanism mechanism username password b =
     consumer_fluent (b\<lparr>pcb_sasl_mechanism := Some mechanism, pcb_sasl_username := Some username,
       pcb_sasl_password := Some password\<rparr>)"

definition set_fetch_min_bytes :: "nat \<Rightarrow> PyConsumerConfigBuilder \<Rightarrow> PyConsumerConfigBuilder \<times> PyConsumerConfigBuilder" where
  "set_fetch_min_bytes v b = consumer_fluent (b\<lparr>pcb_fetch_min_bytes := v\<rparr>)"

definition set_max_partition_fetch_bytes :: "nat \<Rightarrow> PyConsumerConfigBuilder \<Rightarrow> PyConsumerConfigBuilder \<times> PyConsumerConfigBuilder" where
  "set_max_partition_fetch_bytes v b = consumer_fluent (b\<lparr>pcb_max_partition_fetch_bytes := v\<rparr>)"

definition set_partition_assignment_strategy :: "string \<Rightarrow> PyConsumerConfigBuilder \<Rightarrow> PyConsumerConfigBuilder \<times> PyConsumerConfigBuilder" where
  "set_partition_assignment_strategy v b = consumer_fluent (b\<lparr>pcb_partition_assignment_strategy := v\<rparr>)"

definition set_retry_backoff_ms :: "nat \<Rightarrow> PyConsumerConfigBuilder \<Rightarrow> PyConsumerConfigBuilder \<times> PyConsumerConfigBuilder" where
  "set_retry_backoff_ms v b = consumer_fluent (b\<lparr>pcb_retry_backoff_ms := v\<rparr>)"

definition set_message_batch_size :: "nat \<Rightarrow> PyConsumerConfigBuilder \<Rightarrow> PyConsumerConfigBuilder \<times> PyConsumerConfigBuilder" where
  "set_message_batch_size v b = consumer_fluent (b\<lparr>pcb_message_batch_size := v\<rparr>)"

definition set_default_retry_policy :: "PyRetryPolicy \<Rightarrow> PyConsumerConfigBuilder \<Rightarrow> PyConsumerConfigBuilder \<times> PyConsumerConfigBuilder" where
  "set_default_retry_policy v b = consumer_fluent (b\<lparr>pcb_default_retry_policy := Some v\<rparr>)"

definition set_dlq_topic_prefix :: "string \<Rightarrow> PyConsumerConfigBuilder \<Rightarrow> PyConsumerConfigBuilder \<times> PyConsumerConfigBuilder" where
  "set_dlq_topic_prefix v b = consumer_fluent (b\<lparr>pcb_dlq_topic_prefix := Some v\<rparr>)"

definition set_drain_timeout_secs :: "nat \<Rightarrow> PyConsumerConfigBuilder \<Rightarrow> PyConsumerConfigBuilder \<times> PyConsumerConfigBuilder" where
  "set_drain_timeout_secs v b = consumer_fluent (b\<lparr>pcb_drain_timeout_secs := Some v\<rparr>)"

definition set_num_workers :: "nat \<Rightarrow> PyConsumerConfigBuilder \<Rightarrow> PyConsumerConfigBuilder \<times> PyConsumerConfigBuilder" where
  "set_num_workers v b = consumer_fluent (b\<lparr>pcb_num_workers := Some v\<rparr>)"

definition set_enable_auto_offset_store :: "bool \<Rightarrow> PyConsumerConfigBuilder \<Rightarrow> PyConsumerConfigBuilder \<times> PyConsumerConfigBuilder" where
  "set_enable_auto_offset_store v b = consumer_fluent (b\<lparr>pcb_enable_auto_offset_store := Some v\<rparr>)"

definition set_observability_config :: "PyObservabilityConfig \<Rightarrow> PyConsumerConfigBuilder \<Rightarrow> PyConsumerConfigBuilder \<times> PyConsumerConfigBuilder" where
  "set_observability_config v b = consumer_fluent (b\<lparr>pcb_observability_config := Some v\<rparr>)"

definition set_handler_timeout_ms :: "nat \<Rightarrow> PyConsumerConfigBuilder \<Rightarrow> PyConsumerConfigBuilder \<times> PyConsumerConfigBuilder" where
  "set_handler_timeout_ms v b = consumer_fluent (b\<lparr>pcb_handler_timeout_ms := Some v\<rparr>)"

definition PyConsumerConfigBuilder_build :: "PyConsumerConfigBuilder \<Rightarrow> PyErr + PyConsumerConfig" where
  "PyConsumerConfigBuilder_build b =
     (case pcb_brokers b of None \<Rightarrow> Inl (PyValueError ''missing required field: brokers'')
      | Some brokers \<Rightarrow>
     (case pcb_group_id b of None \<Rightarrow> Inl (PyValueError ''missing required field: group_id'')
      | Some group_id \<Rightarrow>
     if pcb_topics b = [] then Inl (PyValueError ''at least one topic must be specified'')
     else Inr
     \<lparr>py_brokers = brokers, py_group_id = group_id, py_topics = pcb_topics b,
      py_auto_offset_reset = pcb_auto_offset_reset b, py_enable_auto_commit = pcb_enable_auto_commit b,
      py_session_timeout_ms = pcb_session_timeout_ms b,
      py_bootstrap_timeout_ms = pcb_bootstrap_timeout_ms b,
      py_heartbeat_interval_ms = pcb_heartbeat_interval_ms b,
      py_max_poll_interval_ms = pcb_max_poll_interval_ms b,
      py_security_protocol = pcb_security_protocol b, py_sasl_mechanism = pcb_sasl_mechanism b,
      py_sasl_username = pcb_sasl_username b, py_sasl_password = pcb_sasl_password b,
      py_fetch_min_bytes = pcb_fetch_min_bytes b,
      py_max_partition_fetch_bytes = pcb_max_partition_fetch_bytes b,
      py_partition_assignment_strategy = pcb_partition_assignment_strategy b,
      py_retry_backoff_ms = pcb_retry_backoff_ms b, py_message_batch_size = pcb_message_batch_size b,
      py_default_retry_policy = pcb_default_retry_policy b,
      py_dlq_topic_prefix = pcb_dlq_topic_prefix b, py_drain_timeout_secs = pcb_drain_timeout_secs b,
      py_num_workers = pcb_num_workers b, py_enable_auto_offset_store = pcb_enable_auto_offset_store b,
      py_observability_config = pcb_observability_config b,
      py_handler_timeout_ms = pcb_handler_timeout_ms b\<rparr>))"

section \<open>The builder of the producer configuration\<close>

record PyProducerConfigBuilder =
  ppb_brokers :: "string option"
  ppb_message_timeout_ms :: nat
  ppb_queue_buffering_max_messages :: nat
  ppb_queue_buffering_max_kbytes :: nat
  ppb_batch_num_messages :: nat
  ppb_compression_type :: string
  ppb_linger_ms :: nat
  ppb_request_timeout_ms :: nat
  ppb_retry_backoff_ms :: nat
  ppb_retries :: nat
  ppb_max_in_flight :: nat
  ppb_enable_idempotence :: bool
  ppb_acks :: string
  ppb_security_protocol :: "string option"
  ppb_sasl_mechanism :: "string option"
  ppb_sasl_username :: "string option"
  ppb_sasl_password :: "string option"

definition make_producer_builder_clone :: "PyProducerConfigBuilder \<Rightarrow> PyProducerConfigBuilder" where
  "make_producer_builder_clone b =
     \<lparr>ppb_brokers = ppb_brokers b, ppb_message_timeout_ms = ppb_message_timeout_ms b,
      ppb_queue_buffering_max_messages = ppb_queue_buffering_max_messages b,
      ppb_queue_buffering_max_kbytes = ppb_queue_buffering_max_kbytes b,
      ppb_batch_num_messages = ppb_batch_num_messages b, ppb_compression_type = ppb_compression_type b,
      ppb_linger_ms = ppb_linger_ms b, ppb_request_timeout_ms = ppb_request_timeout_ms b,
      ppb_retry_backoff_ms = ppb_retry_backoff_ms b, ppb_retries = ppb_retries b,
      ppb_max_in_flight = ppb_max_in_flight b, ppb_enable_idempotence = ppb_enable_idempotence b,
      ppb_acks = ppb_acks b, ppb_security_protocol = ppb_security_protocol b,
      ppb_sasl_mechanism = ppb_sasl_mechanism b, ppb_sasl_username = ppb_sasl_username b,
      ppb_sasl_password = ppb_sasl_password b\<rparr>"

definition PyProducerConfigBuilder_new :: PyProducerConfigBuilder where
  "PyProducerConfigBuilder_new =
     \<lparr>ppb_brokers = None, ppb_message_timeout_ms = 30000,
      ppb_queue_buffering_max_messages = 100000, ppb_queue_buffering_max_kbytes = 1048576,
      ppb_batch_num_messages = 10000, ppb_compression_type = ''snappy'', ppb_linger_ms = 5,
      ppb_request_timeout_ms = 30000, ppb_retry_backoff_ms = 100, ppb_retries = 2147483647,
      ppb_max_in_flight = 5, ppb_enable_idempotence = True, ppb_acks = ''all'',
      ppb_security_protocol = None, ppb_sasl_mechanism = None, ppb_sasl_username = None,
      ppb_sasl_password = None\<rparr>"

text \<open>A setter changes the builder and returns a copy of it.\<close>

definition producer_fluent :: "PyProducerConfigBuilder \<Rightarrow> PyProducerConfigBuilder \<times> PyProducerConfigBuilder" where
  "producer_fluent b = (b, make_producer_builder_clone b)"

definition pset_brokers :: "string \<Rightarrow> PyProducerConfigBuilder \<Rightarrow> PyProducerConfigBuilder \<times> PyProducerConfigBuilder" where
  "pset_brokers v b = producer_fluent (b\<lparr>ppb_brokers := Some v\<rparr>)"

definition pset_message_timeout_ms :: "nat \<Rightarrow> PyProducerConfigBuilder \<Rightarrow> PyProducerConfigBuilder \<times> PyProducerConfigBuilder" where
  "pset_message_timeout_ms v b = producer_fluent (b\<lparr>ppb_message_timeout_ms := v\<rparr>)"

definition pset_queue_buffering_max_messages :: "nat \<Rightarrow> PyProducerConfigBuilder \<Rightarrow> PyProducerConfigBuilder \<times> PyProducerConfigBuilder" where
  "pset_queue_buffering_max_messages v b = producer_fluent (b\<lparr>ppb_queue_buffering_max_messages := v\<rparr>)"

definition pset_queue_buffering_max_kbytes :: "nat \<Rightarrow> PyProducerConfigBuilder \<Rightarrow> PyProducerConfigBuilder \<times> PyProducerConfigBuilder" where
  "pset_queue_buffering_max_kbytes v b = producer_fluent (b\<lparr>ppb_queue_buffering_max_kbytes := v\<rparr>)"

definition pset_batch_num_messages :: "nat \<Rightarrow> PyProducerConfigBuilder \<Rightarrow> PyProducerConfigBuilder \<times> PyProducerConfigBuilder" where
  "pset_batch_num_messages v b = producer_fluent (b\<lparr>ppb_batch_num_messages := v\<rparr>)"

definition pset_compression_type :: "string \<Rightarrow> PyProducerConfigBuilder \<Rightarrow> PyProducerConfigBuilder \<times> PyProducerConfigBuilder" where
  "pset_compression_type v b = producer_fluent (b\<lparr>ppb_compression_type := v\<rparr>)"

definition pset_linger_ms :: "nat \<Rightarrow> PyProducerConfigBuilder \<Rightarrow> PyProducerConfigBuilder \<times> PyProducerConfigBuilder" where
  "pset_linger_ms v b = producer_fluent (b\<lparr>ppb_linger_ms := v\<rparr>)"

definition pset_request_timeout_ms :: "nat \<Rightarrow> PyProducerConfigBuilder \<Rightarrow> PyProducerConfigBuilder \<times> PyProducerConfigBuilder" where
  "pset_request_timeout_ms v b = producer_fluent (b\<lparr>ppb_request_timeout_ms := v\<rparr>)"

definition pset_retry_backoff_ms :: "nat \<Rightarrow> PyProducerConfigBuilder \<Rightarrow> PyProducerConfigBuilder \<times> PyProducerConfigBuilder" where
  "pset_retry_backoff_ms v b = producer_fluent (b\<lparr>ppb_retry_backoff_ms := v\<rparr>)"

definition pset_retries :: "nat \<Rightarrow> PyProducerConfigBuilder \<Rightarrow> PyProducerConfigBuilder \<times> PyProducerConfigBuilder" where
  "pset_retries v b = producer_fluent (b\<lparr>ppb_retries := v\<rparr>)"

definition pset_max_in_flight :: "nat \<Rightarrow> PyProducerConfigBuilder \<Rightarrow> PyProducerConfigBuilder \<times> PyProducerConfigBuilder" where
  "pset_max_in_flight v b = producer_fluent (b\<lparr>ppb_max_in_flight := v\<rparr>)"

definition pset_enable_idempotence :: "bool \<Rightarrow> PyProducerConfigBuilder \<Rightarrow> PyProducerConfigBuilder \<times> PyProducerConfigBuilder" where
  "pset_enable_idempotence v b = producer_fluent (b\<lparr>ppb_enable_idempotence := v\<rparr>)"

definition pset_acks :: "string \<Rightarrow> PyProducerConfigBuilder \<Rightarrow> PyProducerConfigBuilder \<times> PyProducerConfigBuilder" where
  "pset_acks v b = producer_fluent (b\<lparr>ppb_acks := v\<rparr>)"

definition pset_security_protocol :: "string \<Rightarrow> PyProducerConfigBuilder \<Rightarrow> PyProducerConfigBuilder \<times> PyProducerConfigBuilder" where
  "pset_security_protocol v b = producer_fluent (b\<lparr>ppb_security_protocol := Some v\<rparr>)"

definition pset_sasl_mechanism :: "string \<Rightarrow> string \<Rightarrow> string \<Rightarrow> PyProducerConfigBuilder \<Rightarrow> PyProducerConfigBuilder \<times> PyProducerConfigBuilder" where
  "pset_sasl_mechanism mechanism username password b =
     producer_fluent (b\<lparr>ppb_sasl_mechanism := Some mechanism, ppb_sasl_username := Some username,
       ppb_sasl_password := Some password\<rparr>)"

definition PyProducerConfigBuilder_build :: "PyProducerConfigBuilder \<Rightarrow> PyErr + PyProducerConfig" where
  "PyProducerConfigBuilder_build b =
     (case ppb_brokers b of None \<Rightarrow> Inl (PyValueError ''missing required field: brokers'')
      | Some brokers \<Rightarrow> Inr
     \<lparr>pp_brokers = brokers, pp_message_timeout_ms = ppb_message_timeout_ms b,
      pp_queue_buffering_max_messages = ppb_queue_buffering_max_messages b,
      pp_queue_buffering_max_kbytes = ppb_queue_buffering_max_kbytes b,
      pp_batch_num_messages = ppb_batch_num_messages b, pp_compression_type = ppb_compression_type b,
      pp_linger_ms = ppb_linger_ms b, pp_request_timeout_ms = ppb_request_timeout_ms b,
      pp_retry_backoff_ms = ppb_retry_backoff_ms b, pp_retries = ppb_retries b,
      pp_max_in_flight = ppb_max_in_flight b, pp_enable_idempotence = ppb_enable_idempotence b,
      pp_acks = ppb_acks b, pp_security_protocol = ppb_security_protocol b,
      pp_sasl_mechanism = ppb_sasl_mechanism b, pp_sasl_username = ppb_sasl_username b,
      pp_sasl_password = ppb_sasl_password b\<rparr>)"

section \<open>Environment readers\<close>

text \<open>
  Before it reads the variables, \<open>from_env\<close> loads a \<^verbatim>\<open>.env\<close> file. What the working directory holds and
  what the loader does with it are arguments.
\<close>

record dotenv =
  cwd_known :: bool
  env_file_exists :: bool
  from_path :: "environ \<Rightarrow> string + environ"
  dotenv_ok :: "environ \<Rightarrow> environ"

definition load_env :: "dotenv \<Rightarrow> environ \<Rightarrow> PyErr + environ" where
  "load_env d e =
     (if cwd_known d then
        (if env_file_exists d then map_sum PyRuntimeError id (from_path d e) else Inr e)
      else Inr (dotenv_ok d e))"

definition no_env_file :: dotenv where
  "no_env_file = \<lparr>cwd_known = True, env_file_exists = False, from_path = Inr, dotenv_ok = (\<lambda>e. e)\<rparr>"

definition PyConsumerConfig_from_env_vars :: "environ \<Rightarrow> PyErr + PyConsumerConfig" where
  \<comment> \<open>the fields in the order in which they are read; the first error ends the reading\<close>
  "PyConsumerConfig_from_env_vars e =
     try_bind (py_parse_bool (var_or e ''KAFKA_ENABLE_AUTO_COMMIT'' ''false'')) (\<lambda>enable_auto_commit.
     try_bind (py_parse_uint 32 (var_or e ''KAFKA_SESSION_TIMEOUT_MS'' ''30000'')) (\<lambda>session_timeout_ms.
     try_bind (parse_var_opt (py_parse_uint 32) e ''KAFKA_BOOTSTRAP_TIMEOUT_MS'') (\<lambda>bootstrap_timeout_ms.
     try_bind (py_parse_uint 32 (var_or e ''KAFKA_HEARTBEAT_INTERVAL_MS'' ''3000'')) (\<lambda>heartbeat_interval_ms.
     try_bind (py_parse_uint 32 (var_or e ''KAFKA_MAX_POLL_INTERVAL_MS'' ''300000'')) (\<lambda>max_poll_interval_ms.
     try_bind (py_parse_uint 32 (var_or e ''KAFKA_FETCH_MIN_BYTES'' ''1'')) (\<lambda>fetch_min_bytes.
     try_bind (py_parse_uint 32 (var_or e ''KAFKA_MAX_PARTITION_FETCH_BYTES'' ''1048576'')) (\<lambda>max_partition_fetch_bytes.
     try_bind (py_parse_uint 32 (var_or e ''KAFKA_RETRY_BACKOFF_MS'' ''100'')) (\<lambda>retry_backoff_ms.
     try_bind (py_parse_uint 64 (var_or e ''KAFKA_MESSAGE_BATCH_SIZE'' ''100'')) (\<lambda>message_batch_size.
     try_bind (parse_var_opt (py_parse_uint 64) e ''KAFKA_DRAIN_TIMEOUT_SECS'') (\<lambda>drain_timeout_secs.
     try_bind (parse_var_opt (py_parse_uint 32) e ''KAFKA_NUM_WORKERS'') (\<lambda>num_workers.
     try_bind (parse_var_opt py_parse_bool e ''KAFKA_ENABLE_AUTO_OFFSET_STORE'') (\<lambda>enable_auto_offset_store.
     try_bind (parse_var_opt (py_parse_uint 64) e ''KAFKA_HANDLER_TIMEOUT_MS'') (\<lambda>handler_timeout_ms.
     Inr
     \<lparr>py_brokers = var_or e ''KAFKA_BROKERS'' ''localhost:9092'',
      py_group_id = var_or e ''KAFKA_GROUP_ID'' ''rust-consumer-group'',
      py_topics = map trim (str_split CHR '','' (var_or e ''KAFKA_TOPICS'' ''transactions,events'')),
      py_auto_offset_reset = var_or e ''KAFKA_AUTO_OFFSET_RESET'' ''earliest'',
      py_enable_auto_commit = enable_auto_commit, py_session_timeout_ms = session_timeout_ms,
      py_bootstrap_timeout_ms = bootstrap_timeout_ms, py_heartbeat_interval_ms = heartbeat_interval_ms,
      py_max_poll_interval_ms = max_poll_interval_ms,
      py_security_protocol = e ''KAFKA_SECURITY_PROTOCOL'',
      py_sasl_mechanism = e ''KAFKA_SASL_MECHANISM'', py_sasl_username = e ''KAFKA_SASL_USERNAME'',
      py_sasl_password = e ''KAFKA_SASL_PASSWORD'', py_fetch_min_bytes = fetch_min_bytes,
      py_max_partition_fetch_bytes = max_partition_fetch_bytes,
      py_partition_assignment_strategy = var_or e ''KAFKA_PARTITION_ASSIGNMENT_STRATEGY'' ''roundrobin'',
      py_retry_backoff_ms = retry_backoff_ms, py_message_batch_size = message_batch_size,
      py_default_retry_policy = None, py_dlq_topic_prefix = e ''KAFKA_DLQ_TOPIC_PREFIX'',
      py_drain_timeout_secs = drain_timeout_secs, py_num_workers = num_workers,
      py_enable_auto_offset_store = enable_auto_offset_store, py_observability_config = None,
      py_handler_timeout_ms = handler_timeout_ms\<rparr>)))))))))))))"

definition PyConsumerConfig_from_env :: "dotenv \<Rightarrow> environ \<Rightarrow> PyErr + PyConsumerConfig" where
  "PyConsumerConfig_from_env d e = try_bind (load_env d e) PyConsumerConfig_from_env_vars"

definition PyProducerConfig_from_env_vars :: "environ \<Rightarrow> PyErr + PyProducerConfig" where
  \<comment> \<open>the fields in the order in which they are read; the first error ends the reading\<close>
  "PyProducerConfig_from_env_vars e =
     try_bind (py_parse_uint 64 (var_or e ''PRODUCER_MESSAGE_TIMEOUT_MS'' ''30000'')) (\<lambda>message_timeout_ms.
     try_bind (py_parse_uint 32 (var_or e ''PRODUCER_QUEUE_BUFFERING_MAX_MESSAGES'' ''100000'')) (\<lambda>queue_buffering_max_messages.
     try_bind (py_parse_uint 32 (var_or e ''PRODUCER_QUEUE_BUFFERING_MAX_KBYTES'' ''1048576'')) (\<lambda>queue_buffering_max_kbytes.
     try_bind (py_parse_uint 32 (var_or e ''PRODUCER_BATCH_NUM_MESSAGES'' ''10000'')) (\<lambda>batch_num_messages.
     try_bind (py_parse_uint 32 (var_or e ''PRODUCER_LINGER_MS'' ''5'')) (\<lambda>linger_ms.
     try_bind (py_parse_uint 32 (var_or e ''PRODUCER_REQUEST_TIMEOUT_MS'' ''30000'')) (\<lambda>request_timeout_ms.
     try_bind (py_parse_uint 32 (var_or e ''PRODUCER_RETRY_BACKOFF_MS'' ''100'')) (\<lambda>retry_backoff_ms.
     try_bind (py_parse_uint 32 (var_or e ''PRODUCER_RETRIES'' ''2147483647'')) (\<lambda>retries.
     try_bind (py_parse_uint 32 (var_or e ''PRODUCER_MAX_IN_FLIGHT'' ''5'')) (\<lambda>max_in_flight.
     try_bind (py_parse_bool (var_or e ''PRODUCER_ENABLE_IDEMPOTENCE'' ''true'')) (\<lambda>enable_idempotence.
     Inr
     \<lparr>pp_brokers = var_or e ''KAFKA_BROKERS'' ''localhost:9092'',
      pp_message_timeout_ms = message_timeout_ms,
      pp_queue_buffering_max_messages = queue_buffering_max_messages,
      pp_queue_buffering_max_kbytes = queue_buffering_max_kbytes,
      pp_batch_num_messages = batch_num_messages,
      pp_compression_type = var_or e ''PRODUCER_COMPRESSION_TYPE'' ''snappy'', pp_linger_ms = linger_ms,
      pp_request_timeout_ms = request_timeout_ms, pp_retry_backoff_ms = retry_backoff_ms,
      pp_retries = retries, pp_max_in_flight = max_in_flight,
      pp_enable_idempotence = enable_idempotence, pp_acks = var_or e ''PRODUCER_ACKS'' ''all'',
      pp_security_protocol = e ''KAFKA_SECURITY_PROTOCOL'',
      pp_sasl_mechanism = e ''KAFKA_SASL_MECHANISM'', pp_sasl_username = e ''KAFKA_SASL_USERNAME'',
      pp_sasl_password = e ''KAFKA_SASL_PASSWORD''\<rparr>))))))))))"

definition PyProducerConfig_from_env :: "dotenv \<Rightarrow> environ \<Rightarrow> PyErr + PyProducerConfig" where
  "PyProducerConfig_from_env d e = try_bind (load_env d e) PyProducerConfig_from_env_vars"

section \<open>Printing a configuration into variables\<close>

text \<open>The inverse of reading, used to state what the readers do.\<close>

definition plain_topic :: "string \<Rightarrow> bool" where
  "plain_topic t = (t \<noteq> [] \<and> CHR '','' \<notin> set t \<and> \<not> is_space (hd t) \<and> \<not> is_space (last t))"

definition consumer_env :: "PyConsumerConfig \<Rightarrow> environ" where
  "consumer_env c = Map.empty(
     ''KAFKA_BROKERS'' := Some (py_brokers c), ''KAFKA_GROUP_ID'' := Some (py_group_id c),
      ''KAFKA_TOPICS'' := Some (str_join CHR '','' (py_topics c)),
      ''KAFKA_AUTO_OFFSET_RESET'' := Some (py_auto_offset_reset c),
      ''KAFKA_ENABLE_AUTO_COMMIT'' := Some (show_bool (py_enable_auto_commit c)),
      ''KAFKA_SESSION_TIMEOUT_MS'' := Some (show_nat (py_session_timeout_ms c)),
      ''KAFKA_BOOTSTRAP_TIMEOUT_MS'' := map_option show_nat (py_bootstrap_timeout_ms c),
      ''KAFKA_HEARTBEAT_INTERVAL_MS'' := Some (show_nat (py_heartbeat_interval_ms c)),
      ''KAFKA_MAX_POLL_INTERVAL_MS'' := Some (show_nat (py_max_poll_interval_ms c)),
      ''KAFKA_SECURITY_PROTOCOL'' := py_security_protocol c,
      ''KAFKA_SASL_MECHANISM'' := py_sasl_mechanism c, ''KAFKA_SASL_USERNAME'' := py_sasl_username c,
      ''KAFKA_SASL_PASSWORD'' := py_sasl_password c,
      ''KAFKA_FETCH_MIN_BYTES'' := Some (show_nat (py_fetch_min_bytes c)),
      ''KAFKA_MAX_PARTITION_FETCH_BYTES'' := Some (show_nat (py_max_partition_fetch_bytes c)),
      ''KAFKA_PARTITION_ASSIGNMENT_STRATEGY'' := Some (py_partition_assignment_strategy c),
      ''KAFKA_RETRY_BACKOFF_MS'' := Some (show_nat (py_retry_backoff_ms c)),
      ''KAFKA_MESSAGE_BATCH_SIZE'' := Some (show_nat (py_message_batch_size c)),
      ''KAFKA_DLQ_TOPIC_PREFIX'' := py_dlq_topic_prefix c,
      ''KAFKA_DRAIN_TIMEOUT_SECS'' := map_option show_nat (py_drain_timeout_secs c),
      ''KAFKA_NUM_WORKERS'' := map_option show_nat (py_num_workers c),
      ''KAFKA_ENABLE_AUTO_OFFSET_STORE'' := map_option show_bool (py_enable_auto_offset_store c),
      ''KAFKA_HANDLER_TIMEOUT_MS'' := map_option show_nat (py_handler_timeout_ms c))"

definition consumer_env_ok :: "PyConsumerConfig \<Rightarrow> bool" where
  "consumer_env_ok c =
     (py_topics c \<noteq> [] \<and> list_all plain_topic (py_topics c)
      \<and> py_session_timeout_ms c < 2 ^ 32
      \<and> pred_option (\<lambda>n. n < 2 ^ 32) (py_bootstrap_timeout_ms c)
      \<and> py_heartbeat_interval_ms c < 2 ^ 32 \<and> py_max_poll_interval_ms c < 2 ^ 32
      \<and> py_fetch_min_bytes c < 2 ^ 32 \<and> py_max_partition_fetch_bytes c < 2 ^ 32
      \<and> py_retry_backoff_ms c < 2 ^ 32 \<and> py_message_batch_size c < 2 ^ 64
      \<and> py_default_retry_policy c = None
      \<and> pred_option (\<lambda>n. n < 2 ^ 64) (py_drain_timeout_secs c)
      \<and> pred_option (\<lambda>n. n < 2 ^ 32) (py_num_workers c) \<and> py_observability_config c = None
      \<and> pred_option (\<lambda>n. n < 2 ^ 64) (py_handler_timeout_ms c))"

definition producer_env :: "PyProducerConfig \<Rightarrow> environ" where
  "producer_env c = Map.empty(
     ''KAFKA_BROKERS'' := Some (pp_brokers c),
      ''PRODUCER_MESSAGE_TIMEOUT_MS'' := Some (show_nat (pp_message_timeout_ms c)),
      ''PRODUCER_QUEUE_BUFFERING_MAX_MESSAGES'' := Some (show_nat (pp_queue_buffering_max_messages c)),
      ''PRODUCER_QUEUE_BUFFERING_MAX_KBYTES'' := Some (show_nat (pp_queue_buffering_max_kbytes c)),
      ''PRODUCER_BATCH_NUM_MESSAGES'' := Some (show_nat (pp_batch_num_messages c)),
      ''PRODUCER_COMPRESSION_TYPE'' := Some (pp_compression_type c),
      ''PRODUCER_LINGER_MS'' := Some (show_nat (pp_linger_ms c)),
      ''PRODUCER_REQUEST_TIMEOUT_MS'' := Some (show_nat (pp_request_timeout_ms c)),
      ''PRODUCER_RETRY_BACKOFF_MS'' := Some (show_nat (pp_retry_backoff_ms c)),
      ''PRODUCER_RETRIES'' := Some (show_nat (pp_retries c)),
      ''PRODUCER_MAX_IN_FLIGHT'' := Some (show_nat (pp_max_in_flight c)),
      ''PRODUCER_ENABLE_IDEMPOTENCE'' := Some (show_bool (pp_enable_idempotence c)),
      ''PRODUCER_ACKS'' := Some (pp_acks c), ''KAFKA_SECURITY_PROTOCOL'' := pp_security_protocol c,
      ''KAFKA_SASL_MECHANISM'' := pp_sasl_mechanism c, ''KAFKA_SASL_USERNAME'' := pp_sasl_username c,
      ''KAFKA_SASL_PASSWORD'' := pp_sasl_password c)"

definition producer_env_ok :: "PyProducerConfig \<Rightarrow> bool" where
  "producer_env_ok c =
     (pp_message_timeout_ms c < 2 ^ 64 \<and> pp_queue_buffering_max_messages c < 2 ^ 32
      \<and> pp_queue_buffering_max_kbytes c < 2 ^ 32 \<and> pp_batch_num_messages c < 2 ^ 32
      \<and> pp_linger_ms c < 2 ^ 32 \<and> pp_request_timeout_ms c < 2 ^ 32
      \<and> pp_retry_backoff_ms c < 2 ^ 32 \<and> pp_retries c < 2 ^ 32 \<and> pp_max_in_flight c < 2 ^ 32)"

section \<open>Chains of setter calls\<close>

definition chain :: "('c \<Rightarrow> 'b \<Rightarrow> 'b \<times> 'b) \<Rightarrow> 'b \<Rightarrow> 'c list \<Rightarrow> 'b" where
  \<comment> \<open>\<open>b.first(..).second(..)\<close>: each call is made on the copy that the call before returned\<close>
  "chain call b cs = foldl (\<lambda>b c. snd (call c b)) b cs"

definition opt_call :: "('a \<Rightarrow> 'c) \<Rightarrow> 'a option \<Rightarrow> 'c list" where
  "opt_call K v = (case v of None \<Rightarrow> [] | Some x \<Rightarrow> [K x])"

text \<open>
  What a fluent builder promises: a setter leaves the builder and the returned copy equal, the
  builder stays in a set of states that only yields good results, and every good result has calls
  that build it. Then the results of the builder are exactly the good ones.
\<close>

locale fluent_builder =
  fixes call :: "'c \<Rightarrow> 'b \<Rightarrow> 'b \<times> 'b" and start :: 'b and build :: "'b \<Rightarrow> 'e + 'r"
    and ok :: "'b \<Rightarrow> bool" and good :: "'r \<Rightarrow> bool" and calls_for :: "'r \<Rightarrow> 'c list"
  assumes copy_same: "fst (call c b) = snd (call c b)"
    and start_ok: "ok start"
    and call_ok: "ok b \<Longrightarrow> ok (snd (call c b))"
    and build_good: "ok b \<Longrightarrow> build b = Inr r \<Longrightarrow> good r"
    and complete: "good r \<Longrightarrow> build (chain call start (calls_for r)) = Inr r"
begin

lemma chain_ok: "ok b \<Longrightarrow> ok (chain call b cs)"
  unfolding chain_def by (induction cs arbitrary: b) (simp_all add: call_ok)

lemma builds_exactly: "(\<exists>cs. build (chain call start cs) = Inr r) \<longleftrightarrow> good r"
  using chain_ok [OF start_ok] build_good complete by blast

lemma mutated_is_returned: "foldl (\<lambda>b c. fst (call c b)) b cs = chain call b cs"
  unfolding chain_def by (simp add: copy_same)

end

definition sasl_complete :: "string option \<Rightarrow> string option \<Rightarrow> string option \<Rightarrow> bool" where
  \<comment> \<open>the setter of the builders gives all three or none\<close>
  "sasl_complete m u p = ((m = None \<longleftrightarrow> u = None) \<and> (m = None \<longleftrightarrow> p = None))"

lemma sasl_complete_simps [simp]: "sasl_complete (Some m) (Some u) (Some p)" "sasl_complete None None None"
  by (simp_all add: sasl_complete_def)

definition sasl_call ::
  "(string \<Rightarrow> string \<Rightarrow> string \<Rightarrow> 'c) \<Rightarrow> string option \<Rightarrow> string option \<Rightarrow> string option \<Rightarrow> 'c list" where
  "sasl_call K m u p =
     (case m of None \<Rightarrow> [] | Some m \<Rightarrow> (case u of None \<Rightarrow> [] | Some u \<Rightarrow> (case p of None \<Rightarrow> [] | Some p \<Rightarrow> [K m u p])))"

lemma chain_Cons [simp]: "chain call b (c # cs) = chain call (snd (call c b)) cs"
  by (simp add: chain_def)

lemma chain_Nil [simp]: "chain call b [] = b"
  by (simp add: chain_def)

datatype consumer_setter =
    CBrokers string
  | CGroupId string
  | CTopics "string list"
  | CAddTopic string
  | CAutoOffsetReset string
  | CEnableAutoCommit bool
  | CSessionTimeoutMs nat
  | CBootstrapTimeoutMs nat
  | CHeartbeatIntervalMs nat
  | CMaxPollIntervalMs nat
  | CSecurityProtocol string
  | CSaslMechanism string string string
  | CFetchMinBytes nat
  | CMaxPartitionFetchBytes nat
  | CPartitionAssignmentStrategy string
  | CRetryBackoffMs nat
  | CMessageBatchSize nat
  | CDefaultRetryPolicy PyRetryPolicy
  | CDlqTopicPrefix string
  | CDrainTimeoutSecs nat
  | CNumWorkers nat
  | CEnableAutoOffsetStore bool
  | CObservabilityConfig PyObservabilityConfig
  | CHandlerTimeoutMs nat

primrec consumer_call :: "consumer_setter \<Rightarrow> PyConsumerConfigBuilder \<Rightarrow> PyConsumerConfigBuilder \<times> PyConsumerConfigBuilder" where
  "consumer_call (CBrokers v) = set_brokers v"
| "consumer_call (CGroupId v) = set_group_id v"
| "consumer_call (CTopics v) = set_topics v"
| "consumer_call (CAddTopic v) = set_add_topic v"
| "consumer_call (CAutoOffsetReset v) = set_auto_offset_reset v"
| "consumer_call (CEnableAutoCommit v) = set_enable_auto_commit v"
| "consumer_call (CSessionTimeoutMs v) = set_session_timeout_ms v"
| "consumer_call (CBootstrapTimeoutMs v) = set_bootstrap_timeout_ms v"
| "consumer_call (CHeartbeatIntervalMs v) = set_heartbeat_interval_ms v"
| "consumer_call (CMaxPollIntervalMs v) = set_max_poll_interval_ms v"
| "consumer_call (CSecurityProtocol v) = set_security_protocol v"
| "consumer_call (CSaslMechanism m u p) = set_sasl_mechanism m u p"
| "consumer_call (CFetchMinBytes v) = set_fetch_min_bytes v"
| "consumer_call (CMaxPartitionFetchBytes v) = set_max_partition_fetch_bytes v"
| "consumer_call (CPartitionAssignmentStrategy v) = set_partition_assignment_strategy v"
| "consumer_call (CRetryBackoffMs v) = set_retry_backoff_ms v"
| "consumer_call (CMessageBatchSize v) = set_message_batch_size v"
| "consumer_call (CDefaultRetryPolicy v) = set_default_retry_policy v"
| "consumer_call (CDlqTopicPrefix v) = set_dlq_topic_prefix v"
| "consumer_call (CDrainTimeoutSecs v) = set_drain_timeout_secs v"
| "consumer_call (CNumWorkers v) = set_num_workers v"
| "consumer_call (CEnableAutoOffsetStore v) = set_enable_auto_offset_store v"
| "consumer_call (CObservabilityConfig v) = set_observability_config v"
| "consumer_call (CHandlerTimeoutMs v) = set_handler_timeout_ms v"

definition consumer_calls :: "PyConsumerConfig \<Rightarrow> consumer_setter list" where
  "consumer_calls c =
     [CBrokers (py_brokers c)] @ [CGroupId (py_group_id c)] @ [CTopics (py_topics c)]
     @ [CAutoOffsetReset (py_auto_offset_reset c)] @ [CEnableAutoCommit (py_enable_auto_commit c)]
     @ [CSessionTimeoutMs (py_session_timeout_ms c)]
     @ opt_call CBootstrapTimeoutMs (py_bootstrap_timeout_ms c)
     @ [CHeartbeatIntervalMs (py_heartbeat_interval_ms c)]
     @ [CMaxPollIntervalMs (py_max_poll_interval_ms c)]
     @ opt_call CSecurityProtocol (py_security_protocol c)
     @ sasl_call CSaslMechanism (py_sasl_mechanism c) (py_sasl_username c) (py_sasl_password c)
     @ [CFetchMinBytes (py_fetch_min_bytes c)]
     @ [CMaxPartitionFetchBytes (py_max_partition_fetch_bytes c)]
     @ [CPartitionAssignmentStrategy (py_partition_assignment_strategy c)]
     @ [CRetryBackoffMs (py_retry_backoff_ms c)] @ [CMessageBatchSize (py_message_batch_size c)]
     @ opt_call CDefaultRetryPolicy (py_default_retry_policy c)
     @ opt_call CDlqTopicPrefix (py_dlq_topic_prefix c)
     @ opt_call CDrainTimeoutSecs (py_drain_timeout_secs c) @ opt_call CNumWorkers (py_num_workers c)
     @ opt_call CEnableAutoOffsetStore (py_enable_auto_offset_store c)
     @ opt_call CObservabilityConfig (py_observability_config c)
     @ opt_call CHandlerTimeoutMs (py_handler_timeout_ms c)"

lemmas consumer_setter_defs = consumer_fluent_def make_consumer_builder_clone_def set_brokers_def
  set_group_id_def set_topics_def set_add_topic_def set_auto_offset_reset_def set_enable_auto_commit_def
  set_session_timeout_ms_def set_bootstrap_timeout_ms_def set_heartbeat_interval_ms_def
  set_max_poll_interval_ms_def set_security_protocol_def set_sasl_mechanism_def set_fetch_min_bytes_def
  set_max_partition_fetch_bytes_def set_partition_assignment_strategy_def set_retry_backoff_ms_def
  set_message_batch_size_def set_default_retry_policy_def set_dlq_topic_prefix_def
  set_drain_timeout_secs_def set_num_workers_def set_enable_auto_offset_store_def
  set_observability_config_def set_handler_timeout_ms_def

lemma consumer_copy_same: "fst (consumer_call c b) = snd (consumer_call c b)"
  by (cases c) (simp_all add: consumer_setter_defs)

lemma chain_consumer_opt_call:
  "pcb_bootstrap_timeout_ms b = None \<Longrightarrow>
     chain consumer_call b (opt_call CBootstrapTimeoutMs v_bootstrap_timeout_ms @ cs) = chain consumer_call (b\<lparr>pcb_bootstrap_timeout_ms := v_bootstrap_timeout_ms\<rparr>) cs"
  "pcb_security_protocol b = None \<Longrightarrow>
     chain consumer_call b (opt_call CSecurityProtocol v_security_protocol @ cs) = chain consumer_call (b\<lparr>pcb_security_protocol := v_security_protocol\<rparr>) cs"
  "pcb_default_retry_policy b = None \<Longrightarrow>
     chain consumer_call b (opt_call CDefaultRetryPolicy v_default_retry_policy @ cs) = chain consumer_call (b\<lparr>pcb_default_retry_policy := v_default_retry_policy\<rparr>) cs"
  "pcb_dlq_topic_prefix b = None \<Longrightarrow>
     chain consumer_call b (opt_call CDlqTopicPrefix v_dlq_topic_prefix @ cs) = chain consumer_call (b\<lparr>pcb_dlq_topic_prefix := v_dlq_topic_prefix\<rparr>) cs"
  "pcb_drain_timeout_secs b = None \<Longrightarrow>
     chain consumer_call b (opt_call CDrainTimeoutSecs v_drain_timeout_secs @ cs) = chain consumer_call (b\<lparr>pcb_drain_timeout_secs := v_drain_timeout_secs\<rparr>) cs"
  "pcb_num_workers b = None \<Longrightarrow>
     chain consumer_call b (opt_call CNumWorkers v_num_workers @ cs) = chain consumer_call (b\<lparr>pcb_num_workers := v_num_workers\<rparr>) cs"
  "pcb_enable_auto_offset_store b = None \<Longrightarrow>
     chain consumer_call b (opt_call CEnableAutoOffsetStore v_enable_auto_offset_store @ cs) = chain consumer_call (b\<lparr>pcb_enable_auto_offset_store := v_enable_auto_offset_store\<rparr>) cs"
  "pcb_observability_config b = None \<Longrightarrow>
     chain consumer_call b (opt_call CObservabilityConfig v_observability_config @ cs) = chain consumer_call (b\<lparr>pcb_observability_config := v_observability_config\<rparr>) cs"
  "pcb_handler_timeout_ms b = None \<Longrightarrow>
     chain consumer_call b (opt_call CHandlerTimeoutMs v_handler_timeout_ms @ cs) = chain consumer_call (b\<lparr>pcb_handler_timeout_ms := v_handler_timeout_ms\<rparr>) cs"
  by (cases b; auto simp: chain_def opt_call_def consumer_setter_defs split: option.splits)+

lemma chain_consumer_sasl_call:
  assumes "pcb_sasl_mechanism b = None" "pcb_sasl_username b = None" "pcb_sasl_password b = None"
    "sasl_complete m u p"
  shows "chain consumer_call b (sasl_call CSaslMechanism m u p @ cs) =
     chain consumer_call (b\<lparr>pcb_sasl_mechanism := m, pcb_sasl_username := u, pcb_sasl_password := p\<rparr>) cs"
  using assms by (cases b) (auto simp: chain_def sasl_call_def sasl_complete_def consumer_setter_defs split: option.splits)

datatype producer_setter =
    PBrokers string
  | PMessageTimeoutMs nat
  | PQueueBufferingMaxMessages nat
  | PQueueBufferingMaxKbytes nat
  | PBatchNumMessages nat
  | PCompressionType string
  | PLingerMs nat
  | PRequestTimeoutMs nat
  | PRetryBackoffMs nat
  | PRetries nat
  | PMaxInFlight nat
  | PEnableIdempotence bool
  | PAcks string
  | PSecurityProtocol string
  | PSaslMechanism string string string

primrec producer_call :: "producer_setter \<Rightarrow> PyProducerConfigBuilder \<Rightarrow> PyProducerConfigBuilder \<times> PyProducerConfigBuilder" where
  "producer_call (PBrokers v) = pset_brokers v"
| "producer_call (PMessageTimeoutMs v) = pset_message_timeout_ms v"
| "producer_call (PQueueBufferingMaxMessages v) = pset_queue_buffering_max_messages v"
| "producer_call (PQueueBufferingMaxKbytes v) = pset_queue_buffering_max_kbytes v"
| "producer_call (PBatchNumMessages v) = pset_batch_num_messages v"
| "producer_call (PCompressionType v) = pset_compression_type v"
| "producer_call (PLingerMs v) = pset_linger_ms v"
| "producer_call (PRequestTimeoutMs v) = pset_request_timeout_ms v"
| "producer_call (PRetryBackoffMs v) = pset_retry_backoff_ms v"
| "producer_call (PRetries v) = pset_retries v"
| "producer_call (PMaxInFlight v) = pset_max_in_flight v"
| "producer_call (PEnableIdempotence v) = pset_enable_idempotence v"
| "producer_call (PAcks v) = pset_acks v"
| "producer_call (PSecurityProtocol v) = pset_security_protocol v"
| "producer_call (PSaslMechanism m u p) = pset_sasl_mechanism m u p"

definition producer_calls :: "PyProducerConfig \<Rightarrow> producer_setter list" where
  "producer_calls c =
     [PBrokers (pp_brokers c)] @ [PMessageTimeoutMs (pp_message_timeout_ms c)]
     @ [PQueueBufferingMaxMessages (pp_queue_buffering_max_messages c)]
     @ [PQueueBufferingMaxKbytes (pp_queue_buffering_max_kbytes c)]
     @ [PBatchNumMessages (pp_batch_num_messages c)] @ [PCompressionType (pp_compression_type c)]
     @ [PLingerMs (pp_linger_ms c)] @ [PRequestTimeoutMs (pp_request_timeout_ms c)]
     @ [PRetryBackoffMs (pp_retry_backoff_ms c)] @ [PRetries (pp_retries c)]
     @ [PMaxInFlight (pp_max_in_flight c)] @ [PEnableIdempotence (pp_enable_idempotence c)]
     @ [PAcks (pp_acks c)] @ opt_call PSecurityProtocol (pp_security_protocol c)
     @ sasl_call PSaslMechanism (pp_sasl_mechanism c) (pp_sasl_username c) (pp_sasl_password c)"

lemmas producer_setter_defs = producer_fluent_def make_producer_builder_clone_def pset_brokers_def
  pset_message_timeout_ms_def pset_queue_buffering_max_messages_def pset_queue_buffering_max_kbytes_def
  pset_batch_num_messages_def pset_compression_type_def pset_linger_ms_def pset_request_timeout_ms_def
  pset_retry_backoff_ms_def pset_retries_def pset_max_in_flight_def pset_enable_idempotence_def
  pset_acks_def pset_security_protocol_def pset_sasl_mechanism_def

lemma producer_copy_same: "fst (producer_call c b) = snd (producer_call c b)"
  by (cases c) (simp_all add: producer_setter_defs)

lemma chain_producer_opt_call:
  "ppb_security_protocol b = None \<Longrightarrow>
     chain producer_call b (opt_call PSecurityProtocol v_security_protocol @ cs) = chain producer_call (b\<lparr>ppb_security_protocol := v_security_protocol\<rparr>) cs"
  by (cases b; auto simp: chain_def opt_call_def producer_setter_defs split: option.splits)+

lemma chain_producer_sasl_call:
  assumes "ppb_sasl_mechanism b = None" "ppb_sasl_username b = None" "ppb_sasl_password b = None"
    "sasl_complete m u p"
  shows "chain producer_call b (sasl_call PSaslMechanism m u p @ cs) =
     chain producer_call (b\<lparr>ppb_sasl_mechanism := m, ppb_sasl_username := u, ppb_sasl_password := p\<rparr>) cs"
  using assms by (cases b) (auto simp: chain_def sasl_call_def sasl_complete_def producer_setter_defs split: option.splits)

section \<open>What the builders build\<close>

definition consumer_buildable :: "PyConsumerConfig \<Rightarrow> bool" where
  "consumer_buildable c =
     (py_topics c \<noteq> [] \<and> sasl_complete (py_sasl_mechanism c) (py_sasl_username c) (py_sasl_password c))"

definition producer_buildable :: "PyProducerConfig \<Rightarrow> bool" where
  "producer_buildable c = sasl_complete (pp_sasl_mechanism c) (pp_sasl_username c) (pp_sasl_password c)"

definition consumer_builder_ok :: "PyConsumerConfigBuilder \<Rightarrow> bool" where
  "consumer_builder_ok b = sasl_complete (pcb_sasl_mechanism b) (pcb_sasl_username b) (pcb_sasl_password b)"

definition producer_builder_ok :: "PyProducerConfigBuilder \<Rightarrow> bool" where
  "producer_builder_ok b = sasl_complete (ppb_sasl_mechanism b) (ppb_sasl_username b) (ppb_sasl_password b)"

lemma consumer_calls_complete:
  "consumer_buildable c \<Longrightarrow>
     PyConsumerConfigBuilder_build (chain consumer_call PyConsumerConfigBuilder_new (consumer_calls c)) = Inr c"
  by (simp add: consumer_buildable_def consumer_calls_def chain_consumer_opt_call chain_consumer_sasl_call
      consumer_setter_defs PyConsumerConfigBuilder_new_def PyConsumerConfigBuilder_build_def
      chain_consumer_opt_call [of _ _ "[]", simplified])

lemma producer_calls_complete:
  "producer_buildable c \<Longrightarrow>
     PyProducerConfigBuilder_build (chain producer_call PyProducerConfigBuilder_new (producer_calls c)) = Inr c"
  by (simp add: producer_buildable_def producer_calls_def chain_producer_opt_call
      chain_producer_sasl_call chain_producer_sasl_call [of _ _ _ _ "[]", simplified]
      producer_setter_defs PyProducerConfigBuilder_new_def PyProducerConfigBuilder_build_def)

lemma consumer_build_Inr:
  "PyConsumerConfigBuilder_build b = Inr c \<Longrightarrow>
     pcb_topics b \<noteq> [] \<and> py_topics c = pcb_topics b \<and> py_sasl_mechanism c = pcb_sasl_mechanism b
     \<and> py_sasl_username c = pcb_sasl_username b \<and> py_sasl_password c = pcb_sasl_password b"
  by (auto simp: PyConsumerConfigBuilder_build_def split: option.splits if_splits)

lemma producer_build_Inr:
  "PyProducerConfigBuilder_build b = Inr c \<Longrightarrow> pp_sasl_mechanism c = ppb_sasl_mechanism b
     \<and> pp_sasl_username c = ppb_sasl_username b \<and> pp_sasl_password c = ppb_sasl_password b"
  by (auto simp: PyProducerConfigBuilder_build_def split: option.splits)

lemma consumer_call_ok: "consumer_builder_ok b \<Longrightarrow> consumer_builder_ok (snd (consumer_call s b))"
  by (cases s) (simp_all add: consumer_setter_defs consumer_builder_ok_def)

lemma producer_call_ok: "producer_builder_ok b \<Longrightarrow> producer_builder_ok (snd (producer_call s b))"
  by (cases s) (simp_all add: producer_setter_defs producer_builder_ok_def)

interpretation consumer_builder: fluent_builder consumer_call PyConsumerConfigBuilder_new
  PyConsumerConfigBuilder_build consumer_builder_ok consumer_buildable consumer_calls
proof unfold_locales
  show "consumer_builder_ok PyConsumerConfigBuilder_new"
    by (simp add: consumer_builder_ok_def sasl_complete_def PyConsumerConfigBuilder_new_def)
  show "consumer_buildable r" if "consumer_builder_ok b" "PyConsumerConfigBuilder_build b = Inr r" for b r
    using that(1) consumer_build_Inr [OF that(2)] by (simp add: consumer_builder_ok_def consumer_buildable_def)
qed (simp_all add: consumer_copy_same consumer_call_ok consumer_calls_complete)

interpretation producer_builder: fluent_builder producer_call PyProducerConfigBuilder_new
  PyProducerConfigBuilder_build producer_builder_ok producer_buildable producer_calls
proof unfold_locales
  show "producer_builder_ok PyProducerConfigBuilder_new"
    by (simp add: producer_builder_ok_def sasl_complete_def PyProducerConfigBuilder_new_def)
  show "producer_buildable r" if "producer_builder_ok b" "PyProducerConfigBuilder_build b = Inr r" for b r
    using that(1) producer_build_Inr [OF that(2)] by (simp add: producer_builder_ok_def producer_buildable_def)
qed (simp_all add: producer_copy_same producer_call_ok producer_calls_complete)

text \<open>
  C28 (type). What the builders can build. Whatever setters are called in whatever order, a consumer
  configuration is built exactly when it names a topic and its SASL settings are given together or
  not at all; for a producer configuration the SASL condition alone counts. It makes no
  difference whether a program goes on with the mutated builder or with the returned copy.
\<close>

theorem builders_build_exactly:
  "((\<exists>cs. PyConsumerConfigBuilder_build (chain consumer_call PyConsumerConfigBuilder_new cs) = Inr c)
      \<longleftrightarrow> py_topics c \<noteq> [] \<and> sasl_complete (py_sasl_mechanism c) (py_sasl_username c) (py_sasl_password c))
   \<and> ((\<exists>cs. PyProducerConfigBuilder_build (chain producer_call PyProducerConfigBuilder_new cs) = Inr p)
      \<longleftrightarrow> sasl_complete (pp_sasl_mechanism p) (pp_sasl_username p) (pp_sasl_password p))
   \<and> foldl (\<lambda>b s. fst (consumer_call s b)) b cs = chain consumer_call b cs
   \<and> foldl (\<lambda>b s. fst (producer_call s b)) pb pcs = chain producer_call pb pcs"
  using consumer_builder.builds_exactly [of c] producer_builder.builds_exactly [of p]
    consumer_builder.mutated_is_returned [of b cs] producer_builder.mutated_is_returned [of pb pcs]
  by (simp add: consumer_buildable_def producer_buildable_def)

text \<open>Which error a builder reports: the first missing field in the order brokers, group, topics.\<close>

lemma consumer_build_errors:
  "PyConsumerConfigBuilder_build b = Inl e \<longleftrightarrow>
     (pcb_brokers b = None \<and> e = PyValueError ''missing required field: brokers'')
     \<or> (pcb_brokers b \<noteq> None \<and> pcb_group_id b = None \<and> e = PyValueError ''missing required field: group_id'')
     \<or> (pcb_brokers b \<noteq> None \<and> pcb_group_id b \<noteq> None \<and> pcb_topics b = []
        \<and> e = PyValueError ''at least one topic must be specified'')"
  by (cases "pcb_brokers b"; cases "pcb_group_id b"; cases "pcb_topics b = []")
    (auto simp: PyConsumerConfigBuilder_build_def)

section \<open>Reading the environment\<close>

lemma map_trim_plain: "list_all plain_topic ts \<Longrightarrow> map trim ts = ts"
  by (induction ts) (simp_all add: plain_topic_def trim_idem_ends)

lemma split_join_plain:
  "ts \<noteq> [] \<Longrightarrow> list_all plain_topic ts \<Longrightarrow> map trim (str_split CHR '','' (str_join CHR '','' ts)) = ts"
  by (subst split_join) (auto simp: plain_topic_def map_trim_plain list_all_iff)

lemma parse_opt_uint:
  "e name = map_option show_nat v \<Longrightarrow> pred_option (\<lambda>n. n < 2 ^ w) v \<Longrightarrow>
     parse_var_opt (py_parse_uint w) e name = Inr v"
  by (cases v) (simp_all add: parse_var_opt_def)

lemma parse_opt_bool:
  "e name = map_option show_bool v \<Longrightarrow> parse_var_opt py_parse_bool e name = Inr v"
  by (cases v) (simp_all add: parse_var_opt_def)

lemma producer_vars_roundtrip: "producer_env_ok c \<Longrightarrow> PyProducerConfig_from_env_vars (producer_env c) = Inr c"
  by (simp add: PyProducerConfig_from_env_vars_def producer_env_def producer_env_ok_def)

lemma consumer_vars_roundtrip: "consumer_env_ok c \<Longrightarrow> PyConsumerConfig_from_env_vars (consumer_env c) = Inr c"
  by (simp add: PyConsumerConfig_from_env_vars_def consumer_env_def consumer_env_ok_def
      parse_opt_uint [where v = "py_bootstrap_timeout_ms c"] parse_opt_uint [where v = "py_drain_timeout_secs c"]
      parse_opt_uint [where v = "py_num_workers c"] parse_opt_uint [where v = "py_handler_timeout_ms c"]
      parse_opt_bool [where v = "py_enable_auto_offset_store c"] split_join_plain)

lemmas parse_literal_eval = py_parse_uint_def parse_uint_def py_parse_bool_def is_digit_def digit_value_def
  trim_def is_space_def

lemma empty_env_defaults:
  "PyConsumerConfig_from_env_vars Map.empty =
     Inr (PyConsumerConfig_default ''localhost:9092'' ''rust-consumer-group'' [''transactions'', ''events''])"
  "PyProducerConfig_from_env_vars Map.empty = Inr (PyProducerConfig_default ''localhost:9092'')"
  by (simp_all add: PyConsumerConfig_from_env_vars_def PyProducerConfig_from_env_vars_def parse_literal_eval
      PyConsumerConfig_default_def PyProducerConfig_default_def PyConsumerConfig_new_def PyProducerConfig_new_def)

lemma builder_defaults:
  "ts \<noteq> [] \<Longrightarrow> PyConsumerConfigBuilder_build
       (chain consumer_call PyConsumerConfigBuilder_new [CBrokers brokers, CGroupId grp, CTopics ts])
     = Inr (PyConsumerConfig_default brokers grp ts)"
  "PyProducerConfigBuilder_build (chain producer_call PyProducerConfigBuilder_new [PBrokers brokers])
     = Inr (PyProducerConfig_default brokers)"
  by (simp_all add: consumer_setter_defs producer_setter_defs PyConsumerConfigBuilder_new_def
      PyProducerConfigBuilder_new_def PyConsumerConfigBuilder_build_def PyProducerConfigBuilder_build_def
      PyConsumerConfig_default_def PyProducerConfig_default_def PyConsumerConfig_new_def PyProducerConfig_new_def)

text \<open>
  One set of defaults. An empty environment, a builder that was told only what it
  requires, and a constructor called with only its required arguments yield the same configuration.
\<close>

lemma config_sources_agree:
  "PyConsumerConfigBuilder_build
     (chain consumer_call PyConsumerConfigBuilder_new [CBrokers brokers, CGroupId grp, CTopics (t # ts)])
       = Inr (PyConsumerConfig_default brokers grp (t # ts))
   \<and> PyConsumerConfig_from_env no_env_file Map.empty
       = Inr (PyConsumerConfig_default ''localhost:9092'' ''rust-consumer-group'' [''transactions'', ''events''])
   \<and> PyProducerConfigBuilder_build (chain producer_call PyProducerConfigBuilder_new [PBrokers brokers])
       = Inr (PyProducerConfig_default brokers)
   \<and> PyProducerConfig_from_env no_env_file Map.empty = Inr (PyProducerConfig_default ''localhost:9092'')"
  using builder_defaults(1) [of "t # ts"] builder_defaults(2) empty_env_defaults
  by (simp add: PyConsumerConfig_from_env_def PyProducerConfig_from_env_def load_env_def no_env_file_def)



text \<open>
  An empty topics variable is read as one topic with an empty name: the check of the builder for a
  missing topic has no counterpart in the reader, and none later in the runtime.
\<close>

lemma empty_topics_variable:
  "\<exists>c. PyConsumerConfig_from_env no_env_file [''KAFKA_TOPICS'' \<mapsto> ''''] = Inr c \<and> py_topics c = [[]]"
  by (simp add: PyConsumerConfig_from_env_def load_env_def no_env_file_def PyConsumerConfig_from_env_vars_def
      parse_literal_eval)

text \<open>A number that does not fit its type is an error and never wraps.\<close>

lemma env_numbers_fit:
  "PyConsumerConfig_from_env_vars e = Inr c \<Longrightarrow>
     py_session_timeout_ms c < 2 ^ 32 \<and> py_heartbeat_interval_ms c < 2 ^ 32 \<and> py_max_poll_interval_ms c < 2 ^ 32
     \<and> py_message_batch_size c < 2 ^ 64"
  by (auto simp: PyConsumerConfig_from_env_vars_def try_bind_Inr_iff dest: py_parse_uint_bound)

end
