(* ===== verification/Errors.thy ===== *)
theory Errors
  imports Config Rebalance Shutdown
begin

text \<open>
  Errors of the consumer with their texts (\<^verbatim>\<open>src/consumer/error.rs\<close>, \<^verbatim>\<open>src/consumer/config.rs\<close>) and the
  operations of the runner that report them (\<^verbatim>\<open>src/consumer/runner.rs\<close>): stop, commit, storing an offset on
  a blocking thread, and the task that hands the stream of messages to a processing function. Errors
  of the client library are their text.
\<close>

section \<open>Errors and their texts\<close>

fun BuildError_str :: "BuildError \<Rightarrow> string" where
  "BuildError_str (MissingField f) = ''missing required field: '' @ f"
| "BuildError_str NoTopics = ''at least one topic must be specified''"
| "BuildError_str (InvalidField f) = ''invalid field: '' @ f"

datatype ConsumerError =
    KafkaErr string
  | SubscriptionErr string string
  | ReceiveErr string nat string
  | SerializationErr string i32 i64 bytes string
  | ProcessingErr string i32 i64 string
  | NotStarted
  | AlreadyStarted
  | ConfigErr BuildError

fun debug_list :: "string list \<Rightarrow> string" where
  \<comment> \<open>the elements of a list as \<open>{:?}\<close> prints them between the brackets\<close>
  "debug_list [] = []"
| "debug_list [x] = x"
| "debug_list (x # y # xs) = x @ '', '' @ debug_list (y # xs)"

definition debug_bytes :: "bytes \<Rightarrow> string" where
  "debug_bytes bs = ''['' @ debug_list (map (\<lambda>b. show_nat (unat b)) bs) @ '']''"

definition place_of :: "string \<Rightarrow> i32 \<Rightarrow> i64 \<Rightarrow> string" where
  "place_of topic part offset = topic @ '':'' @ show_int part @ ''@'' @ show_int offset"

definition em_dash :: string where
  \<comment> \<open>U+2014 in UTF-8\<close>
  "em_dash = [CHR 0xE2, CHR 0x80, CHR 0x94]"

fun ConsumerError_str :: "ConsumerError \<Rightarrow> string" where
  "ConsumerError_str (KafkaErr e) = ''kafka error: '' @ e"
| "ConsumerError_str (SubscriptionErr broker message) =
     ''failed to subscribe to topics at broker '' @ [CHR 0x27] @ broker @ [CHR 0x27] @ '': '' @ message"
| "ConsumerError_str (ReceiveErr handler timeout message) =
     ''message receive error for handler '' @ [CHR 0x27] @ handler @ [CHR 0x27] @ '' after '' @ show_nat timeout @ ''ms: '' @ message"
| "ConsumerError_str (SerializationErr topic part offset preview source) =
     ''deserialization failed for message at '' @ place_of topic part offset @ ''; bytes preview: ''
     @ debug_bytes preview @ '' '' @ em_dash @ '' '' @ source"
| "ConsumerError_str (ProcessingErr topic part offset message) =
     ''processing error for message at '' @ place_of topic part offset @ '': '' @ message"
| "ConsumerError_str NotStarted = ''consumer not started''"
| "ConsumerError_str AlreadyStarted = ''consumer already started''"
| "ConsumerError_str (ConfigErr e) = ''config error: '' @ BuildError_str e"

section \<open>Operations of the runner\<close>

definition runner_create :: "ConsumerConfig \<Rightarrow> string option \<Rightarrow> string option \<Rightarrow> ConsumerError + client_config" where
  \<comment> \<open>the first steps of \<open>ConsumerRunner::new\<close>: create the client, subscribe; what the library answers to each\<close>
  "runner_create config create_error subscribe_error =
     (case create_error of
        Some e \<Rightarrow> Inl (KafkaErr e)
      | None \<Rightarrow> (case subscribe_error of
          Some e \<Rightarrow> Inl (SubscriptionErr (cc_brokers config) e)
        | None \<Rightarrow> Inr (into_rdkafka_config config)))"

definition runner_stop :: "ShutdownCoordinator option \<Rightarrow> ShutdownCoordinator option res" where
  \<comment> \<open>with a coordinator draining begins first; the broadcast follows in both cases\<close>
  "runner_stop coord =
     (case coord of None \<Rightarrow> Inr None | Some c \<Rightarrow> res_bind (begin_draining c) (\<lambda>(c', _). Inr (Some c')))"

definition runner_commit :: "string option \<Rightarrow> ConsumerError + unit" where
  "runner_commit answer = (case answer of None \<Rightarrow> Inr () | Some e \<Rightarrow> Inl (KafkaErr e))"

datatype blocking_answer = JoinFailed string | Stored | StoreFailed string

fun runner_store_offset :: "blocking_answer \<Rightarrow> ConsumerError + unit" where
  "runner_store_offset (JoinFailed e) = Inl (ReceiveErr ''store_offset'' 0 (''store_offset task failed: '' @ e))"
| "runner_store_offset Stored = Inr ()"
| "runner_store_offset (StoreFailed e) = Inl (KafkaErr e)"

fun consumer_task :: "(OwnedMessage \<Rightarrow> ConsumerError option) \<Rightarrow> (ConsumerError + OwnedMessage) list \<Rightarrow> OwnedMessage list" where
  \<comment> \<open>the messages that were given to the processing function before the task halted\<close>
  "consumer_task process [] = []"
| "consumer_task process (Inl e # rest) = []"
| "consumer_task process (Inr m # rest) =
     (case process m of Some e \<Rightarrow> [m] | None \<Rightarrow> m # consumer_task process rest)"

definition client_answer :: "string + 'a \<Rightarrow> ConsumerError + 'a" where
  \<comment> \<open>\<open>map_err(ConsumerError::Kafka)\<close>\<close>
  "client_answer r = map_sum KafkaErr id r"

definition runner_assignment :: "string + (string \<times> i32 \<times> i64) list \<Rightarrow> ConsumerError + (string \<times> i32 \<times> i64) list" where
  "runner_assignment answer = client_answer answer"

definition runner_pause :: "string + unit \<Rightarrow> ConsumerError + unit" where
  "runner_pause answer = client_answer answer"

definition runner_resume :: "string + unit \<Rightarrow> ConsumerError + unit" where
  "runner_resume answer = client_answer answer"

datatype task_effect = RunnerStopped | TaskAborted

definition ConsumerTask_shutdown :: "ShutdownCoordinator option \<Rightarrow> (ShutdownCoordinator option \<times> task_effect list) res" where
  \<comment> \<open>the task is forgotten afterwards, so that its \<open>drop\<close> does not run\<close>
  "ConsumerTask_shutdown coord = res_bind (runner_stop coord) (\<lambda>c. Inr (c, [RunnerStopped, TaskAborted]))"

definition ConsumerTask_drop :: "ShutdownCoordinator option \<Rightarrow> (ShutdownCoordinator option \<times> task_effect list) res" where
  "ConsumerTask_drop coord = res_bind (runner_stop coord) (\<lambda>c. Inr (c, [RunnerStopped]))"

section \<open>Lemmas\<close>

text \<open>Every error text names its kind, so that errors of different kinds never read the same.\<close>

fun error_kind :: "ConsumerError \<Rightarrow> nat" where
  "error_kind (KafkaErr _) = 0"
| "error_kind (SubscriptionErr _ _) = 1"
| "error_kind (ReceiveErr _ _ _) = 2"
| "error_kind (SerializationErr _ _ _ _ _) = 3"
| "error_kind (ProcessingErr _ _ _ _) = 4"
| "error_kind NotStarted = 5"
| "error_kind AlreadyStarted = 6"
| "error_kind (ConfigErr _) = 7"

lemma error_text_names_kind: "ConsumerError_str a = ConsumerError_str b \<Longrightarrow> error_kind a = error_kind b"
  by (cases a; cases b) simp_all

text \<open>The task processes messages in stream order and halts at the first error of stream or function.\<close>

lemma consumer_task_prefix:
  "\<exists>k. consumer_task process rs = map projr (take k rs) \<and> list_all (\<lambda>x. \<not> isl x) (take k rs)
     \<and> list_all (\<lambda>m. process m = None) (butlast (consumer_task process rs))"
proof (induction process rs rule: consumer_task.induct)
  case (1 process)
  then show ?case by simp
next
  case (2 process e rest)
  then show ?case by (auto intro: exI [of _ 0])
next
  case (3 process m rest)
  show ?case
  proof (cases "process m")
    case None
    with 3 obtain k where k: "consumer_task process rest = map projr (take k rest)" "list_all (\<lambda>x. \<not> isl x) (take k rest)"
      "list_all (\<lambda>m. process m = None) (butlast (consumer_task process rest))" by blast
    with None show ?thesis by (intro exI [of _ "Suc k"]) simp
  next
    case (Some e)
    then show ?thesis by (intro exI [of _ 1]) simp
  qed
qed

lemma runner_stop_panics: "runner_stop (Some c) = Inl p \<Longrightarrow> phase c \<noteq> Running"
  by (auto simp: runner_stop_def begin_draining_def)

text \<open>Stopping twice panics when a coordinator is set: without \<open>forget\<close>, the end of a task after its shutdown would.\<close>

lemma drop_after_shutdown:
  assumes "ConsumerTask_shutdown coord = Inr (coord', effects)"
  shows "(\<exists>p. ConsumerTask_drop coord' = Inl p) \<longleftrightarrow> coord \<noteq> None"
  using assms by (auto simp: ConsumerTask_shutdown_def ConsumerTask_drop_def runner_stop_def begin_draining_def
      split: option.splits if_splits)

end
