(* ===== verification/Assembly.thy ===== *)
theory Assembly
  imports Pipeline Snapshot PyConfig Errors
begin

text \<open>
  Assembly of the runtime (\<^verbatim>\<open>src/runtime/builder.rs\<close>) and the consumer object that starts it
  (\<^verbatim>\<open>src/consumer/runtime.rs\<close>): every component is built from the configuration and the registered
  handlers in the order of the code, with its errors and panics. It shows which outcomes a build has,
  and that a built runtime is an initial state of the whole-system model, so that what is proved
  there holds for every runtime a program can start.
\<close>

section \<open>Building\<close>

text \<open>What is outside: the client library, the rounding of doubles, and an environment variable.\<close>

record outside =
  out_round :: "real \<Rightarrow> real"
  out_dlq_error :: "string option"
  out_create_error :: "string option"
  out_subscribe_error :: "string option"
  out_concurrency_var :: "string option"
  out_py_none :: nat

record Runtime =
  rt_config :: ConsumerConfig
  rt_sink :: PrometheusSink
  rt_dlq_settings :: client_config
  rt_router :: DefaultDlqRouter
  rt_client :: client_config
  rt_dispatcher :: ConsumerDispatcher
  rt_handlers :: "string \<rightharpoonup> PythonHandler"
  rt_coordinator :: ShutdownCoordinator
  rt_concurrency :: HandlerConcurrency
  rt_workers :: "(nat \<times> string \<times> worker_kind) list"
  rt_pool_state :: WorkerPoolState
  rt_commit_config :: CommitConfig
  rt_kafpy :: kafpy

definition parse_usize :: "string \<Rightarrow> nat option" where
  \<comment> \<open>\<open>parse::<usize>().ok()\<close>\<close>
  "parse_usize s = (case parse_uint 64 s of Inl _ \<Rightarrow> None | Inr n \<Rightarrow> Some n)"

definition register_all :: "nat \<Rightarrow> string list \<Rightarrow> ConsumerDispatcher \<Rightarrow> ConsumerDispatcher res" where
  "register_all cap topics d = res_foldl (\<lambda>d topic. ConsumerDispatcher_register_handler d topic cap None) d topics"

definition RuntimeBuilder_build ::
  "outside \<Rightarrow> string list \<Rightarrow> PyConsumerConfig \<Rightarrow> PyConsumer \<Rightarrow> snapshot_globals
   \<Rightarrow> (ConsumerError + Runtime \<times> snapshot_globals) res" where
  \<comment> \<open>\<open>ks\<close> is the order in which the map of registered handlers is visited\<close>
  "RuntimeBuilder_build out ks config consumer g =
     (case runtime_config (out_round out) config of
        Inl e \<Rightarrow> Inr (Inl (ConfigErr e))
      | Inr rust_config \<Rightarrow>
         let prometheus_sink = SharedPrometheusSink_new;
             dlq_router = DefaultDlqRouter_new (cc_dlq_topic_prefix rust_config)
         in if out_dlq_error out \<noteq> None then Inl (Panic ''Failed to create DLQ producer'')
            else (case runner_create rust_config (out_create_error out) (out_subscribe_error out) of
               Inl e \<Rightarrow> Inr (Inl e)
             | Inr client \<Rightarrow>
                res_bind (register_all (queue_capacity config) ks ConsumerDispatcher_new) (\<lambda>dispatcher.
                let policy = cc_default_retry_policy rust_config;
                    handlers = handler_map (out_py_none out) policy (py_handler_timeout_ms config) consumer;
                    coordinator = ShutdownCoordinator_new (cc_drain_timeout_secs rust_config);
                    concurrency = concurrency_limits (default_concurrency parse_usize (out_concurrency_var out))
                      (map (\<lambda>k. (k, Option.bind (pc_handlers consumer k) meta_concurrency)) ks)
                in res_bind (pool_new (n_workers config) ks ks handlers) (\<lambda>workers.
                Inr (Inr (\<lparr>rt_config = rust_config, rt_sink = prometheus_sink, rt_dlq_settings = create_producer rust_config,
                  rt_router = dlq_router, rt_client = client, rt_dispatcher = dispatcher, rt_handlers = handlers,
                  rt_coordinator = coordinator, rt_concurrency = concurrency, rt_workers = workers,
                  rt_pool_state = WorkerPoolState_new (n_workers config), rt_commit_config = CommitConfig_default,
                  rt_kafpy = \<lparr>k_services = \<lparr>svc_offsets = OffsetTracker_new, svc_retry = RetryCoordinator_new policy,
                      svc_queues = queue_manager dispatcher, svc_dlq = SharedDlqProducer_new, svc_logs = []\<rparr>,
                    k_taken = [], k_committer = CommitterState_new, k_calls = []\<rparr>\<rparr>,
                  RuntimeSnapshotTask_spawn g))))))"

definition PyConsumer_start ::
  "outside \<Rightarrow> string option \<Rightarrow> string list \<Rightarrow> PyConsumerConfig \<Rightarrow> PyConsumer \<Rightarrow> snapshot_globals
   \<Rightarrow> (PyErr + Runtime \<times> snapshot_globals) res" where
  \<comment> \<open>a runtime to run, or the error that Python sees; the second argument: why the Tokio runtime cannot be made\<close>
  "PyConsumer_start out rt_error ks config consumer g =
     (case rt_error of
        Some e \<Rightarrow> Inr (Inl (PyRuntimeError e))
      | None \<Rightarrow> res_bind (RuntimeBuilder_build out ks config consumer g)
          (\<lambda>r. Inr (map_sum (\<lambda>e. PyRuntimeError (ConsumerError_str e)) id r)))"

definition PyConsumer_status :: "snapshot_globals \<Rightarrow> py_obj" where
  "PyConsumer_status g = get_runtime_snapshot g"

definition PyConsumer_exit :: "PyConsumer \<Rightarrow> PyConsumer \<times> bool" where
  \<comment> \<open>the context manager stops the consumer and lets exceptions through\<close>
  "PyConsumer_exit c = (stop_consumer c, False)"

text \<open>
  The pool waits in rounds until its token is cancelled. A round reads the token and, if it is
  not cancelled, waits for a worker to end; without workers left the answer comes at once.
\<close>

datatype join_answer = JoinedOk | JoinedPanic string | NoneLeft

fun pool_run :: "(bool \<times> join_answer) list \<Rightarrow> bool \<times> string list" where
  \<comment> \<open>whether the loop was left, and what was logged\<close>
  "pool_run [] = (False, [])"
| "pool_run ((cancelled, answer) # rest) =
     (if cancelled then (True, [])
      else let (left, logged) = pool_run rest
           in (left, (case answer of JoinedPanic e \<Rightarrow> [''worker panicked, initiating shutdown error '' @ e] | _ \<Rightarrow> []) @ logged))"

section \<open>Lemmas\<close>

text \<open>Only the token ends the wait: panics of workers do not, nor does the end of the last one.\<close>

lemma pool_run_left_iff: "fst (pool_run rounds) \<longleftrightarrow> list_ex fst rounds"
  by (induction rounds rule: pool_run.induct) (auto split: prod.splits)

lemma queue_capacity_pos: "0 < queue_capacity p"
  by (simp add: queue_capacity_def)

lemma register_all_queues:
  "0 < cap \<Longrightarrow> \<exists>d'. register_all cap topics d = Inr d' \<and> queue_manager d' =
     (\<lambda>t. if t \<in> set topics then Some (HandlerMetadata_new cap None 0) else queue_manager d t)"
proof (induction topics arbitrary: d)
  case Nil
  then show ?case by (simp add: register_all_def)
next
  case (Cons t ts)
  obtain d1 where d1: "ConsumerDispatcher_register_handler d t cap None = Inr d1"
    "queue_manager d1 = (queue_manager d)(t \<mapsto> HandlerMetadata_new cap None 0)"
    using Cons.prems by (simp add: ConsumerDispatcher_register_handler_def register_handler_with_semaphore_def)
  from Cons.IH [OF Cons.prems, of d1] d1 show ?case
    by (auto simp: register_all_def fun_eq_iff)
qed

lemma spawn_workers_total:
  "list_all (\<lambda>(i, t). handlers t \<noteq> None) asg \<Longrightarrow>
     \<exists>ws. spawn_workers batch handlers asg = Inr ws \<and> map (\<lambda>(i, t, k). (i, t)) ws = asg"
  by (induction batch handlers asg rule: spawn_workers.induct) auto

lemma pool_new_total:
  assumes "iterates ks (pc_handlers c)"
  shows "\<exists>ws. pool_new n ks ks (handler_map none policy ms c) = Inr ws \<and> map (\<lambda>(i, t, k). (i, t)) ws = pool_assign n ks"
proof -
  have "list_all (\<lambda>(i, t). handler_map none policy ms c t \<noteq> None) (pool_assign n ks)"
    using assms by (auto simp: list_all_iff pool_assign_def handler_map_def iterates_mem
        dest!: in_set_takeD in_set_enumerate_eq [THEN iffD1] nth_mem)
  then show ?thesis unfolding pool_new_def by (rule spawn_workers_total)
qed

text \<open>The queues of a built runtime: one per visited topic, empty, of the configured capacity.\<close>

definition fresh_queues :: "nat \<Rightarrow> string list \<Rightarrow> QueueManager" where
  "fresh_queues cap ks = (\<lambda>t. if t \<in> set ks then Some (HandlerMetadata_new cap None 0) else None)"

lemma empty_fresh_queues: "empty_queues (fresh_queues cap ks)"
  by (simp add: empty_queues_def fresh_queues_def HandlerMetadata_new_def)

lemma register_fresh:
  "\<exists>d. register_all (queue_capacity config) ks ConsumerDispatcher_new = Inr d
     \<and> queue_manager d = fresh_queues (queue_capacity config) ks"
proof -
  have "queue_manager ConsumerDispatcher_new = Map.empty" by (simp add: ConsumerDispatcher_new_def Dispatcher_new_def)
  with register_all_queues [OF queue_capacity_pos, of config ks ConsumerDispatcher_new] show ?thesis
    unfolding fresh_queues_def by metis
qed

lemma build_initial:
  assumes "RuntimeBuilder_build out ks config c g = Inr (Inr (rt, g'))"
  shows "runtime_config (out_round out) config = Inr (rt_config rt)
     \<and> rt_kafpy rt = kafpy_new (cc_default_retry_policy (rt_config rt)) (fresh_queues (queue_capacity config) ks)
     \<and> g' = RuntimeSnapshotTask_spawn g"
proof -
  obtain d where d: "register_all (queue_capacity config) ks ConsumerDispatcher_new = Inr d"
    "queue_manager d = fresh_queues (queue_capacity config) ks"
    using register_fresh by blast
  show ?thesis using assms d
    by (auto simp: RuntimeBuilder_build_def Let_def kafpy_new_def services_new_def
        split: sum.splits if_splits)
qed


definition calm_outside :: outside where
  \<comment> \<open>everything outside works\<close>
  "calm_outside = \<lparr>out_round = (\<lambda>x. x), out_dlq_error = None, out_create_error = None, out_subscribe_error = None,
     out_concurrency_var = None, out_py_none = 0\<rparr>"

definition one_consumer :: PyConsumer where
  "one_consumer = add_handler None ''t'' 1 None None None None None None PyConsumer_new"

lemma iterates_one_consumer: "iterates [''t''] (pc_handlers one_consumer)"
  by (simp add: iterates_def one_consumer_def add_handler_def PyConsumer_new_def)

lemma sample_config_accepted: "\<exists>cfg. runtime_config (\<lambda>x. x) sample_py_config = Inr cfg"
  by (simp add: runtime_config_def build_config_def cfg_defs ConsumerConfigBuilder_new_def sample_py_config_def)


lemma calm_build:
  "\<exists>rt g. RuntimeBuilder_build calm_outside [''t''] sample_py_config one_consumer snapshot_globals_new = Inr (Inr (rt, g))
     \<and> rt_commit_config rt = CommitConfig_default \<and> rt_router rt = with_default_prefix"
proof -
  obtain cfg where cfg: "runtime_config (\<lambda>x. x) sample_py_config = Inr cfg" "cc_dlq_topic_prefix cfg = ''dlq.''"
    by (simp add: runtime_config_def build_config_def cfg_defs ConsumerConfigBuilder_new_def sample_py_config_def
        consumer_settings.defs ConsumerConfig.defs)
  obtain d where "register_all (queue_capacity sample_py_config) [''t''] ConsumerDispatcher_new = Inr d"
    using register_fresh by blast
  moreover obtain ws where "pool_new (n_workers sample_py_config) [''t''] [''t'']
      (handler_map 0 (cc_default_retry_policy cfg) (py_handler_timeout_ms sample_py_config) one_consumer) = Inr ws"
    using pool_new_total [OF iterates_one_consumer] by blast
  ultimately show ?thesis using cfg
    by (simp add: RuntimeBuilder_build_def calm_outside_def runner_create_def with_default_prefix_def Let_def)
qed

end
