(* ===== verification/Systems.thy ===== *)
theory Systems
  imports Prelude
begin

text \<open>
  Systems of tasks: a step function that says which events are enabled (\<open>None\<close>: not enabled) and what they
  do (a panic, or a successor), the runs of such a system, and three contracts with what follows from
  them for every run: an invariant, a ranking that bounds the number of steps, and a simulation of the
  runs of an abstract system whose events are all enabled.
\<close>

type_synonym ('s, 'e) system = "'s \<Rightarrow> 'e \<Rightarrow> 's res option"

inductive runs :: "('s, 'e) system \<Rightarrow> 's \<Rightarrow> 'e list \<Rightarrow> 's \<Rightarrow> bool" for step where
  runs_nil: "runs step s [] s"
| runs_snoc: "runs step s es s1 \<Longrightarrow> step s1 e = Some (Inr s2) \<Longrightarrow> runs step s (es @ [e]) s2"

inductive_simps runs_Nil [simp]: "runs step s [] s'"

lemma runs_snoc_iff: "runs step s (es @ [e]) s' \<longleftrightarrow> (\<exists>s1. runs step s es s1 \<and> step s1 e = Some (Inr s'))"
  by (subst runs.simps) auto

fun run_of :: "('s, 'e) system \<Rightarrow> 's \<Rightarrow> 'e list \<Rightarrow> 's option" where
  \<comment> \<open>the run as a computation\<close>
  "run_of step s [] = Some s"
| "run_of step s (e # es) = (case step s e of Some (Inr s1) \<Rightarrow> run_of step s1 es | _ \<Rightarrow> None)"

lemma run_of_snoc:
  "run_of step s (es @ [e]) = Some s' \<longleftrightarrow> (\<exists>s1. run_of step s es = Some s1 \<and> step s1 e = Some (Inr s'))"
  by (induction es arbitrary: s) (auto split: option.splits sum.splits)

lemma runs_run_of: "runs step s es s' \<longleftrightarrow> run_of step s es = Some s'"
  by (induction es arbitrary: s' rule: rev_induct) (auto simp: runs_snoc_iff run_of_snoc)

lemma runs_append: "runs step s es s1 \<Longrightarrow> runs step s1 es' s2 \<Longrightarrow> runs step s (es @ es') s2"
proof (induction es' arbitrary: s2 rule: rev_induct)
  case (snoc e es')
  then show ?case by (metis append_assoc runs_snoc_iff)
qed simp

definition guarded :: "('s \<Rightarrow> 'e \<Rightarrow> bool) \<Rightarrow> ('s, 'e) system \<Rightarrow> ('s, 'e) system" where
  \<comment> \<open>the system restricted to events that a condition admits\<close>
  "guarded P step s e = (if P s e then step s e else None)"

lemma guarded_step: "guarded P step s e = Some r \<longleftrightarrow> P s e \<and> step s e = Some r"
  by (simp add: guarded_def)

lemma runs_guarded: "runs (guarded P step) s es s' \<Longrightarrow> runs step s es s'"
  by (induction rule: runs.induct) (auto intro: runs.intros simp: guarded_step)

locale step_invariant =
  fixes istep :: "('s, 'e) system" and sinv :: "'s \<Rightarrow> bool"
  assumes istep_inv: "sinv s \<Longrightarrow> istep s e = Some (Inr s') \<Longrightarrow> sinv s'"
begin

lemma runs_inv: "runs istep s es s' \<Longrightarrow> sinv s \<Longrightarrow> sinv s'"
  by (induction rule: runs.induct) (auto intro: istep_inv)

end

locale step_ranking = step_invariant istep sinv for istep :: "('s, 'e) system" and sinv +
  fixes counted :: "'e \<Rightarrow> bool" and rank :: "'s \<Rightarrow> nat"
  assumes rank_less: "sinv s \<Longrightarrow> counted e \<Longrightarrow> istep s e = Some (Inr s') \<Longrightarrow> rank s' < rank s"
begin

lemma runs_bounded: "runs istep s es s' \<Longrightarrow> sinv s \<Longrightarrow> list_all counted es \<Longrightarrow> length es + rank s' \<le> rank s"
proof (induction rule: runs.induct)
  case (runs_snoc s es s1 e s2)
  then have "sinv s1" by (blast intro: runs_inv)
  with runs_snoc rank_less [of s1 e s2] show ?case by simp
qed simp

end

locale step_simulation = step_invariant cstep cinv for cstep :: "('c, 'e) system" and cinv +
  fixes astep :: "'a \<Rightarrow> 'f \<Rightarrow> 'a res" and rel :: "'f list \<Rightarrow> 'a \<Rightarrow> 'c \<Rightarrow> bool" and events :: "'c \<Rightarrow> 'e \<Rightarrow> 'f list"
  assumes simulates: "cinv c \<Longrightarrow> rel fs a c \<Longrightarrow> cstep c e = Some (Inr c')
    \<Longrightarrow> \<exists>a'. res_foldl astep a (events c e) = Inr a' \<and> rel (fs @ events c e) a' c'"
begin

lemma runs_simulated:
  "runs cstep c es c' \<Longrightarrow> cinv c \<Longrightarrow> rel [] a c \<Longrightarrow> \<exists>fs a'. res_foldl astep a fs = Inr a' \<and> rel fs a' c'"
proof (induction rule: runs.induct)
  case (runs_nil c)
  then show ?case by (intro exI [of _ "[]"]) simp
next
  case (runs_snoc c es c1 e c2)
  then obtain fs a1 where a1: "res_foldl astep a fs = Inr a1" "rel fs a1 c1" by blast
  have "cinv c1" using runs_snoc runs_inv by blast
  from simulates [OF this a1(2) runs_snoc(2)] a1(1) show ?case
    by (metis res_bind_simps(2) res_foldl_append)
qed

end

end
