(* ===== verification/Program.thy ===== *)
theory Program
  imports Assembly Systems
begin

text \<open>
  The running program: the tasks that the assembled runtime spawns (\<^verbatim>\<open>src/runtime/builder.rs\<close>), each with
  the control points of its own loop, over the services they share. A worker is between two waits of
  its loop (\<^verbatim>\<open>src/worker_pool/worker.rs\<close>, \<^verbatim>\<open>src/worker_pool/batch_loop.rs\<close>); the dispatcher handles one message
  of the stream at a time, the committer one round, the client calls back on a rebalance, and a stop
  request and the shutdown of the pool end the run. An event is one step of one task. The history of the
  run is kept in a trace: what became of every message, and the calls to the Kafka client, in the order
  in which they happened.
\<close>

section \<open>State\<close>

datatype task =
    Polling
  | Invoking OwnedMessage
  | Backoff OwnedMessage duration
  | Gathering batch_loop "batch list"
  | Ended

text \<open>
  \<open>Polling\<close>, \<open>Invoking\<close> and \<open>Backoff\<close> are the waits of the loop for single messages: for a message or the
  token, for the handler, and for the delay of a retry or the token. \<open>Gathering\<close> is the batch loop with the
  batches it has taken out of the accumulator and not yet run.
\<close>

datatype program_call =
    ToConsumer consumer_call
  | ToClient client_call
  | ToRebalance rebalance_call
  | ToProducer DLQMessage "dlq_effect list"

datatype trace_entry =
    Accepted OwnedMessage
  | Refused OwnedMessage
  | Succeeded OwnedMessage
  | DeadLettered OwnedMessage
  | Discarded OwnedMessage
  | Cut OwnedMessage
  | Called program_call

record program =
  pg_services :: services
  pg_handles :: "string \<rightharpoonup> tpl"
  pg_paused :: "string set"
  pg_workers :: "(string \<times> task) list"
  pg_context :: CustomConsumerContext
  pg_token :: bool
  pg_coordinator :: ShutdownCoordinator
  pg_committer :: CommitterState
  pg_committing :: bool
  pg_pool_down :: bool
  pg_trace :: "trace_entry list"

definition task_new :: "worker_kind \<Rightarrow> task" where
  \<comment> \<open>a batch worker without a batch policy panics before its loop\<close>
  "task_new kind = (case kind of SingleWorker \<Rightarrow> Polling
     | BatchWorker h \<Rightarrow> (case batch_worker_start h of Inr l \<Rightarrow> Gathering l [] | Inl p \<Rightarrow> Ended))"

definition program_new :: "Runtime \<Rightarrow> program" where
  "program_new rt =
     \<lparr>pg_services = k_services (rt_kafpy rt), pg_handles = partition_handles (rt_dispatcher rt),
      pg_paused = paused_topics (rt_dispatcher rt),
      pg_workers = map (\<lambda>(i, topic, kind). (topic, task_new kind)) (rt_workers rt),
      pg_context = CustomConsumerContext_new, pg_token = False, pg_coordinator = rt_coordinator rt,
      pg_committer = k_committer (rt_kafpy rt), pg_committing = True, pg_pool_down = False, pg_trace = []\<rparr>"

section \<open>Workers\<close>

text \<open>What a worker waits for: a message, the token, the answer of Python, the end of a delay or of a batch window.\<close>

datatype work_input =
    WTake
  | WCancelled
  | WResult env ExecutionResult
  | WWake
  | WMessage "i32 list" nat
  | WDeadline "i32 list" nat
  | WDrain "i32 list"
  | WFlush env py_answer

fun fate_of :: "OwnedMessage \<Rightarrow> ExecutionAction option \<Rightarrow> trace_entry" where
  "fate_of m None = Succeeded m"
| "fate_of m (Some DlqAction) = DeadLettered m"
| "fate_of m (Some AckAction) = Discarded m"
| "fate_of m (Some (RetryAction d)) = Cut m"

definition gather :: "batch_loop \<Rightarrow> batch list \<Rightarrow> task" where
  \<comment> \<open>back to the loop, which a closed accumulator leaves once its batches have run\<close>
  "gather l bs = (if bs = [] \<and> \<not> bl_running l then Ended else Gathering l bs)"

definition after_result :: "bool \<Rightarrow> OwnedMessage \<Rightarrow> services \<Rightarrow> ExecutionAction option \<Rightarrow> services \<times> task \<times> trace_entry list" where
  "after_result cancelled m s action =
     (case action of
        Some (RetryAction d) \<Rightarrow> (s, Backoff m d, [])
      | _ \<Rightarrow> (s, if cancelled then Ended else Polling, [fate_of m action]))"

definition batch_fates :: "py_answer \<Rightarrow> OwnedMessage list \<Rightarrow> trace_entry list" where
  "batch_fates answer ms = map (if answer = PyReturned then Succeeded else DeadLettered) ms"

fun work_step ::
  "router \<Rightarrow> (bytes \<Rightarrow> string) \<Rightarrow> nat \<Rightarrow> string \<Rightarrow> bool \<Rightarrow> services \<Rightarrow> task \<Rightarrow> work_input
   \<Rightarrow> (services \<times> task \<times> trace_entry list) res option" where
  \<comment> \<open>one step of worker \<open>i\<close> on the queue of a topic; \<open>None\<close>: it is not waiting for that\<close>
  "work_step rt utf8 i topic cancelled s Polling WTake =
     (case receive (svc_queues s) topic of None \<Rightarrow> None
      | Some (m, q) \<Rightarrow> Some (Inr (s\<lparr>svc_queues := q\<rparr>, Invoking m, [])))"
| "work_step rt utf8 i topic cancelled s Polling WCancelled =
     (if cancelled then Some (Inr (s, Ended, [])) else None)"
| "work_step rt utf8 i topic cancelled s (Invoking m) (WResult e result) =
     Some (res_bind (handle_execution_result e rt (worker_context utf8 i m) m result s)
             (\<lambda>(s', action). Inr (after_result cancelled m s' action)))"
| "work_step rt utf8 i topic cancelled s (Backoff m d) WWake =
     (if cancelled then None else Some (Inr (s, Invoking m, [])))"
| "work_step rt utf8 i topic cancelled s (Backoff m d) WCancelled =
     (if cancelled then Some (Inr (s, Ended, [Cut m])) else None)"
| "work_step rt utf8 i topic cancelled s (Gathering l []) (WMessage ks now) =
     (if \<not> iterates ks (partition_accumulators (bl_acc l)) then None
      else case receive (svc_queues s) topic of None \<Rightarrow> None
      | Some (m, q) \<Rightarrow>
          let (l', bs) = on_message ks now (at_capacity q (msg_topic m)) l m
          in Some (Inr (s\<lparr>svc_queues := q\<rparr>, gather l' bs, [])))"
| "work_step rt utf8 i topic cancelled s (Gathering l []) (WDeadline ks now) =
     (if \<not> iterates ks (partition_accumulators (bl_acc l)) \<or> BatchAccumulator_is_empty ks (bl_acc l) then None
      else case next_deadline ks (bl_acc l) of None \<Rightarrow> None
      | Some d \<Rightarrow> if now < d then None
                  else let (l', bs) = batch_step l (BDeadline ks) in Some (Inr (s, gather l' bs, [])))"
| "work_step rt utf8 i topic cancelled s (Gathering l []) (WDrain ks) =
     (if \<not> cancelled \<or> \<not> iterates ks (partition_accumulators (bl_acc l)) then None
      else let (l', bs) = batch_step l (BShutdown ks) in Some (Inr (s, gather l' bs, [])))"
| "work_step rt utf8 i topic cancelled s (Gathering l ((part, ms) # bs)) (WFlush e answer) =
     Some (res_bind (flush_partition_batch e rt (\<lambda>ctx batch. batch_result_of batch answer) i part ms s)
             (\<lambda>s'. Inr (s', gather l bs, batch_fates answer ms)))"
| "work_step rt utf8 i topic cancelled s task inp = None"

text \<open>
  A deadline that has passed over an empty accumulator wakes the batch loop and changes nothing; such rounds
  are left out. A channel is never closed while its worker runs: each worker shares the queue manager, which
  holds the sender.
\<close>

section \<open>The program\<close>

datatype program_event =
    PDispatch client channel OwnedMessage
  | PWork nat work_input
  | PCommit broker "TopicPartitionKey list" nat commit_input
  | PRebalance "string \<Rightarrow> i32 \<Rightarrow> i64 \<Rightarrow> bool" Rebalance
  | PStop stop_request
  | PShutdown env "TopicPartitionKey list"
  | PLetter "future_record \<Rightarrow> bool"

definition dispatcher_of :: "program \<Rightarrow> ConsumerDispatcher" where
  "dispatcher_of p = \<lparr>queue_manager = svc_queues (pg_services p), partition_handles = pg_handles p, paused_topics = pg_paused p\<rparr>"

definition with_dispatcher :: "program \<Rightarrow> ConsumerDispatcher \<Rightarrow> program" where
  "with_dispatcher p d = p\<lparr>pg_services := (pg_services p)\<lparr>svc_queues := queue_manager d\<rparr>,
     pg_handles := partition_handles d, pg_paused := paused_topics d\<rparr>"

definition traced :: "trace_entry list \<Rightarrow> program \<Rightarrow> program" where
  "traced es p = p\<lparr>pg_trace := pg_trace p @ es\<rparr>"

fun hand :: "task \<Rightarrow> i32 \<Rightarrow> OwnedMessage list" where
  \<comment> \<open>the messages of a partition that a worker has taken and not settled, oldest first\<close>
  "hand (Invoking m) part = (if msg_partition m = part then [m] else [])"
| "hand (Backoff m d) part = (if msg_partition m = part then [m] else [])"
| "hand (Gathering l bs) part = flushed part bs @ buffer_at (bl_acc l) part"
| "hand _ part = []"

fun program_step ::
  "router \<Rightarrow> (bytes \<Rightarrow> string) \<Rightarrow> CommitConfig \<Rightarrow> program \<Rightarrow> program_event \<Rightarrow> program res option" where
  "program_step rt utf8 cfg p (PDispatch c chan m) =
     (let (d, calls) = dispatch_message c chan (dispatcher_of p) m;
          entry = (if isl (snd (send chan (svc_queues (pg_services p)) m)) then Refused m else Accepted m)
      in Some (Inr (traced (entry # map (Called \<circ> ToClient) calls) (with_dispatcher p d))))"
| "program_step rt utf8 cfg p (PWork i inp) =
     (if i < length (pg_workers p) \<and> \<not> pg_pool_down p then
        let (topic, task) = pg_workers p ! i
        in map_option (\<lambda>r. res_bind r (\<lambda>(s, task', es).
               Inr (traced es (p\<lparr>pg_services := s, pg_workers := (pg_workers p)[i := (topic, task')]\<rparr>))))
             (work_step rt utf8 i topic (pg_token p) (pg_services p) task inp)
      else None)"
| "program_step rt utf8 cfg p (PCommit broker ks now inp) =
     (if pg_committing p then
        let (go, st, calls) = committer_round broker cfg (pg_coordinator p) ks (svc_offsets (pg_services p))
                                (pg_committer p) now inp
        in Some (Inr (traced (map (Called \<circ> ToConsumer) calls) (p\<lparr>pg_committer := st, pg_committing := go\<rparr>)))
      else None)"
| "program_step rt utf8 cfg p (PRebalance store_ok r) =
     (let t = svc_offsets (pg_services p);
          (ctx, calls) = pre_rebalance store_ok t (pg_context p) r
      in Some (Inr (traced (map (Called \<circ> ToRebalance) (calls @ post_rebalance t ctx r)) (p\<lparr>pg_context := ctx\<rparr>))))"
| "program_step rt utf8 cfg p (PStop r) =
     (if r \<noteq> PythonStop \<and> phase (pg_coordinator p) \<noteq> Running then None
      else Some (res_bind (request_stop (pg_coordinator p) r) (\<lambda>c.
          Inr (p\<lparr>pg_coordinator := c, pg_token := pg_token p \<or> cancels_pool r\<rparr>))))"
| "program_step rt utf8 cfg p (PShutdown e ks) =
     (if pg_token p \<and> \<not> pg_pool_down p then
        Some (res_bind (pool_shutdown e rt ks (pg_services p) (pg_coordinator p)) (\<lambda>(s, c, calls).
          Inr (traced (map (Called \<circ> ToConsumer) calls) (p\<lparr>pg_services := s, pg_coordinator := c, pg_pool_down := True\<rparr>))))
      else None)"
| "program_step rt utf8 cfg p (PLetter broker) =
     (case dlq_queue (svc_dlq (pg_services p)) of
        [] \<Rightarrow> None
      | msg # _ \<Rightarrow> Some (Inr (traced [Called (ToProducer msg (do_produce broker msg))]
          (p\<lparr>pg_services := (pg_services p)\<lparr>svc_dlq := take_letter (svc_dlq (pg_services p))\<rparr>\<rparr>))))"

text \<open>
  The shutdown of the pool aborts its workers where they stand: they take no further step, and what they hold
  is lost. The signal handler runs once. Messages that the client has already handed over may reach the
  dispatcher after a stop request.
\<close>

section \<open>What the trace tells\<close>

fun accepted_in :: "trace_entry \<Rightarrow> OwnedMessage list" where
  "accepted_in (Accepted m) = [m]"
| "accepted_in _ = []"

fun finished_in :: "trace_entry \<Rightarrow> OwnedMessage list" where
  "finished_in (Succeeded m) = [m]"
| "finished_in (DeadLettered m) = [m]"
| "finished_in (Discarded m) = [m]"
| "finished_in (Cut m) = [m]"
| "finished_in _ = []"

fun settled_in :: "trace_entry \<Rightarrow> OwnedMessage list" where
  \<comment> \<open>finished with an acknowledgement to the queue\<close>
  "settled_in (Cut m) = []"
| "settled_in e = finished_in e"

fun succeeded_in :: "trace_entry \<Rightarrow> OwnedMessage list" where
  "succeeded_in (Succeeded m) = [m]"
| "succeeded_in _ = []"

definition at_place :: "TopicPartitionKey \<Rightarrow> OwnedMessage \<Rightarrow> bool" where
  "at_place k m \<longleftrightarrow> (msg_topic m, msg_partition m) = k"

definition told :: "(trace_entry \<Rightarrow> OwnedMessage list) \<Rightarrow> trace_entry list \<Rightarrow> OwnedMessage list" where
  "told f tr = concat (map f tr)"

lemma told_simps [simp]:
  "told f [] = []"
  "told f (e # es) = f e @ told f es"
  "told f (es @ es') = told f es @ told f es'"
  by (simp_all add: told_def)

lemma told_calls [simp]:
  "told accepted_in (map (Called \<circ> g) cs) = []" "told finished_in (map (Called \<circ> g) cs) = []"
  "told succeeded_in (map (Called \<circ> g) cs) = []" "told settled_in (map (Called \<circ> g) cs) = []"
  by (induction cs) simp_all

lemma told_batch [simp]:
  "told finished_in (batch_fates answer ms) = ms" "told accepted_in (batch_fates answer ms) = []"
  "told succeeded_in (batch_fates answer ms) = (if answer = PyReturned then ms else [])"
  "told settled_in (batch_fates answer ms) = ms"
  by (induction ms) (simp_all add: batch_fates_def)

lemma told_fate [simp]:
  "accepted_in (fate_of m a) = []" "finished_in (fate_of m a) = [m]"
  "\<forall>d. a \<noteq> Some (RetryAction d) \<Longrightarrow> settled_in (fate_of m a) = [m]"
  by (cases "(m, a)" rule: fate_of.cases; simp)+

section \<open>What a step does to the queues\<close>

lemma receive_queue:
  assumes "receive q topic = Some (m, q')"
  shows "buffered_at q topic = m # buffered_at q' topic" and "t \<noteq> topic \<Longrightarrow> q' t = q t"
    and "buffered_at q t = (if t = topic then m # buffered_at q' t else buffered_at q' t)"
    and "\<exists>h. q topic = Some h \<and> q' topic = Some (h\<lparr>buffered := tl (buffered h)\<rparr>)"
  using assms by (auto simp: receive_def buffered_at_def split: option.splits list.splits)

lemma dispatch_queue:
  "queue_manager (fst (dispatch_message c chan d m)) = fst (send chan (queue_manager d) m)"
proof -
  obtain q r where qr: "send chan (queue_manager d) m = (q, r)" by (cases "send chan (queue_manager d) m")
  have cr: "queue_manager (fst (check_resume c d' t n)) = queue_manager d'" for d' t n
    by (auto simp: check_resume_def split: option.splits)
  have pp: "queue_manager (populate_partitions c d') = queue_manager d'" for d'
    by (auto simp: populate_partitions_def split: option.splits)
  have hb: "queue_manager (fst (handle_backpressure c d' t)) = queue_manager d'" for d' t
    by (auto simp: handle_backpressure_def Let_def pp split: prod.splits)
  show ?thesis
    by (auto simp: dispatch_message_def send_with_signal_agrees qr cr hb Let_def split: sum.splits DispatchError.splits)
qed

lemma result_queues:
  assumes "handle_execution_result e rt ctx m result s = Inr (s', action)"
  shows "if \<exists>d. action = Some (RetryAction d) then svc_queues s' = svc_queues s
         else svc_queues s' = QueueManager_ack (svc_queues s) (msg_topic m) 1"
    and "action = None \<longleftrightarrow> result = ExOk" and "action \<noteq> Some AckAction"
    and "default_policy (svc_retry s') = default_policy (svc_retry s)"
proof -
  have "(if \<exists>d. action = Some (RetryAction d) then svc_queues s' = svc_queues s
         else svc_queues s' = QueueManager_ack (svc_queues s) (msg_topic m) 1)
     \<and> (action = None \<longleftrightarrow> result = ExOk) \<and> action \<noteq> Some AckAction
     \<and> default_policy (svc_retry s') = default_policy (svc_retry s)"
  proof (cases "result = ExOk")
    case True
    with assms show ?thesis by (auto simp: Let_def record_success_def)
  next
    case False
    then obtain reason name where r: "failure_of result = Inr reason"
      "handle_execution_result e rt ctx m result s = fail_with e rt ctx m result reason name s"
      by (rule failing_result)
    from r(2) assms have "fail_with e rt ctx m result reason name s = Inr (s', action)" by simp
    then show ?thesis
      by (rule fail_with_cases [OF r(1)]) (use False record_failure_decision(5) in \<open>auto split: if_splits\<close>)
  qed
  then show "if \<exists>d. action = Some (RetryAction d) then svc_queues s' = svc_queues s
         else svc_queues s' = QueueManager_ack (svc_queues s) (msg_topic m) 1"
    and "action = None \<longleftrightarrow> result = ExOk" and "action \<noteq> Some AckAction"
    and "default_policy (svc_retry s') = default_policy (svc_retry s)" by blast+
qed

lemma repeated_ack_Suc: "repeated_ack (Suc n) q topic = repeated_ack n (QueueManager_ack q topic 1) topic"
  unfolding repeated_ack_def using funpow_swap1 [of "\<lambda>q. QueueManager_ack q topic 1" n q] by simp

lemma buffered_at_repeated_ack [simp]: "buffered_at (repeated_ack n q topic) t = buffered_at q t"
  by (induction n arbitrary: q) (simp_all add: repeated_ack_Suc, simp add: repeated_ack_def)

lemma batch_fold_queues:
  assumes "\<And>s x s1. f s x = Inr s1 \<Longrightarrow> svc_queues s1 = QueueManager_ack (svc_queues s) topic 1
      \<and> default_policy (svc_retry s1) = default_policy (svc_retry s)"
  shows "res_foldl f s xs = Inr s' \<Longrightarrow> svc_queues s' = repeated_ack (length xs) (svc_queues s) topic
      \<and> default_policy (svc_retry s') = default_policy (svc_retry s)"
proof (induction xs arbitrary: s)
  case Nil
  then show ?case by (simp add: repeated_ack_def)
next
  case (Cons x xs)
  then obtain s1 where "f s x = Inr s1" "res_foldl f s1 xs = Inr s'" by auto
  with assms Cons.IH [of s1] show ?case by (simp add: repeated_ack_Suc)
qed

lemma batch_queues:
  assumes "flush_partition_batch e rt (\<lambda>ctx batch. batch_result_of batch answer) i part ms s = Inr s'" "ms \<noteq> []"
  shows "svc_queues s' = repeated_ack (length ms) (svc_queues s) (msg_topic (hd ms))
     \<and> default_policy (svc_retry s') = default_policy (svc_retry s)"
proof -
  let ?t = "msg_topic (hd ms)"
  have ok: "svc_queues s1 = QueueManager_ack (svc_queues s) ?t 1 \<and> default_policy (svc_retry s1) = default_policy (svc_retry s)"
    if "batch_ack_one ?t part s x = Inr s1" for s x s1
    using that by (auto simp: batch_ack_one_def record_success_def Let_def)
  have bad: "svc_queues s1 = QueueManager_ack (svc_queues s) ?t 1 \<and> default_policy (svc_retry s1) = default_policy (svc_retry s)"
    if "batch_fail_one e rt ?t part reason s x = Inr s1" for s x s1 reason
    using that record_failure_decision(5) by (fastforce simp: batch_fail_one_def Let_def split: if_splits)
  have "handle_batch_result_inline e rt (batch_result_of ms answer) ms ?t part s = Inr s'"
    using assms by (auto simp: flush_partition_batch_def Let_def split: list.splits)
  then show ?thesis
    using batch_fold_queues [where f = "batch_ack_one ?t part" and xs = "map msg_offset ms", OF ok]
      batch_fold_queues [where f = "batch_fail_one e rt ?t part reason" and xs = ms for reason, OF bad]
    by (cases answer) auto
qed

section \<open>Accumulators between steps\<close>

definition acc_live :: "BatchAccumulator \<Rightarrow> bool" where
  \<comment> \<open>finitely many buffers, and each that holds messages has a deadline\<close>
  "acc_live a \<longleftrightarrow> finite (dom (partition_accumulators a))
     \<and> (\<forall>part b. partition_accumulators a part = Some b \<longrightarrow> buf_messages b \<noteq> [] \<longrightarrow> deadline b \<noteq> None)"

lemma flush_buffer_live: "flush_buffer a part = (r, a') \<Longrightarrow> acc_live a \<Longrightarrow> acc_live a'"
  by (auto simp: flush_buffer_def acc_live_def take_messages_def split: option.splits if_splits)

lemma flush_all_live: "flush_all ks a = (bs, a') \<Longrightarrow> acc_live a \<Longrightarrow> acc_live a'"
proof (induction ks arbitrary: a bs)
  case (Cons part ks)
  obtain r a1 where "flush_buffer a part = (r, a1)" by (metis surj_pair)
  with Cons flush_buffer_live [OF this] show ?case by (auto split: option.splits prod.splits)
qed simp

lemma flush_full_live: "flush_full a part = (bs, a') \<Longrightarrow> acc_live a \<Longrightarrow> acc_live a'"
  by (auto simp: flush_full_def split: if_splits option.splits prod.splits dest: flush_buffer_live)

lemma add_live: "acc_live a \<Longrightarrow> acc_live (BatchAccumulator_add a m now)"
  by (auto simp: acc_live_def BatchAccumulator_add_def PerPartitionBuffer_add_def start_timer_def
      PerPartitionBuffer_new_def Let_def split: option.splits if_splits) force

lemma on_message_live: "on_message ks now cap l m = (l', bs) \<Longrightarrow> acc_live (bl_acc l) \<Longrightarrow> acc_live (bl_acc l')"
  by (auto simp: on_message_def Let_def simp del: flush_all.simps split: if_splits prod.splits
      dest!: flush_all_live flush_full_live intro!: add_live)

lemma acc_live_new: "acc_live (BatchAccumulator_new n w)" "acc_ok (BatchAccumulator_new n w)"
  by (simp_all add: acc_live_def BatchAccumulator_new_def acc_ok_def buffer_at_def)

lemma flushed_batch: "(part, ms) \<in> set bs \<Longrightarrow> set ms \<subseteq> set (flushed part bs)"
  by (induction bs) auto

section \<open>Well-formed tasks\<close>

fun loop_wf :: "task \<Rightarrow> bool" where
  "loop_wf (Gathering l bs) \<longleftrightarrow> acc_ok (bl_acc l) \<and> acc_live (bl_acc l) \<and> list_all (\<lambda>b. snd b \<noteq> []) bs
     \<and> (\<not> bl_running l \<longrightarrow> bs \<noteq> [] \<and> (\<forall>part. buffer_at (bl_acc l) part = []))"
| "loop_wf _ \<longleftrightarrow> True"

definition task_wf :: "string \<Rightarrow> task \<Rightarrow> bool" where
  "task_wf topic task \<longleftrightarrow> loop_wf task \<and> (\<forall>part. list_all (at_place (topic, part)) (hand task part))"

definition queues_sorted :: "QueueManager \<Rightarrow> bool" where
  \<comment> \<open>a queue holds messages of its topic\<close>
  "queues_sorted q \<longleftrightarrow> (\<forall>topic. list_all (\<lambda>m. msg_topic m = topic) (buffered_at q topic))"

definition program_wf :: "program \<Rightarrow> bool" where
  "program_wf p \<longleftrightarrow> distinct (map fst (pg_workers p)) \<and> queues_sorted (svc_queues (pg_services p))
     \<and> list_all (\<lambda>(topic, task). task_wf topic task) (pg_workers p)"

definition on_partition :: "i32 \<Rightarrow> OwnedMessage list \<Rightarrow> OwnedMessage list" where
  "on_partition part = filter (\<lambda>m. msg_partition m = part)"

lemma on_partition_simps [simp]:
  "on_partition part [] = []"
  "on_partition part (m # ms) = (if msg_partition m = part then [m] else []) @ on_partition part ms"
  "on_partition part (xs @ ys) = on_partition part xs @ on_partition part ys"
  by (simp_all add: on_partition_def)

lemma loop_wf_gather:
  assumes "acc_ok (bl_acc l)" "acc_live (bl_acc l)" "list_all (batch_ok n) bs"
    "bl_running l \<or> (\<forall>part. buffer_at (bl_acc l) part = [])"
  shows "loop_wf (gather l bs)" and "hand (gather l bs) part = flushed part bs @ buffer_at (bl_acc l) part"
  using assms by (auto simp: gather_def batch_ok_def list_all_iff)

text \<open>
  One step of a worker, seen from one partition of its topic: what it finishes, then holds, then leaves in its
  queue is what it held and had waiting before, in the same order. Other queues stay as they are.
\<close>

definition keeps_order :: "string \<Rightarrow> services \<Rightarrow> task \<Rightarrow> services \<Rightarrow> task \<Rightarrow> trace_entry list \<Rightarrow> bool" where
  "keeps_order topic s task s' task' es \<longleftrightarrow>
     (\<forall>part. on_partition part (told finished_in es) @ hand task' part @ on_partition part (buffered_at (svc_queues s') topic)
        = hand task part @ on_partition part (buffered_at (svc_queues s) topic))
     \<and> (\<forall>t. t \<noteq> topic \<longrightarrow> buffered_at (svc_queues s') t = buffered_at (svc_queues s) t)
     \<and> told accepted_in es = [] \<and> list_all (\<lambda>m. msg_topic m = topic) (told finished_in es)"

lemma take_order:
  assumes "receive (svc_queues s) topic = Some (m, q)"
    "\<And>part. hand task' part = hand task part @ (if msg_partition m = part then [m] else [])"
  shows "keeps_order topic s task (s\<lparr>svc_queues := q\<rparr>) task' []"
  by (simp add: keeps_order_def assms(2) receive_queue(3) [OF assms(1)])

lemma result_order:
  assumes "task_wf topic (Invoking m)" "handle_execution_result e rt ctx m result s = Inr (s1, action)"
    "after_result cancelled m s1 action = (s', task', es)"
  shows "keeps_order topic s (Invoking m) s' task' es \<and> loop_wf task'"
proof -
  have topic: "msg_topic m = topic" using assms(1) by (auto simp: task_wf_def at_place_def split: if_splits)
  have q: "buffered_at (svc_queues s1) t = buffered_at (svc_queues s) t" for t
    using result_queues(1) [OF assms(2)] by (auto split: if_splits)
  show ?thesis
  proof (cases "\<exists>d. action = Some (RetryAction d)")
    case True
    then show ?thesis using assms(3) q by (auto simp: after_result_def keeps_order_def)
  next
    case False
    then have "s' = s1 \<and> task' = (if cancelled then Ended else Polling) \<and> es = [fate_of m action]"
      using assms(3) by (auto simp: after_result_def split: option.splits ExecutionAction.splits)
    with q topic show ?thesis by (auto simp: keeps_order_def)
  qed
qed

lemma on_partition_batch:
  "list_all (\<lambda>m. msg_partition m = p) ms \<Longrightarrow> on_partition part ms = (if p = part then ms else [])"
  by (induction ms) (auto simp: on_partition_def)

lemma flush_order:
  assumes "task_wf topic (Gathering l ((part, ms) # bs))"
    "flush_partition_batch e rt (\<lambda>ctx batch. batch_result_of batch answer) i part ms s = Inr s'"
  shows "keeps_order topic s (Gathering l ((part, ms) # bs)) s' (gather l bs) (batch_fates answer ms)
     \<and> loop_wf (gather l bs)"
proof -
  have ms: "ms \<noteq> []" "list_all (at_place (topic, part)) ms"
    using assms(1) unfolding task_wf_def by (auto dest: spec [where x = part])
  then have at: "list_all (\<lambda>m. msg_partition m = part) ms" "list_all (\<lambda>m. msg_topic m = topic) ms"
    by (auto simp: list_all_iff at_place_def)
  have q: "buffered_at (svc_queues s') t = buffered_at (svc_queues s) t" for t
    using batch_queues [OF assms(2) ms(1)] by simp
  have wf: "acc_ok (bl_acc l)" "acc_live (bl_acc l)" "list_all (\<lambda>b. snd b \<noteq> []) bs"
    "bl_running l \<or> (\<forall>part. buffer_at (bl_acc l) part = [])"
    using assms(1) by (auto simp: task_wf_def)
  have "hand (gather l bs) p = flushed p bs @ buffer_at (bl_acc l) p" for p
    using wf by (auto simp: gather_def)
  moreover have "loop_wf (gather l bs)" using wf by (auto simp: gather_def)
  ultimately show ?thesis using q at by (auto simp: keeps_order_def on_partition_batch)
qed

lemma gather_order:
  assumes "loop_wf (Gathering l [])" "batch_step l i = (l', bs)" "is_stop i \<or> i = BDeadline ks"
    "distinct (input_order i)" "set (input_order i) = dom (partition_accumulators (bl_acc l))"
  shows "hand (gather l' bs) part = hand (Gathering l []) part" and "loop_wf (gather l' bs)"
proof -
  let ?ks = "input_order i"
  have l: "acc_ok (bl_acc l)" "acc_live (bl_acc l)" "bl_running l" using assms(1) by auto
  obtain bs' a where fa: "flush_all ?ks (bl_acc l) = (bs', a)" by (metis surj_pair)
  note sp = flush_all_spec [OF fa assms(4)]
  have out: "l' = l \<and> bs = [] \<or> bl_acc l' = a \<and> bs = bs' \<and> (bl_running l' \<or> is_stop i)"
    using assms(2,3) fa l(3) by (cases i) (auto split: if_splits prod.splits)
  have empty: "is_stop i \<Longrightarrow> bl_acc l' = a \<Longrightarrow> buffer_at a part = []" for part
    using sp(2) [of part] sp(1) [of part] assms(5) by (cases "part \<in> set ?ks") (auto simp: buffer_at_def dom_def)
  have a: "acc_ok a" "acc_live a" "list_all (batch_ok (BatchAccumulator.max_batch_size (bl_acc l))) bs'"
    using sp(4) l flush_all_live [OF fa] by auto
  have "hand (gather l' bs) part = hand (Gathering l []) part \<and> loop_wf (gather l' bs)"
    using out
  proof
    assume "l' = l \<and> bs = []"
    with l show ?thesis by (simp add: gather_def)
  next
    assume o: "bl_acc l' = a \<and> bs = bs' \<and> (bl_running l' \<or> is_stop i)"
    then have "bl_running l' \<or> (\<forall>part. buffer_at (bl_acc l') part = [])" using empty by auto
    from loop_wf_gather [of l' "BatchAccumulator.max_batch_size (bl_acc l)" bs, OF _ _ _ this] o a sp(1) show ?thesis by auto
  qed
  then show "hand (gather l' bs) part = hand (Gathering l []) part" and "loop_wf (gather l' bs)" by auto
qed

fun_cases work_stepE: "work_step rt utf8 i topic cancelled s task inp = Some r"

lemma work_step_cases:
  assumes "work_step rt utf8 i topic cancelled s task inp = Some (Inr (s', task', es))"
  obtains
    (take) m q where "task = Polling" "inp = WTake" "receive (svc_queues s) topic = Some (m, q)"
      "s' = s\<lparr>svc_queues := q\<rparr>" "task' = Invoking m" "es = []"
  | (stop) "task = Polling" "inp = WCancelled" cancelled "s' = s" "task' = Ended" "es = []"
  | (result) m e r s1 action where "task = Invoking m" "inp = WResult e r"
      "handle_execution_result e rt (worker_context utf8 i m) m r s = Inr (s1, action)"
      "after_result cancelled m s1 action = (s', task', es)"
  | (wake) m d where "task = Backoff m d" "inp = WWake" "\<not> cancelled" "s' = s" "task' = Invoking m" "es = []"
  | (cut) m d where "task = Backoff m d" "inp = WCancelled" cancelled "s' = s" "task' = Ended" "es = [Cut m]"
  | (message) l ks now m q l' bs where "task = Gathering l []" "inp = WMessage ks now"
      "iterates ks (partition_accumulators (bl_acc l))" "receive (svc_queues s) topic = Some (m, q)"
      "on_message ks now (at_capacity q (msg_topic m)) l m = (l', bs)"
      "s' = s\<lparr>svc_queues := q\<rparr>" "task' = gather l' bs" "es = []"
  | (deadline) l ks now l' bs where "task = Gathering l []" "inp = WDeadline ks now"
      "iterates ks (partition_accumulators (bl_acc l))" "\<not> BatchAccumulator_is_empty ks (bl_acc l)"
      "batch_step l (BDeadline ks) = (l', bs)" "s' = s" "task' = gather l' bs" "es = []"
  | (drain) l ks l' bs where "task = Gathering l []" "inp = WDrain ks" cancelled
      "iterates ks (partition_accumulators (bl_acc l))"
      "batch_step l (BShutdown ks) = (l', bs)" "s' = s" "task' = gather l' bs" "es = []"
  | (flush) l part ms bs e answer where "task = Gathering l ((part, ms) # bs)" "inp = WFlush e answer"
      "flush_partition_batch e rt (\<lambda>ctx batch. batch_result_of batch answer) i part ms s = Inr s'"
      "task' = gather l bs" "es = batch_fates answer ms"
proof (rule work_stepE [OF assms], goal_cases)
  case (3 m e r)
  from 3(10,11) 3(12) [symmetric] show ?thesis by (auto intro: result simp del: handle_execution_result.simps)
next
  case (6 l ks now)
  then show ?thesis by (auto split: if_splits option.splits prod.splits intro: message)
next
  case (7 l ks now)
  then show ?thesis by (auto simp del: batch_step.simps split: if_splits option.splits prod.splits intro: deadline)
next
  case (8 l ks)
  then show ?thesis by (auto simp del: batch_step.simps split: if_splits prod.splits intro: drain)
next
  case (9 l part ms bs e answer)
  from 9(10,11) 9(12) [symmetric] show ?thesis by (auto intro: flush)
qed (auto split: if_splits option.splits prod.splits intro: that)

lemma keeps_order_wf:
  assumes "keeps_order topic s task s' task' es" "task_wf topic task" "queues_sorted (svc_queues s)" "loop_wf task'"
  shows "task_wf topic task' \<and> queues_sorted (svc_queues s')"
proof -
  have all: "list_all (at_place (topic, part)) (hand task' part)"
    "list_all (at_place (topic, part)) (on_partition part (buffered_at (svc_queues s') topic))" for part
  proof -
    have "list_all (at_place (topic, part)) (hand task part @ on_partition part (buffered_at (svc_queues s) topic))"
      using assms(2,3) by (auto simp: task_wf_def queues_sorted_def list_all_iff on_partition_def at_place_def)
    moreover have "on_partition part (told finished_in es) @ hand task' part @ on_partition part (buffered_at (svc_queues s') topic)
        = hand task part @ on_partition part (buffered_at (svc_queues s) topic)"
      using assms(1) by (simp add: keeps_order_def)
    ultimately show "list_all (at_place (topic, part)) (hand task' part)"
      "list_all (at_place (topic, part)) (on_partition part (buffered_at (svc_queues s') topic))" by (metis list_all_append)+
  qed
  have "list_all (\<lambda>m. msg_topic m = t) (buffered_at (svc_queues s') t)" for t
  proof (cases "t = topic")
    case True
    have "msg_topic m = topic" if "m \<in> set (buffered_at (svc_queues s') topic)" for m
      using all(2) [of "msg_partition m"] that by (auto simp: list_all_iff on_partition_def at_place_def)
    with True show ?thesis by (simp add: list_all_iff)
  next
    case False
    with assms(1,3) show ?thesis by (simp add: keeps_order_def queues_sorted_def)
  qed
  with all(1) assms(4) show ?thesis by (simp add: task_wf_def queues_sorted_def)
qed

lemma work_step_order:
  assumes "work_step rt utf8 i topic cancelled s task inp = Some (Inr (s', task', es))" "task_wf topic task"
    "queues_sorted (svc_queues s)"
  shows "keeps_order topic s task s' task' es \<and> task_wf topic task' \<and> queues_sorted (svc_queues s')"
proof -
  have "keeps_order topic s task s' task' es \<and> loop_wf task'"
    using assms(1)
  proof (cases rule: work_step_cases)
    case (take m q)
    then show ?thesis by (auto intro: take_order)
  next
    case (result m e r s1 action)
    with result_order [of topic m] assms(2) show ?thesis by blast
  next
    case (message l ks now m q l' bs)
    have l: "acc_ok (bl_acc l)" "acc_live (bl_acc l)" "bl_running l" "distinct ks"
      using assms(2) message by (auto simp: task_wf_def iterates_def)
    note sp = on_message_spec [OF message(5) l(4,1)]
    have "loop_wf (gather l' bs)" "hand (gather l' bs) part = flushed part bs @ buffer_at (bl_acc l') part" for part
      using loop_wf_gather [of l' _ bs] sp(2) on_message_live [OF message(5) l(2)] l(3) by auto
    with sp(1) message show ?thesis by (auto intro!: take_order)
  next
    case (deadline l ks now l' bs)
    with gather_order [OF _ deadline(5)] assms(2) show ?thesis
      by (auto simp: task_wf_def keeps_order_def iterates_def simp del: loop_wf.simps hand.simps)
  next
    case (drain l ks l' bs)
    with gather_order [OF _ drain(5)] assms(2) show ?thesis
      by (auto simp: task_wf_def keeps_order_def iterates_def simp del: loop_wf.simps hand.simps)
  next
    case (flush l part ms bs e answer)
    with flush_order assms(2) show ?thesis by blast
  qed (use assms(2) in \<open>auto simp: keeps_order_def task_wf_def at_place_def split: if_splits\<close>)
  with keeps_order_wf [OF _ assms(2,3)] show ?thesis by blast
qed

section \<open>The order of a partition\<close>

definition of_topic :: "string \<Rightarrow> (task \<Rightarrow> 'a list) \<Rightarrow> (string \<times> task) list \<Rightarrow> 'a list" where
  "of_topic topic f ws = concat (map (f \<circ> snd) (filter (\<lambda>w. fst w = topic) ws))"

definition held :: "program \<Rightarrow> TopicPartitionKey \<Rightarrow> OwnedMessage list" where
  \<comment> \<open>what workers have taken and not finished\<close>
  "held p k = of_topic (fst k) (\<lambda>task. hand task (snd k)) (pg_workers p)"

definition waiting :: "program \<Rightarrow> TopicPartitionKey \<Rightarrow> OwnedMessage list" where
  "waiting p k = on_partition (snd k) (buffered_at (svc_queues (pg_services p)) (fst k))"

definition accepted_of :: "program \<Rightarrow> TopicPartitionKey \<Rightarrow> OwnedMessage list" where
  "accepted_of p k = filter (at_place k) (told accepted_in (pg_trace p))"

definition finished_of :: "program \<Rightarrow> TopicPartitionKey \<Rightarrow> OwnedMessage list" where
  "finished_of p k = filter (at_place k) (told finished_in (pg_trace p))"

definition ordered :: "program \<Rightarrow> bool" where
  "ordered p \<longleftrightarrow> program_wf p \<and> (\<forall>k. accepted_of p k = finished_of p k @ held p k @ waiting p k)"

lemmas order_defs = accepted_of_def finished_of_def held_def waiting_def

lemma traced_simps [simp]:
  "pg_services (traced es p) = pg_services p" "pg_workers (traced es p) = pg_workers p" "pg_token (traced es p) = pg_token p"
  "pg_trace (traced es p) = pg_trace p @ es" "pg_pool_down (traced es p) = pg_pool_down p"
  "pg_committer (traced es p) = pg_committer p" "pg_coordinator (traced es p) = pg_coordinator p"
  by (simp_all add: traced_def)

lemma with_dispatcher_simps [simp]:
  "pg_services (with_dispatcher p d) = (pg_services p)\<lparr>svc_queues := queue_manager d\<rparr>"
  "pg_workers (with_dispatcher p d) = pg_workers p" "pg_trace (with_dispatcher p d) = pg_trace p"
  "pg_token (with_dispatcher p d) = pg_token p" "pg_pool_down (with_dispatcher p d) = pg_pool_down p"
  "pg_committer (with_dispatcher p d) = pg_committer p"
  "queue_manager (dispatcher_of p) = svc_queues (pg_services p)"
  by (simp_all add: with_dispatcher_def dispatcher_of_def)

text \<open>A step dispatches a message, is a step of one worker, or touches neither queues nor workers.\<close>

lemma program_step_cases:
  assumes "program_step rt utf8 cfg p ev = Some (Inr p')"
  obtains
    (dispatch) c chan m d calls where "ev = PDispatch c chan m"
      "queue_manager d = fst (send chan (svc_queues (pg_services p)) m)"
      "p' = traced ((if isl (snd (send chan (svc_queues (pg_services p)) m)) then Refused m else Accepted m)
         # map (Called \<circ> ToClient) calls) (with_dispatcher p d)"
  | (work) i inp topic task s task' es where "ev = PWork i inp" "i < length (pg_workers p)" "\<not> pg_pool_down p"
      "pg_workers p ! i = (topic, task)"
      "work_step rt utf8 i topic (pg_token p) (pg_services p) task inp = Some (Inr (s, task', es))"
      "p' = traced es (p\<lparr>pg_services := s, pg_workers := (pg_workers p)[i := (topic, task')]\<rparr>)"
  | (quiet) calls where "pg_trace p' = pg_trace p @ map Called calls" "pg_workers p' = pg_workers p"
      "svc_queues (pg_services p') = svc_queues (pg_services p)" "svc_offsets (pg_services p') = svc_offsets (pg_services p)"
      "svc_retry (pg_services p') = svc_retry (pg_services p)" "pg_token p \<longrightarrow> pg_token p'"
      "\<forall>i inp. ev \<noteq> PWork i inp"
proof (cases ev)
  case (PDispatch c chan m)
  obtain d calls where d: "dispatch_message c chan (dispatcher_of p) m = (d, calls)" by (metis surj_pair)
  have "queue_manager d = fst (send chan (svc_queues (pg_services p)) m)"
    using dispatch_queue [of c chan "dispatcher_of p" m] d by simp
  with assms PDispatch d show ?thesis by (intro dispatch) (auto simp: Let_def)
next
  case (PWork i inp)
  obtain topic task where "pg_workers p ! i = (topic, task)" by (metis surj_pair)
  with assms PWork show ?thesis by (auto split: if_splits intro: work)
next
  case (PCommit broker ks now inp)
  with assms show ?thesis by (intro quiet [of "map ToConsumer (snd (snd (committer_round broker cfg (pg_coordinator p) ks
      (svc_offsets (pg_services p)) (pg_committer p) now inp)))"]) (auto split: if_splits prod.splits)
next
  case (PRebalance store_ok r)
  obtain ctx calls where "pre_rebalance store_ok (svc_offsets (pg_services p)) (pg_context p) r = (ctx, calls)"
    by (metis surj_pair)
  with assms PRebalance show ?thesis
    by (intro quiet [of "map ToRebalance (calls @ post_rebalance (svc_offsets (pg_services p)) ctx r)"])
      (auto simp: Let_def)
next
  case (PStop r)
  with assms show ?thesis by (intro quiet [of "[]"]) (auto split: if_splits)
next
  case (PShutdown e ks)
  with assms show ?thesis by (intro quiet [of "map ToConsumer (graceful_shutdown ks (svc_offsets (pg_services p)))"])
      (auto simp: pool_shutdown_phases split: if_splits)
next
  case (PLetter broker)
  with assms show ?thesis
    by (intro quiet [of "[ToProducer (hd (dlq_queue (svc_dlq (pg_services p)))) (do_produce broker (hd (dlq_queue (svc_dlq (pg_services p)))))]"])
      (auto split: list.splits)
qed

lemma told_called [simp]:
  "told accepted_in (map Called cs) = []" "told finished_in (map Called cs) = []"
  "told settled_in (map Called cs) = []" "told succeeded_in (map Called cs) = []"
  by (induction cs) simp_all

lemma filter_own_topic:
  "list_all (\<lambda>m. msg_topic m = topic) ms \<Longrightarrow>
     filter (at_place (t, part)) ms = (if t = topic then on_partition part ms else [])"
  by (induction ms) (auto simp: at_place_def on_partition_def)

lemma of_topic_worker:
  assumes "distinct (map fst ws)" "i < length ws" "ws ! i = (topic, task)"
  shows "of_topic t f (ws[i := (topic, task')]) = (if t = topic then f task' else of_topic t f ws)"
    and "of_topic topic f ws = f task"
proof -
  have split: "ws = take i ws @ (topic, task) # drop (Suc i) ws"
    using id_take_nth_drop [OF assms(2)] assms(3) by simp
  have upd: "ws[i := (topic, task')] = take i ws @ (topic, task') # drop (Suc i) ws"
    using assms(2) by (rule upd_conv_take_nth_drop)
  have "topic \<notin> fst ` set (take i ws)" "topic \<notin> fst ` set (drop (Suc i) ws)"
    using assms(1) by (subst (asm) (1) split, simp)+
  then have out: "filter (\<lambda>w. fst w = topic) (take i ws) = []" "filter (\<lambda>w. fst w = topic) (drop (Suc i) ws) = []"
    by (auto simp: filter_empty_conv)
  show "of_topic topic f ws = f task"
    by (subst split) (simp add: of_topic_def out)
  show "of_topic t f (ws[i := (topic, task')]) = (if t = topic then f task' else of_topic t f ws)"
  proof (cases "t = topic")
    case True
    then show ?thesis by (simp add: of_topic_def upd out)
  next
    case False
    then show ?thesis by (subst (2) split) (simp add: of_topic_def upd)
  qed
qed

lemma work_ordered:
  assumes "ordered p" "i < length (pg_workers p)" "pg_workers p ! i = (topic, task)"
    "work_step rt utf8 i topic (pg_token p) (pg_services p) task inp = Some (Inr (s, task', es))"
  shows "ordered (traced es (p\<lparr>pg_services := s, pg_workers := (pg_workers p)[i := (topic, task')]\<rparr>))"
proof -
  let ?p = "traced es (p\<lparr>pg_services := s, pg_workers := (pg_workers p)[i := (topic, task')]\<rparr>)"
  have wf: "distinct (map fst (pg_workers p))" "queues_sorted (svc_queues (pg_services p))"
    "\<And>topic task. (topic, task) \<in> set (pg_workers p) \<Longrightarrow> task_wf topic task"
    using assms(1) by (auto simp: ordered_def program_wf_def list_all_iff)
  have "task_wf topic task" using wf(3) assms(2,3) by (metis nth_mem)
  from work_step_order [OF assms(4) this wf(2)] have st: "keeps_order topic (pg_services p) task s task' es"
    "task_wf topic task'" "queues_sorted (svc_queues s)" by auto
  then have es: "told accepted_in es = []" "list_all (\<lambda>m. msg_topic m = topic) (told finished_in es)"
    "\<And>part. on_partition part (told finished_in es) @ hand task' part @ on_partition part (buffered_at (svc_queues s) topic)
        = hand task part @ on_partition part (buffered_at (svc_queues (pg_services p)) topic)"
    "\<And>t. t \<noteq> topic \<Longrightarrow> buffered_at (svc_queues s) t = buffered_at (svc_queues (pg_services p)) t"
    by (auto simp: keeps_order_def)
  note held = of_topic_worker [OF wf(1) assms(2,3)]
  have "accepted_of ?p (t, part) = finished_of ?p (t, part) @ held ?p (t, part) @ waiting ?p (t, part)" for t part
  proof -
    have "accepted_of p (t, part) = finished_of p (t, part) @ held p (t, part) @ waiting p (t, part)"
      using assms(1) by (simp add: ordered_def)
    then show ?thesis using es(1,4) es(3) [of part] held(2) [of "\<lambda>task. hand task part"]
      by (cases "t = topic") (simp_all add: order_defs held(1) filter_own_topic [OF es(2)])
  qed
  moreover have "list_all (\<lambda>(topic, task). task_wf topic task) ((pg_workers p)[i := (topic, task')])"
    using wf(3) st(2) by (auto simp: list_all_iff dest!: set_update_subset_insert [THEN subsetD])
  moreover have "map fst ((pg_workers p)[i := (topic, task')]) = map fst (pg_workers p)"
    using assms(2,3) by (simp add: map_update list_update_same_conv)
  ultimately show ?thesis using wf(1) st(3) by (simp add: ordered_def program_wf_def)
qed

lemma program_step_ordered:
  assumes "ordered p" "program_step rt utf8 cfg p ev = Some (Inr p')"
  shows "ordered p'"
  using assms(2)
proof (cases rule: program_step_cases)
  case (dispatch c chan m d calls)
  let ?q = "svc_queues (pg_services p)"
  let ?ok = "\<not> isl (snd (send chan ?q m))"
  have old: "accepted_of p (t, part) = finished_of p (t, part) @ held p (t, part) @ waiting p (t, part)" for t part
    using assms(1) by (simp add: ordered_def)
  have "accepted_of p' (t, part) = finished_of p' (t, part) @ held p' (t, part) @ waiting p' (t, part)" for t part
    using old [of t part]
    by (cases ?ok; cases "msg_topic m = t"; cases "msg_partition m = part")
      (simp_all add: dispatch order_defs buffered_at_send at_place_def)
  moreover have "queues_sorted (fst (send chan ?q m))"
    using assms(1) by (auto simp: queues_sorted_def buffered_at_send ordered_def program_wf_def)
  ultimately show ?thesis using assms(1) by (simp add: dispatch ordered_def program_wf_def)
next
  case (work i inp topic task s task' es)
  from work_ordered [OF assms(1) work(2,4,5)] work(6) show ?thesis by simp
next
  case (quiet calls)
  then show ?thesis using assms(1) by (simp add: ordered_def program_wf_def order_defs)
qed

interpretation program_order: step_invariant "program_step rt utf8 cfg" ordered for rt utf8 cfg
  by unfold_locales (rule program_step_ordered)

section \<open>Programs that can be started\<close>

lemma spawn_workers_topics: "spawn_workers batch handlers asg = Inr ws \<Longrightarrow> map (\<lambda>(i, t, k). (i, t)) ws = asg"
  by (induction batch handlers asg arbitrary: ws rule: spawn_workers.induct) auto

lemma build_workers:
  assumes "RuntimeBuilder_build out ks config c g = Inr (Inr (rt, g'))"
  shows "map (fst \<circ> snd) (rt_workers rt) = take (n_workers config) ks"
proof -
  obtain d where d: "register_all (queue_capacity config) ks ConsumerDispatcher_new = Inr d"
    using register_fresh by blast
  from assms obtain handlers where "pool_new (n_workers config) ks ks handlers = Inr (rt_workers rt)"
    by (auto simp: RuntimeBuilder_build_def Let_def d split: sum.splits if_splits)
  then have "map (\<lambda>(i, t, k). (i, t)) (rt_workers rt) = take (n_workers config) (enumerate 0 ks)"
    unfolding pool_new_def pool_assign_def by (rule spawn_workers_topics)
  from arg_cong [OF this, of "map snd"] show ?thesis by (simp add: take_map [symmetric] comp_def case_prod_beta)
qed

lemma task_new_wf: "task_wf topic (task_new kind)" "hand (task_new kind) part = []"
  by (auto simp: task_new_def batch_worker_start_def batch_loop_new_def task_wf_def acc_live_new
      split: worker_kind.split option.split sum.split) (auto simp: BatchAccumulator_new_def buffer_at_def)

lemma program_new_ordered:
  assumes "RuntimeBuilder_build out ks config c g = Inr (Inr (rt, g'))" "distinct ks"
  shows "ordered (program_new rt)"
proof -
  have q: "buffered_at (svc_queues (pg_services (program_new rt))) topic = []" for topic
    using build_initial [OF assms(1)]
    by (simp add: program_new_def kafpy_new_def services_new_def buffered_at_def fresh_queues_def HandlerMetadata_new_def)
  have "map fst (pg_workers (program_new rt)) = take (n_workers config) ks"
    using build_workers [OF assms(1)] by (simp add: program_new_def comp_def case_prod_beta)
  then have "distinct (map fst (pg_workers (program_new rt)))" using assms(2) by simp
  moreover have "held (program_new rt) k = []" for k
    by (auto simp: held_def of_topic_def program_new_def task_new_wf)
  ultimately show ?thesis
    by (auto simp: ordered_def program_wf_def order_defs q queues_sorted_def list_all_iff task_new_wf)
      (auto simp: program_new_def task_new_wf)
qed

end
