(* ===== verification/ProgramSafety.thy ===== *)
theory ProgramSafety
  imports Program
begin

text \<open>
  What holds in every state of a running program: what becomes of messages, the counters that backpressure is
  decided on, and that no step panics. A sample program with a run serves the examples.
\<close>

section \<open>Fates\<close>

definition fates_ok :: "program \<Rightarrow> bool" where
  "fates_ok p \<longleftrightarrow> (\<forall>m. Discarded m \<notin> set (pg_trace p)) \<and> (\<forall>m. Cut m \<in> set (pg_trace p) \<longrightarrow> pg_token p)"

lemma work_fates:
  assumes "work_step rt utf8 i topic cancelled s task inp = Some (Inr (s', task', es))"
  shows "Discarded m \<notin> set es" and "Cut m \<in> set es \<Longrightarrow> cancelled"
proof -
  have "Discarded m \<notin> set es \<and> (Cut m \<in> set es \<longrightarrow> cancelled)"
    using assms
  proof (cases rule: work_step_cases)
    case (result m' e r s1 action)
    with result_queues(3) [OF result(3)] show ?thesis
      by (cases "(m', action)" rule: fate_of.cases) (auto simp: after_result_def)
  qed (auto simp: batch_fates_def)
  then show "Discarded m \<notin> set es" and "Cut m \<in> set es \<Longrightarrow> cancelled" by auto
qed

interpretation program_fates: step_invariant "program_step rt utf8 cfg" fates_ok for rt utf8 cfg
proof (unfold_locales, goal_cases)
  case (1 p ev p')
  from 1(2) show ?case
  proof (cases rule: program_step_cases)
    case (work i inp topic task s task' es)
    from work_fates [OF work(5)] 1(1) work(6) show ?thesis by (auto simp: fates_ok_def)
  qed (use 1(1) in \<open>auto simp: fates_ok_def\<close>)
qed

section \<open>A sample program\<close>

definition sample_program :: "RetryPolicy \<Rightarrow> ShutdownCoordinator \<Rightarrow> program" where
  "sample_program policy coord =
     \<lparr>pg_services = services_new policy (fresh_queues (queue_capacity sample_py_config) [''t'']), pg_handles = Map.empty,
      pg_paused = {}, pg_workers = [(''t'', Polling)], pg_context = CustomConsumerContext_new, pg_token = False,
      pg_coordinator = coord, pg_committer = CommitterState_new, pg_committing = True, pg_pool_down = False, pg_trace = []\<rparr>"

lemma sample_built:
  "\<exists>rt g. RuntimeBuilder_build calm_outside [''t''] sample_py_config one_consumer snapshot_globals_new = Inr (Inr (rt, g))
     \<and> rt_commit_config rt = CommitConfig_default \<and> rt_router rt = with_default_prefix
     \<and> program_new rt = sample_program (RetryPolicy_default (\<lambda>x. x)) (ShutdownCoordinator_new 30)
     \<and> cc_default_retry_policy (rt_config rt) = RetryPolicy_default (\<lambda>x. x)"
proof -
  obtain cfg where cfg: "runtime_config (\<lambda>x. x) sample_py_config = Inr cfg" "cc_dlq_topic_prefix cfg = ''dlq.''"
    "cc_default_retry_policy cfg = RetryPolicy_default (\<lambda>x. x)" "cc_drain_timeout_secs cfg = 30"
    by (simp add: runtime_config_def build_config_def cfg_defs ConsumerConfigBuilder_new_def sample_py_config_def
        consumer_settings.defs ConsumerConfig.defs)
  have reg: "register_all (queue_capacity sample_py_config) [''t''] ConsumerDispatcher_new
      = Inr \<lparr>queue_manager = fresh_queues (queue_capacity sample_py_config) [''t''], partition_handles = Map.empty, paused_topics = {}\<rparr>"
    using queue_capacity_pos [of sample_py_config]
    by (simp add: register_all_def ConsumerDispatcher_register_handler_def register_handler_with_semaphore_def
        ConsumerDispatcher_new_def Dispatcher_new_def fresh_queues_def fun_eq_iff)
  have pool: "pool_new (n_workers sample_py_config) [''t''] [''t''] (handler_map none policy ms one_consumer)
      = Inr [(0, ''t'', SingleWorker)]" for none policy ms
    by (simp add: pool_new_def pool_assign_def n_workers_def sample_py_config_def all_batch_def handler_map_def
        one_consumer_def add_handler_def PyConsumer_new_def PythonHandler_new_def from_opt_str_def)
  show ?thesis
    by (simp add: RuntimeBuilder_build_def calm_outside_def runner_create_def with_default_prefix_def Let_def cfg reg pool
        program_new_def sample_program_def task_new_def services_new_def)
qed

definition sample_program_events :: "program_event list" where
  "sample_program_events =
     [PDispatch sample_client live_channel (sample_message ''t'' 4), PWork 0 WTake, PWork 0 (WResult plain_env ExOk),
      PDispatch sample_client live_channel (sample_message ''t'' 5),
      PCommit (\<lambda>c. True) [(''t'', 0)] 50 (Signal ''t'' 0)]"

lemmas program_eval = sample_program_def sample_program_events_def commit_eval tracker_eval queue_eval services_new_def
  worker_context_def ExecutionContext_with_trace_def record_success_def RetryCoordinator_new_def after_result_def
  dispatch_message_def send_with_policy_and_signal_def check_resume_def get_capacity_def dispatcher_of_def with_dispatcher_def traced_def

lemma sample_program_run:
  "\<exists>p. run_of (program_step (route with_default_prefix) (\<lambda>b. []) CommitConfig_default)
       (sample_program policy (ShutdownCoordinator_new 30)) sample_program_events = Some p
     \<and> pg_trace p = [Accepted (sample_message ''t'' 4), Succeeded (sample_message ''t'' 4), Accepted (sample_message ''t'' 5),
         Called (ToConsumer (StoreOffset ''t'' 0 4)), Called (ToConsumer CommitState)]
     \<and> (\<exists>h. svc_queues (pg_services p) ''t'' = Some h)"
  by (simp add: program_eval fresh_queues_def queue_capacity_def sample_py_config_def cong: res_bind_weak_cong)

lemma sample_started:
  "\<exists>rt p. RuntimeBuilder_build calm_outside [''t''] sample_py_config one_consumer snapshot_globals_new
       = Inr (Inr (rt, RuntimeSnapshotTask_spawn snapshot_globals_new))
     \<and> runs (program_step (route (rt_router rt)) (\<lambda>b. []) (rt_commit_config rt)) (program_new rt) sample_program_events p
     \<and> pg_trace p = [Accepted (sample_message ''t'' 4), Succeeded (sample_message ''t'' 4), Accepted (sample_message ''t'' 5),
         Called (ToConsumer (StoreOffset ''t'' 0 4)), Called (ToConsumer CommitState)]
     \<and> (\<exists>h. svc_queues (pg_services p) ''t'' = Some h)
     \<and> cc_default_retry_policy (rt_config rt) = RetryPolicy_default (\<lambda>x. x)"
proof -
  obtain rt g where rt: "RuntimeBuilder_build calm_outside [''t''] sample_py_config one_consumer snapshot_globals_new = Inr (Inr (rt, g))"
    "rt_commit_config rt = CommitConfig_default" "rt_router rt = with_default_prefix"
    "program_new rt = sample_program (RetryPolicy_default (\<lambda>x. x)) (ShutdownCoordinator_new 30)"
    "cc_default_retry_policy (rt_config rt) = RetryPolicy_default (\<lambda>x. x)"
    using sample_built by blast
  with build_initial [OF rt(1)] sample_program_run [of "RetryPolicy_default (\<lambda>x. x)"] show ?thesis
    unfolding runs_run_of by metis
qed

section \<open>Counters\<close>

definition in_flight :: "program \<Rightarrow> string \<Rightarrow> nat" where
  \<comment> \<open>messages of a topic that were accepted and not settled\<close>
  "in_flight p topic = length (filter (\<lambda>m. msg_topic m = topic) (told accepted_in (pg_trace p)))
     - length (filter (\<lambda>m. msg_topic m = topic) (told settled_in (pg_trace p)))"

definition counted_at :: "QueueManager \<Rightarrow> string \<Rightarrow> nat \<Rightarrow> bool" where
  "counted_at q topic n \<longleftrightarrow> (\<forall>h. q topic = Some h \<longrightarrow> semaphore h = None \<and> inflight h = of_nat n \<and> queue_depth h = of_nat n)"

lemma saturating_of_nat:
  assumes "0 < n" "n < 2 ^ 64"
  shows "saturating_sub (of_nat n :: usize) 1 = of_nat (n - 1)"
proof -
  have "unat (saturating_sub (of_nat n :: usize) 1) = n - 1" using assms by (simp add: unat_saturating_sub unat_of_nat)
  moreover have "unat (of_nat (n - 1) :: usize) = n - 1" using assms by (subst unat_of_nat) simp
  ultimately show ?thesis by (simp only: word_unat_eq_iff)
qed

lemma counted_ack:
  "counted_at q topic n \<Longrightarrow> 0 < n \<Longrightarrow> n < 2 ^ 64 \<Longrightarrow> counted_at (QueueManager_ack q t 1) topic (if t = topic then n - 1 else n)"
  by (auto simp: counted_at_def QueueManager_ack_def HandlerMetadata_ack_def saturating_of_nat split: option.splits)

lemma counted_repeated:
  "counted_at q topic n \<Longrightarrow> k \<le> n \<Longrightarrow> n < 2 ^ 64 \<Longrightarrow> counted_at (repeated_ack k q topic) topic (n - k)"
proof (induction k arbitrary: q n)
  case (Suc k)
  with counted_ack [of q topic n topic] Suc.IH [of "QueueManager_ack q topic 1" "n - 1"] show ?case
    by (simp add: repeated_ack_Suc)
qed (simp add: repeated_ack_def)

lemma ack_other: "t \<noteq> topic \<Longrightarrow> QueueManager_ack q t n topic = q topic"
  by (simp add: QueueManager_ack_def split: option.split)

lemma repeated_ack_other: "t \<noteq> topic \<Longrightarrow> repeated_ack k q t topic = q topic"
  by (induction k arbitrary: q) (simp_all add: repeated_ack_Suc QueueManager_ack_def repeated_ack_def split: option.split)

lemma counted_receive: "receive q t = Some (m, q') \<Longrightarrow> counted_at q topic n \<Longrightarrow> counted_at q' topic n"
  by (cases "topic = t") (auto simp: receive_def counted_at_def split: option.splits list.splits)

lemma counted_send:
  assumes "counted_at q topic n"
  shows "counted_at (fst (send chan q m)) topic (if topic = msg_topic m \<and> \<not> isl (snd (send chan q m)) then n + 1 else n)"
proof (cases "q (msg_topic m)")
  case (Some h)
  have free: "h1 = h \<and> inflight h = of_nat n \<and> queue_depth h = of_nat n" if "try_acquire_semaphore h = (b, h1)" "topic = msg_topic m" for b h1
    using that assms Some by (auto simp: counted_at_def try_acquire_semaphore_def split: if_splits)
  from Some show ?thesis
    using assms by (cases rule: send_cases [where chan = chan]; cases "topic = msg_topic m")
      (auto simp: counted_at_def dest!: free)
next
  case None
  with assms show ?thesis using send_unregistered [of q m chan] by (auto simp: counted_at_def)
qed

lemma settled_le_finished:
  "length (filter P (told settled_in tr)) \<le> length (filter P (told finished_in tr))"
proof (induction tr)
  case (Cons e tr)
  then show ?case by (cases e) auto
qed simp

lemma settled_sub: "set (settled_in e) \<subseteq> set (finished_in e)"
  by (cases e) auto

text \<open>What workers hold was accepted and is not yet finished.\<close>

lemma held_room:
  assumes "ordered p" "list_all (\<lambda>m. msg_topic m = topic) ms"
    "\<And>part. mset (on_partition part ms) \<subseteq># mset (held p (topic, part))"
  shows "length (filter (\<lambda>m. msg_topic m = topic) (told settled_in (pg_trace p))) + length ms
     \<le> length (filter (\<lambda>m. msg_topic m = topic) (told accepted_in (pg_trace p)))"
proof -
  let ?A = "filter (\<lambda>m. msg_topic m = topic) (told accepted_in (pg_trace p))"
  let ?F = "filter (\<lambda>m. msg_topic m = topic) (told finished_in (pg_trace p))"
  have "mset ?F + mset ms \<subseteq># mset ?A"
  proof (rule mset_subset_eqI)
    fix m
    show "count (mset ?F + mset ms) m \<le> count (mset ?A) m"
    proof (cases "msg_topic m = topic")
      case True
      let ?k = "(topic, msg_partition m)"
      have at: "at_place ?k m" using True by (simp add: at_place_def)
      have "mset (accepted_of p ?k) = mset (finished_of p ?k) + mset (held p ?k) + mset (waiting p ?k)"
        using assms(1) by (simp add: ordered_def)
      then have "count (mset (accepted_of p ?k)) m \<ge> count (mset (finished_of p ?k)) m + count (mset (held p ?k)) m" by simp
      moreover have "count (mset ms) m \<le> count (mset (held p ?k)) m"
        using mset_subset_eq_count [OF assms(3) [of "msg_partition m"], of m]
        by (simp add: on_partition_def)
      ultimately show ?thesis using at True by (simp add: accepted_of_def finished_of_def)
    next
      case False
      with assms(2) have "m \<notin> set ms" by (auto simp: list_all_iff)
      with False show ?thesis by (simp add: count_eq_zero_iff)
    qed
  qed
  from size_mset_mono [OF this] have "length ?F + length ms \<le> length ?A" by (simp only: size_union size_mset)
  with settled_le_finished [of "\<lambda>m. msg_topic m = topic" "pg_trace p"] show ?thesis by simp
qed

lemma counted_other: "q' t = q t \<Longrightarrow> counted_at q t n \<Longrightarrow> counted_at q' t n"
  by (simp add: counted_at_def)

lemma work_counts:
  assumes "work_step rt utf8 i topic cancelled s task inp = Some (Inr (s', task', es))" "task_wf topic task"
  shows "t \<noteq> topic \<Longrightarrow> counted_at (svc_queues s) t n \<Longrightarrow> counted_at (svc_queues s') t n"
    and "length (told settled_in es) \<le> n \<Longrightarrow> n < 2 ^ 64 \<Longrightarrow> counted_at (svc_queues s) topic n
      \<Longrightarrow> counted_at (svc_queues s') topic (n - length (told settled_in es))"
    and "mset (on_partition part (told settled_in es)) \<subseteq># mset (hand task part)"
proof -
  have "(t \<noteq> topic \<longrightarrow> counted_at (svc_queues s) t n \<longrightarrow> counted_at (svc_queues s') t n)
     \<and> (length (told settled_in es) \<le> n \<longrightarrow> n < 2 ^ 64 \<longrightarrow> counted_at (svc_queues s) topic n
      \<longrightarrow> counted_at (svc_queues s') topic (n - length (told settled_in es)))
     \<and> mset (on_partition part (told settled_in es)) \<subseteq># mset (hand task part)"
    using assms(1)
  proof (cases rule: work_step_cases)
    case (result m e r s1 action)
    have topic: "msg_topic m = topic" using assms(2) result(1) by (auto simp: task_wf_def at_place_def split: if_splits)
    note q = result_queues(1) [OF result(3)]
    show ?thesis
    proof (cases "\<exists>d. action = Some (RetryAction d)")
      case True
      with q result(4) show ?thesis by (auto simp: after_result_def)
    next
      case False
      then have "s' = s1" "es = [fate_of m action]"
        using result(4) by (auto simp: after_result_def split: option.splits ExecutionAction.splits)
      moreover from False q have "svc_queues s1 = QueueManager_ack (svc_queues s) topic 1" using topic by (auto split: if_splits)
      moreover have "settled_in (fate_of m action) = [m]" using False by simp
      ultimately show ?thesis using counted_ack [of "svc_queues s" topic n topic] result(1) ack_other [of topic t]
        by (auto intro: counted_other)
    qed
  next
    case (flush l part' ms bs e answer)
    have ms: "ms \<noteq> []" "list_all (at_place (topic, part')) ms"
      using assms(2) unfolding flush(1) task_wf_def by (auto dest: spec [where x = part'])
    then have q: "svc_queues s' = repeated_ack (length ms) (svc_queues s) topic"
      using batch_queues [OF flush(3) ms(1)] by (cases ms) (auto simp: at_place_def)
    have "on_partition part ms = (if part' = part then ms else [])"
      using ms(2) by (intro on_partition_batch) (auto simp: list_all_iff at_place_def)
    then show ?thesis using flush(1,5) q counted_repeated [of "svc_queues s" topic n "length ms"]
        counted_other [of "repeated_ack (length ms) (svc_queues s) topic" t "svc_queues s" n]
        repeated_ack_other [of topic t "length ms" "svc_queues s"] by auto
  qed (auto dest: counted_receive)
  then show "t \<noteq> topic \<Longrightarrow> counted_at (svc_queues s) t n \<Longrightarrow> counted_at (svc_queues s') t n"
    and "length (told settled_in es) \<le> n \<Longrightarrow> n < 2 ^ 64 \<Longrightarrow> counted_at (svc_queues s) topic n
      \<Longrightarrow> counted_at (svc_queues s') topic (n - length (told settled_in es))"
    and "mset (on_partition part (told settled_in es)) \<subseteq># mset (hand task part)" by blast+
qed

definition counters_ok :: "program \<Rightarrow> bool" where
  "counters_ok p \<longleftrightarrow> ordered p \<and> (length (told accepted_in (pg_trace p)) < 2 ^ 64
     \<longrightarrow> (\<forall>topic. counted_at (svc_queues (pg_services p)) topic (in_flight p topic)))"

lemma in_flight_bound: "in_flight p topic \<le> length (told accepted_in (pg_trace p))"
  unfolding in_flight_def using length_filter_le le_trans diff_le_self by metis

lemma work_counters:
  assumes "counters_ok p" "i < length (pg_workers p)" "pg_workers p ! i = (topic, task)"
    "work_step rt utf8 i topic (pg_token p) (pg_services p) task inp = Some (Inr (s, task', es))"
  shows "counters_ok (traced es (p\<lparr>pg_services := s, pg_workers := (pg_workers p)[i := (topic, task')]\<rparr>))"
proof -
  let ?p = "traced es (p\<lparr>pg_services := s, pg_workers := (pg_workers p)[i := (topic, task')]\<rparr>)"
  have o: "ordered p" using assms(1) by (simp add: counters_ok_def)
  then have wf: "distinct (map fst (pg_workers p))" "queues_sorted (svc_queues (pg_services p))" "task_wf topic task"
    using assms(2,3) nth_mem by (fastforce simp: ordered_def program_wf_def list_all_iff)+
  note w = work_counts [OF assms(4) wf(3)] and k = work_step_order [OF assms(4) wf(3,2)]
  have es: "told accepted_in es = []" using k by (simp add: keeps_order_def)
  have "set (told settled_in es) \<subseteq> set (told finished_in es)"
    using settled_sub by (fastforce simp: told_def)
  then have own: "list_all (\<lambda>m. msg_topic m = topic) (told settled_in es)"
    using k by (auto simp: keeps_order_def list_all_iff)
  have "held p (topic, part) = hand task part" for part
    using of_topic_worker(2) [OF wf(1) assms(2,3)] by (simp add: held_def)
  with w(3) have room: "length (filter (\<lambda>m. msg_topic m = topic) (told settled_in (pg_trace p))) + length (told settled_in es)
      \<le> length (filter (\<lambda>m. msg_topic m = topic) (told accepted_in (pg_trace p)))"
    by (intro held_room [OF o own]) simp
  have flight: "in_flight ?p t = (if t = topic then in_flight p t - length (told settled_in es) else in_flight p t)" for t
    using own es by (auto simp: in_flight_def list_all_iff filter_empty_conv)
  have "counted_at (svc_queues s) t (in_flight ?p t)" if "length (told accepted_in (pg_trace p)) < 2 ^ 64" for t
  proof -
    from that assms(1) have at: "counted_at (svc_queues (pg_services p)) t (in_flight p t)" by (simp add: counters_ok_def)
    show ?thesis
    proof (cases "t = topic")
      case True
      have "in_flight p topic < 2 ^ 64" using in_flight_bound [of p topic] that by simp
      moreover have "length (told settled_in es) \<le> in_flight p topic" using room by (simp add: in_flight_def)
      ultimately show ?thesis using w(2) [of "in_flight p topic"] at True flight [of t] by simp
    next
      case False
      with w(1) [OF _ at] show ?thesis by (simp add: flight)
    qed
  qed
  with work_ordered [OF o assms(2-4)] es show ?thesis by (simp add: counters_ok_def)
qed

interpretation program_counters: step_invariant "program_step rt utf8 cfg" counters_ok for rt utf8 cfg
proof (unfold_locales, goal_cases)
  case (1 p ev p')
  then have o: "ordered p'" using program_step_ordered unfolding counters_ok_def by blast
  from 1(2) show ?case
  proof (cases rule: program_step_cases)
    case (dispatch c chan m d calls)
    let ?q = "svc_queues (pg_services p)"
    have le: "length (filter (\<lambda>m. msg_topic m = t) (told settled_in (pg_trace p)))
        \<le> length (filter (\<lambda>m. msg_topic m = t) (told accepted_in (pg_trace p)))" for t
      using held_room [of p t "[]"] 1(1) by (simp add: counters_ok_def)
    have flight: "in_flight p' t = (if t = msg_topic m \<and> \<not> isl (snd (send chan ?q m)) then in_flight p t + 1 else in_flight p t)" for t
      using le [of t] by (auto simp: dispatch in_flight_def Suc_diff_le)
    have "counted_at (fst (send chan ?q m)) t (in_flight p' t)" if "length (told accepted_in (pg_trace p')) < 2 ^ 64" for t
    proof -
      have "length (told accepted_in (pg_trace p)) < 2 ^ 64" using that by (simp add: dispatch)
      with 1(1) have "counted_at ?q t (in_flight p t)" by (simp add: counters_ok_def)
      from counted_send [OF this, of chan m] flight show ?thesis by simp
    qed
    then show ?thesis using o by (simp add: counters_ok_def dispatch)
  next
    case (work i inp topic task s task' es)
    from work_counters [OF 1(1) work(2,4,5)] work(6) show ?thesis by simp
  next
    case (quiet calls)
    with 1(1) o show ?thesis by (simp add: counters_ok_def in_flight_def)
  qed
qed

section \<open>Panics\<close>

fun event_ok :: "program_event \<Rightarrow> bool" where
  \<comment> \<open>Kafka offsets are not negative; rounding and random draws are as documented\<close>
  "event_ok (PDispatch c chan m) = (0 \<le> msg_offset m)"
| "event_ok (PWork i (WResult e r)) = sane_env e"
| "event_ok (PWork i (WFlush e a)) = sane_env e"
| "event_ok _ = True"

definition safe :: "RetryPolicy \<Rightarrow> program \<Rightarrow> bool" where
  "safe policy p \<longleftrightarrow> ordered p \<and> default_policy (svc_retry (pg_services p)) = policy
     \<and> list_all (\<lambda>m. 0 \<le> msg_offset m) (told accepted_in (pg_trace p))"

lemma work_policy:
  assumes "work_step rt utf8 i topic cancelled s task inp = Some (Inr (s', task', es))" "task_wf topic task"
  shows "default_policy (svc_retry s') = default_policy (svc_retry s)"
  using assms(1)
proof (cases rule: work_step_cases)
  case (result m e r s1 action)
  with result_queues(4) [OF result(3)] show ?thesis
    by (auto simp: after_result_def split: option.splits ExecutionAction.splits)
next
  case (flush l part ms bs e answer)
  have "ms \<noteq> []" using assms(2) flush(1) by (simp add: task_wf_def)
  with batch_queues [OF flush(3)] show ?thesis by simp
qed simp_all

lemma worker_task_wf:
  "ordered p \<Longrightarrow> i < length (pg_workers p) \<Longrightarrow> pg_workers p ! i = (topic, task) \<Longrightarrow> task_wf topic task"
  using nth_mem by (fastforce simp: ordered_def program_wf_def list_all_iff)

lemma safe_step:
  assumes "safe policy p" "event_ok ev" "program_step rt utf8 cfg p ev = Some (Inr p')"
  shows "safe policy p'"
proof -
  have o: "ordered p" "ordered p'" using assms program_step_ordered by (auto simp: safe_def)
  from assms(3) show ?thesis
  proof (cases rule: program_step_cases)
    case (work i inp topic task s task' es)
    note wf = worker_task_wf [OF o(1) work(2,4)]
    have "told accepted_in es = []"
      using work_step_order [OF work(5) wf] o(1) by (simp add: keeps_order_def ordered_def program_wf_def)
    with work_policy [OF work(5) wf] assms(1) o work(6) show ?thesis by (simp add: safe_def)
  qed (use assms(1,2) o in \<open>auto simp: safe_def\<close>)
qed

lemma runs_safe:
  "runs (program_step rt utf8 cfg) p es p' \<Longrightarrow> safe policy p \<Longrightarrow> list_all event_ok es \<Longrightarrow> safe policy p'"
  by (induction rule: runs.induct) (auto intro: safe_step)

lemma held_offset:
  assumes "safe policy p" "m \<in> set (held p (topic, part))"
  shows "0 \<le> msg_offset m"
proof -
  have "m \<in> set (accepted_of p (topic, part))" using assms by (simp add: safe_def ordered_def)
  with assms(1) show ?thesis by (auto simp: safe_def accepted_of_def list_all_iff)
qed

lemma res_foldl_total:
  assumes "\<And>s x. good s \<Longrightarrow> x \<in> set xs \<Longrightarrow> \<exists>s'. f s x = Inr s' \<and> good s'" "good s"
  shows "\<exists>s'. res_foldl f s xs = Inr s'"
  using assms
proof (induction xs arbitrary: s)
  case (Cons x xs)
  then obtain s1 where "f s x = Inr s1" "good s1" by (meson list.set_intros(1))
  with Cons.IH [of s1] Cons.prems(1) show ?case by auto
qed simp

lemma batch_total:
  assumes "sane_policy (default_policy (svc_retry s))" "sane_env e" "\<And>m. m \<in> set ms \<Longrightarrow> 0 \<le> msg_offset m"
  shows "\<exists>s'. flush_partition_batch e rt (\<lambda>ctx batch. batch_result_of batch answer) i part ms s = Inr s'"
proof (cases ms)
  case (Cons m ms')
  have ok: "\<exists>s'. res_foldl (batch_ack_one t part) s (map msg_offset ms) = Inr s'" for t
    by (rule res_foldl_total [where good = "\<lambda>s. True"])
      (use assms(3) in \<open>auto simp: batch_ack_one_def record_ack_def OffsetTracker_ack_def Let_def\<close>)
  have "\<exists>s'. res_foldl (batch_fail_one e rt t part reason) s ms = Inr s'" for t reason
    by (rule res_foldl_total [where good = "\<lambda>s. sane_policy (default_policy (svc_retry s))"])
      (use assms(1) batch_fail_one_spec [OF _ assms(2)] in \<open>metis+\<close>)
  with ok Cons show ?thesis by (cases answer) (auto simp: flush_partition_batch_def Let_def)
qed (simp add: flush_partition_batch_def)

lemma result_total:
  assumes "sane_policy (default_policy (svc_retry s))" "sane_env e" "0 \<le> ctx_offset ctx"
  shows "\<exists>s' action. handle_execution_result e rt ctx m result s = Inr (s', action)"
proof (cases "result = ExOk")
  case True
  with ok_settles [OF assms(3)] show ?thesis by blast
next
  case False
  then obtain reason name where r: "failure_of result = Inr reason"
    "handle_execution_result e rt ctx m result s = fail_with e rt ctx m result reason name s"
    by (rule failing_result)
  with fail_with_total [OF assms(1,2) r(1)] show ?thesis by simp
qed

lemma work_never_panics:
  assumes "safe policy p" "sane_policy policy" "event_ok (PWork i inp)" "i < length (pg_workers p)"
    "pg_workers p ! i = (topic, task)"
  shows "work_step rt utf8 i topic cancelled (pg_services p) task inp \<noteq> Some (Inl x)"
proof
  assume panic: "work_step rt utf8 i topic cancelled (pg_services p) task inp = Some (Inl x)"
  have o: "ordered p" "distinct (map fst (pg_workers p))"
    "sane_policy (default_policy (svc_retry (pg_services p)))"
    using assms(1,2) by (auto simp: safe_def ordered_def program_wf_def)
  have held: "m \<in> set (hand task part) \<Longrightarrow> 0 \<le> msg_offset m" for m part
    using held_offset [OF assms(1), of m topic part] by (simp add: held_def of_topic_worker(2) [OF o(2) assms(4,5)])
  from panic show False
  proof (rule work_stepE, goal_cases)
    case (3 m e r)
    then have "0 \<le> msg_offset m" using held [of m "msg_partition m"] by simp
    with result_total [OF o(3), of e "worker_context utf8 i m" rt m r] 3 assms(3) show ?case by auto
  next
    case (9 l part ms bs e answer)
    then have "\<And>m. m \<in> set ms \<Longrightarrow> 0 \<le> msg_offset m" using held [of _ part] by simp
    with batch_total [OF o(3), of e ms rt answer i part] 9 assms(3) show ?case by auto
  qed (auto split: if_splits option.splits prod.splits)
qed

lemma step_never_panics:
  assumes "safe policy p" "sane_policy policy" "event_ok ev"
  shows "program_step rt utf8 cfg p ev \<noteq> Some (Inl x)"
proof (cases ev)
  case (PWork i inp)
  obtain topic task where w: "pg_workers p ! i = (topic, task)" by (metis surj_pair)
  show ?thesis
    using work_never_panics [OF assms(1,2) assms(3) [unfolded PWork] _ w]
    by (auto simp: PWork w split: if_splits)
qed (auto simp: Let_def request_stop_def begin_draining_def pool_shutdown_phases split: prod.splits stop_request.splits if_splits list.splits)

section \<open>Properties of the program\<close>

text \<open>
  C4 (invariant). Nothing is lost, duplicated or overtaken between the dispatcher and the end of a message, in
  any interleaving of all tasks of a runtime that a program can build. For every partition, the messages
  that the dispatcher accepted are, in this order: those finished (handled, dead-lettered, or cut by a
  stop), those that a worker holds, and those that wait in the queue. No message is dropped
  without a dead letter, and only a stop request cuts messages off.
\<close>

theorem partitions_finish_in_order:
  assumes "RuntimeBuilder_build out ks config c g = Inr (Inr (rt, g'))" "iterates ks (pc_handlers c)"
    "runs (program_step (route (rt_router rt)) utf8 (rt_commit_config rt)) (program_new rt) es p"
  shows "accepted_of p (topic, part) = finished_of p (topic, part) @ held p (topic, part) @ waiting p (topic, part)
     \<and> Discarded m \<notin> set (pg_trace p) \<and> (Cut m \<in> set (pg_trace p) \<longrightarrow> pg_token p)"
proof -
  have "ordered (program_new rt)" using program_new_ordered [OF assms(1)] assms(2) by (simp add: iterates_def)
  from program_order.runs_inv [OF assms(3) this] have "ordered p" .
  moreover have "fates_ok (program_new rt)" by (simp add: fates_ok_def program_new_def)
  from program_fates.runs_inv [OF assms(3) this] have "fates_ok p" .
  ultimately show ?thesis by (auto simp: ordered_def fates_ok_def)
qed

theorem partitions_finish_in_order_witness:
  "\<exists>rt p. runs (program_step (route (rt_router rt)) (\<lambda>b. []) (rt_commit_config rt)) (program_new rt) sample_program_events p
     \<and> accepted_of p (''t'', 0) = [sample_message ''t'' 4, sample_message ''t'' 5]
     \<and> finished_of p (''t'', 0) @ held p (''t'', 0) @ waiting p (''t'', 0) = [sample_message ''t'' 4, sample_message ''t'' 5]"
proof -
  obtain rt p where rt: "RuntimeBuilder_build calm_outside [''t''] sample_py_config one_consumer snapshot_globals_new
      = Inr (Inr (rt, RuntimeSnapshotTask_spawn snapshot_globals_new))"
    and p: "runs (program_step (route (rt_router rt)) (\<lambda>b. []) (rt_commit_config rt)) (program_new rt) sample_program_events p"
    "pg_trace p = [Accepted (sample_message ''t'' 4), Succeeded (sample_message ''t'' 4), Accepted (sample_message ''t'' 5),
         Called (ToConsumer (StoreOffset ''t'' 0 4)), Called (ToConsumer CommitState)]"
    using sample_started by blast
  have "accepted_of p (''t'', 0) = [sample_message ''t'' 4, sample_message ''t'' 5]"
    by (simp add: accepted_of_def p(2) at_place_def sample_message_def)
  with partitions_finish_in_order [OF rt iterates_one_consumer p(1), of "''t''" 0] p(1) show ?thesis by auto
qed

lemma built_counted:
  assumes "RuntimeBuilder_build out ks config c g = Inr (Inr (rt, g'))" "iterates ks (pc_handlers c)"
    "runs (program_step (route (rt_router rt)) utf8 (rt_commit_config rt)) (program_new rt) es p"
    "length (told accepted_in (pg_trace p)) < 2 ^ 64" "svc_queues (pg_services p) topic = Some h"
  shows "unat (inflight h) = in_flight p topic \<and> queue_depth h = inflight h"
proof -
  have "ordered (program_new rt)" using program_new_ordered [OF assms(1)] assms(2) by (simp add: iterates_def)
  moreover have "counted_at (svc_queues (pg_services (program_new rt))) t 0" for t
    using build_initial [OF assms(1)]
    by (simp add: program_new_def kafpy_new_def services_new_def counted_at_def fresh_queues_def HandlerMetadata_new_def)
  ultimately have "counters_ok (program_new rt)" by (simp add: counters_ok_def in_flight_def program_new_def)
  from program_counters.runs_inv [OF assms(3) this] assms(4,5)
  have "inflight h = of_nat (in_flight p topic)" "queue_depth h = inflight h"
    by (auto simp: counters_ok_def counted_at_def)
  moreover have "in_flight p topic < 2 ^ 64" using in_flight_bound [of p topic] assms(4) by simp
  ultimately have "unat (inflight h) = in_flight p topic" by (simp add: unat_of_nat)
  with \<open>queue_depth h = inflight h\<close> show ?thesis by simp
qed

text \<open>
  C9 (bounds). The 64-bit counters that backpressure is decided on are exact: while fewer than two to the
  64 messages have been accepted, the in-flight counter of a handler is the number of messages of
  its topic that were accepted and neither handled nor dead-lettered, in any interleaving, and the depth counter
  says the same: it counts what workers hold as well. Messages that a stop cuts off stay counted.
\<close>

theorem inflight_counts_unsettled:
  assumes "RuntimeBuilder_build out ks config c g = Inr (Inr (rt, g'))" "iterates ks (pc_handlers c)"
    "runs (program_step (route (rt_router rt)) utf8 (rt_commit_config rt)) (program_new rt) es p"
    "length (told accepted_in (pg_trace p)) < 2 ^ 64" "svc_queues (pg_services p) topic = Some h"
  shows "unat (inflight h) = length (filter (\<lambda>m. msg_topic m = topic) (told accepted_in (pg_trace p)))
     - length (filter (\<lambda>m. msg_topic m = topic) (told settled_in (pg_trace p))) \<and> queue_depth h = inflight h"
  using built_counted [OF assms] by (simp add: in_flight_def)

theorem inflight_counts_unsettled_witness:
  "\<exists>rt p h. runs (program_step (route (rt_router rt)) (\<lambda>b. []) (rt_commit_config rt)) (program_new rt) sample_program_events p
     \<and> svc_queues (pg_services p) ''t'' = Some h \<and> unat (inflight h) = 1"
proof -
  obtain rt p where rt: "RuntimeBuilder_build calm_outside [''t''] sample_py_config one_consumer snapshot_globals_new
      = Inr (Inr (rt, RuntimeSnapshotTask_spawn snapshot_globals_new))"
    and p: "runs (program_step (route (rt_router rt)) (\<lambda>b. []) (rt_commit_config rt)) (program_new rt) sample_program_events p"
    "pg_trace p = [Accepted (sample_message ''t'' 4), Succeeded (sample_message ''t'' 4), Accepted (sample_message ''t'' 5),
         Called (ToConsumer (StoreOffset ''t'' 0 4)), Called (ToConsumer CommitState)]"
    and h: "\<exists>h. svc_queues (pg_services p) ''t'' = Some h"
    using sample_started by blast
  from h obtain h where h: "svc_queues (pg_services p) ''t'' = Some h" ..
  have "length (told accepted_in (pg_trace p)) < 2 ^ 64" by (simp add: p(2))
  from inflight_counts_unsettled [OF rt iterates_one_consumer p(1) this h] have "unat (inflight h) = 1"
    by (simp add: p(2) sample_message_def)
  with p(1) h show ?thesis by blast
qed



end
