(* ===== verification/Drain.thy ===== *)
theory Drain
  imports ProgramSafety
begin

text \<open>
  The workers get their work done. A rank of the program, the steps that workers may still take, falls with
  every step of a worker, whatever Python answers: retries are bounded by the policy, and every other
  step moves a message closer to its end. A worker that can take no step has nothing left to do. So
  however the scheduler picks among the workers, they come to rest with their queues empty.
\<close>

section \<open>The work that is left\<close>

definition max_tries :: "services \<Rightarrow> nat" where
  "max_tries s = max 1 (max_attempts (default_policy (svc_retry s)))"

definition tries_left :: "services \<Rightarrow> OwnedMessage \<Rightarrow> nat" where
  "tries_left s m = (case retry_state (svc_retry s) (msg_topic m, msg_partition m, msg_offset m) of
     None \<Rightarrow> max_tries s | Some (Retrying n) \<Rightarrow> max 1 (max_tries s - n) | Some Exhausted \<Rightarrow> 1)"

definition acc_total :: "BatchAccumulator \<Rightarrow> nat" where
  "acc_total a = (\<Sum>part\<in>dom (partition_accumulators a). length (buffer_at a part))"

fun effort :: "services \<Rightarrow> task \<Rightarrow> nat" where
  "effort s Ended = 0"
| "effort s Polling = 1"
| "effort s (Invoking m) = 1 + 2 * tries_left s m"
| "effort s (Backoff m d) = 2 + 2 * tries_left s m"
| "effort s (Gathering l bs) = 1 + length bs + 2 * acc_total (bl_acc l)"

definition worker_rank :: "services \<Rightarrow> string \<times> task \<Rightarrow> nat" where
  "worker_rank s w = effort s (snd w) + (2 * max_tries s + 4) * length (buffered_at (svc_queues s) (fst w))"

definition program_rank :: "program \<Rightarrow> nat" where
  "program_rank p = sum_list (map (worker_rank (pg_services p)) (pg_workers p))"

lemma tries_left_bounds: "1 \<le> tries_left s m" "tries_left s m \<le> max_tries s"
  by (auto simp: tries_left_def max_tries_def split: option.split RetryState.split)

section \<open>Retry states\<close>

lemma result_retry_other:
  assumes "handle_execution_result e rt ctx m result s = Inr (s', action)"
    "k \<noteq> (ctx_topic ctx, ctx_partition ctx, ctx_offset ctx)"
  shows "retry_state (svc_retry s') k = retry_state (svc_retry s) k"
proof (cases "result = ExOk")
  case True
  with assms show ?thesis by (auto simp: Let_def record_success_def)
next
  case False
  then obtain reason name where r: "failure_of result = Inr reason"
    "handle_execution_result e rt ctx m result s = fail_with e rt ctx m result reason name s"
    by (rule failing_result)
  from r(2) assms(1) have "fail_with e rt ctx m result reason name s = Inr (s', action)" by simp
  then show ?thesis by (rule fail_with_cases [OF r(1)]) (use assms(2) record_failure_decision(4) in auto)
qed

lemma result_retry_left:
  assumes "handle_execution_result e rt (worker_context utf8 i m) m result s = Inr (s', Some (RetryAction d))"
  shows "tries_left s' m + 1 \<le> tries_left s m"
proof -
  have "result \<noteq> ExOk" using result_queues(2) [OF assms] by simp
  then obtain reason name where r: "failure_of result = Inr reason"
    "handle_execution_result e rt (worker_context utf8 i m) m result s
       = fail_with e rt (worker_context utf8 i m) m result reason name s"
    by (rule failing_result)
  from r(2) assms have "fail_with e rt (worker_context utf8 i m) m result reason name s = Inr (s', Some (RetryAction d))" by simp
  then obtain rc dlq delay where rf: "record_failure e (svc_retry s) (msg_topic m) (msg_partition m) (msg_offset m) reason
      = Inr (rc, True, dlq, delay)" and rc: "svc_retry s' = rc"
    by (rule fail_with_cases [OF r(1)]) (auto split: if_splits)
  from rf obtain n where "retry_state rc (msg_topic m, msg_partition m, msg_offset m) = Some (Retrying n)"
    "0 < n" "n < max_attempts (default_policy (svc_retry s))" "default_policy rc = default_policy (svc_retry s)"
    "retry_state (svc_retry s) (msg_topic m, msg_partition m, msg_offset m) = (if n = 1 then None else Some (Retrying (n - 1)))
     \<or> retry_state (svc_retry s) (msg_topic m, msg_partition m, msg_offset m) = Some (Retrying (n - 1))"
    by (auto simp: record_failure_def to_dlq_def Let_def split: record_failure_splits)
  then show ?thesis using rc by (auto simp: tries_left_def max_tries_def)
qed

lemma res_foldl_keeps:
  "res_foldl f s xs = Inr s' \<Longrightarrow> (\<And>s x s1. f s x = Inr s1 \<Longrightarrow> g s1 = g s) \<Longrightarrow> g s' = g s"
proof (induction xs arbitrary: s)
  case (Cons x xs)
  then obtain s1 where "f s x = Inr s1" "res_foldl f s1 xs = Inr s'" by auto
  with Cons.IH [of s1] Cons.prems(2) show ?case by metis
qed simp

lemma batch_retry_other:
  assumes "flush_partition_batch e rt (\<lambda>ctx batch. batch_result_of batch answer) i part ms s = Inr s'"
    "ms = [] \<or> t \<noteq> msg_topic (hd ms)"
  shows "retry_state (svc_retry s') (t, k) = retry_state (svc_retry s) (t, k)"
proof (cases ms)
  case (Cons m ms')
  have ok: "retry_state (svc_retry s1) (t, k) = retry_state (svc_retry s) (t, k)"
    if "batch_ack_one (msg_topic m) part s x = Inr s1" for s x s1
    using that assms(2) Cons by (auto simp: batch_ack_one_def record_success_def Let_def)
  have bad: "retry_state (svc_retry s1) (t, k) = retry_state (svc_retry s) (t, k)"
    if bf: "batch_fail_one e rt (msg_topic m) part reason s x = Inr s1" for s x s1 reason
  proof -
    from bf obtain rc d where rf: "record_failure e (svc_retry s) (msg_topic m) part (msg_offset x) reason = Inr (rc, d)"
      and s1: "svc_retry s1 = rc"
      by (auto simp: batch_fail_one_def Let_def split: if_splits)
    obtain retry dlq delay where "d = (retry, dlq, delay)" by (metis prod_cases3)
    with record_failure_decision(4) [of e "svc_retry s" "msg_topic m" part "msg_offset x" reason rc retry dlq delay "(t, k)"] rf s1
      assms(2) Cons show ?thesis by auto
  qed
  have "handle_batch_result_inline e rt (batch_result_of ms answer) ms (msg_topic m) part s = Inr s'"
    using assms(1) Cons by (simp add: flush_partition_batch_def Let_def)
  then show ?thesis
    using res_foldl_keeps [where g = "\<lambda>s. retry_state (svc_retry s) (t, k)", of "batch_ack_one (msg_topic m) part", OF _ ok]
      res_foldl_keeps [where g = "\<lambda>s. retry_state (svc_retry s) (t, k)", of "batch_fail_one e rt (msg_topic m) part reason" for reason, OF _ bad]
    by (cases answer) simp_all
qed (use assms(1) in \<open>simp add: flush_partition_batch_def\<close>)

section \<open>Messages in accumulators\<close>

definition in_batches :: "batch list \<Rightarrow> nat" where
  "in_batches bs = sum_list (map (length \<circ> snd) bs)"

lemma in_batches_simps [simp]:
  "in_batches [] = 0" "in_batches (b # bs) = length (snd b) + in_batches bs" "in_batches (bs @ cs) = in_batches bs + in_batches cs"
  by (simp_all add: in_batches_def)

lemma batches_le: "list_all (batch_ok n) bs \<Longrightarrow> length bs \<le> in_batches bs"
proof (induction bs)
  case (Cons b bs)
  then have "snd b \<noteq> []" by (simp add: batch_ok_def)
  then have "1 \<le> length (snd b)" by (simp add: Suc_le_eq)
  with Cons show ?case by simp
qed simp

lemma acc_total_upd:
  assumes "finite (dom (partition_accumulators a))"
  shows "acc_total (a\<lparr>partition_accumulators := (partition_accumulators a)(part \<mapsto> b)\<rparr>) + length (buffer_at a part)
     = acc_total a + length (buf_messages b)"
proof -
  let ?a = "a\<lparr>partition_accumulators := (partition_accumulators a)(part \<mapsto> b)\<rparr>" and ?D = "dom (partition_accumulators a)"
  have out: "part \<notin> ?D \<Longrightarrow> buffer_at a part = []" by (auto simp: buffer_at_def dom_def split: option.splits)
  have "(\<Sum>x\<in>?D - {part}. length (buffer_at ?a x)) = (\<Sum>x\<in>?D - {part}. length (buffer_at a x))"
    by (rule sum.cong) (auto simp: buffer_at_def)
  moreover have "buffer_at ?a part = buf_messages b" by (simp add: buffer_at_def)
  ultimately have "acc_total ?a = length (buf_messages b) + (\<Sum>x\<in>?D - {part}. length (buffer_at a x))"
    using assms by (simp add: acc_total_def sum.insert_remove)
  moreover have "acc_total a = length (buffer_at a part) + (\<Sum>x\<in>?D - {part}. length (buffer_at a x))"
    using assms out by (cases "part \<in> ?D") (simp_all add: acc_total_def sum.remove)
  ultimately show ?thesis by simp
qed

lemma flush_buffer_total:
  assumes "flush_buffer a part = (r, a')" "acc_live a"
  shows "(case r of Some ms \<Rightarrow> length ms | None \<Rightarrow> 0) + acc_total a' = acc_total a"
proof (cases "partition_accumulators a part")
  case (Some b)
  with assms acc_total_upd [of a part "b\<lparr>buf_messages := []\<rparr>"] show ?thesis
    by (auto simp: flush_buffer_def take_messages_def acc_live_def buffer_at_def split: if_splits)
qed (use assms in \<open>simp add: flush_buffer_def\<close>)

lemma flush_all_total: "flush_all ks a = (bs, a') \<Longrightarrow> acc_live a \<Longrightarrow> in_batches bs + acc_total a' = acc_total a"
proof (induction ks arbitrary: a bs)
  case (Cons part ks)
  obtain r a1 where fb: "flush_buffer a part = (r, a1)" by (metis surj_pair)
  note live = flush_buffer_live [OF fb Cons.prems(2)] and tot = flush_buffer_total [OF fb Cons.prems(2)]
  show ?case
  proof (cases r)
    case None
    with Cons fb live tot show ?thesis by simp
  next
    case (Some ms)
    then obtain bs' where "flush_all ks a1 = (bs', a')" "bs = (part, ms) # bs'"
      using Cons.prems(1) fb by (auto split: prod.splits)
    with Cons.IH [of a1 bs'] live tot Some show ?thesis by simp
  qed
qed simp

lemma flush_full_total: "flush_full a part = (bs, a') \<Longrightarrow> acc_live a \<Longrightarrow> in_batches bs + acc_total a' = acc_total a"
  using flush_buffer_total [of a part] by (auto simp: flush_full_def split: if_splits option.splits prod.splits)

lemma add_total:
  assumes "acc_live a"
  shows "acc_total (BatchAccumulator_add a m now) = acc_total a + 1"
proof -
  let ?b = "case partition_accumulators a (msg_partition m) of Some b \<Rightarrow> b | None \<Rightarrow> PerPartitionBuffer_new"
  have "buf_messages (PerPartitionBuffer_add ?b m now (max_batch_wait a)) = buffer_at a (msg_partition m) @ [m]"
    by (auto simp: PerPartitionBuffer_add_def start_timer_def buffer_at_def PerPartitionBuffer_new_def Let_def split: option.split)
  with acc_total_upd [of a "msg_partition m" "PerPartitionBuffer_add ?b m now (max_batch_wait a)"] assms show ?thesis
    by (simp add: BatchAccumulator_add_def acc_live_def)
qed

lemma on_message_total:
  assumes "on_message ks now cap l m = (l', bs)" "acc_live (bl_acc l)"
  shows "in_batches bs + acc_total (bl_acc l') = acc_total (bl_acc l) + 1"
proof -
  obtain st bs0 a0 where first: "(st, bs0, a0) = (if \<not> is_backpressure (bl_state l) \<and> cap
      then (BackpressureState, flush_all ks (bl_acc l)) else (bl_state l, [], bl_acc l))"
    by (metis surj_pair)
  obtain bs1 a1 where f1: "flush_full a0 (msg_partition m) = (bs1, a1)" by (metis surj_pair)
  obtain bs3 a3 where f3: "flush_full (BatchAccumulator_add a1 m now) (msg_partition m) = (bs3, a3)" by (metis surj_pair)
  have out: "bl_acc l' = a3" "bs = bs0 @ bs1 @ bs3"
    using assms(1) first [symmetric] f1 f3 unfolding on_message_def Let_def
    by (auto simp del: flush_all.simps split: prod.splits)
  have t0: "in_batches bs0 + acc_total a0 = acc_total (bl_acc l)" "acc_live a0"
    using first flush_all_total [of ks "bl_acc l" bs0 a0] flush_all_live [of ks "bl_acc l" bs0 a0] assms(2)
    by (auto split: if_splits)
  have t1: "in_batches bs1 + acc_total a1 = acc_total a0" "acc_live a1"
    using flush_full_total [OF f1 t0(2)] flush_full_live [OF f1 t0(2)] by auto
  have "in_batches bs3 + acc_total a3 = acc_total (BatchAccumulator_add a1 m now)"
    using flush_full_total [OF f3 add_live [OF t1(2)]] .
  with t0 t1 add_total [OF t1(2)] out show ?thesis by simp
qed

section \<open>Every step of a worker lowers the rank\<close>

lemma gather_effort: "effort s (gather l bs) \<le> 1 + length bs + 2 * acc_total (bl_acc l)"
  and gather_effort_stopped: "\<not> bl_running l \<Longrightarrow> bs = [] \<Longrightarrow> effort s (gather l bs) = 0"
  by (auto simp: gather_def)

lemma work_queue:
  assumes "work_step rt utf8 i topic cancelled s task inp = Some (Inr (s', task', es))" "task_wf topic task"
    "queues_sorted (svc_queues s)" "t \<noteq> topic"
  shows "buffered_at (svc_queues s') t = buffered_at (svc_queues s) t"
  using work_step_order [OF assms(1-3)] assms(4) by (simp add: keeps_order_def)

lemma result_effort:
  assumes "handle_execution_result e rt (worker_context utf8 i m) m r s = Inr (s1, action)"
    "after_result cancelled m s1 action = (s', task', es)"
  shows "effort s' task' < effort s (Invoking m)"
proof (cases "\<exists>d. action = Some (RetryAction d)")
  case True
  then obtain d where d: "action = Some (RetryAction d)" ..
  with result_retry_left [OF assms(1) [unfolded d]] assms(2) show ?thesis by (auto simp: after_result_def)
next
  case False
  with assms(2) have "task' = (if cancelled then Ended else Polling)"
    by (auto simp: after_result_def split: option.splits ExecutionAction.splits)
  with tries_left_bounds(1) [of s m] show ?thesis by auto
qed

lemma flush_all_effort:
  assumes "flush_all ks (bl_acc l) = (bs, a)" "iterates ks (partition_accumulators (bl_acc l))"
    "acc_ok (bl_acc l)" "acc_live (bl_acc l)" "bl_acc l' = a" "acc_total (bl_acc l) > 0 \<or> \<not> bl_running l'"
  shows "effort s (gather l' bs) < 1 + 2 * acc_total (bl_acc l)"
proof -
  have ks: "distinct ks" using assms(2) by (simp add: iterates_def)
  have "list_all (batch_ok (BatchAccumulator.max_batch_size (bl_acc l))) bs" using flush_all_spec(4) [OF assms(1) ks assms(3)] ..
  then have le: "length bs \<le> in_batches bs" by (rule batches_le)
  have tot: "in_batches bs + acc_total a = acc_total (bl_acc l)" using flush_all_total [OF assms(1,4)] .
  have "buffer_at a part = []" for part
    using flush_all_spec(1,2) [OF assms(1) ks, of part] assms(2)
    by (cases "part \<in> set ks") (auto simp: iterates_def buffer_at_def dom_def)
  then have zero: "acc_total a = 0" by (simp add: acc_total_def)
  show ?thesis
  proof (cases "acc_total (bl_acc l) = 0")
    case True
    then have "bs = []" using le tot by simp
    with True assms(6) gather_effort_stopped [of l' bs s] show ?thesis by simp
  next
    case False
    with gather_effort [of s l' bs] le tot zero assms(5) show ?thesis by simp
  qed
qed

lemma not_empty_total:
  assumes "iterates ks (partition_accumulators a)" "\<not> BatchAccumulator_is_empty ks a"
  shows "acc_total a > 0"
proof -
  obtain part where part: "part \<in> set ks" "buffer_at a part \<noteq> []"
    using assms(2) by (auto simp: BatchAccumulator_is_empty_def list_all_iff)
  have "finite (dom (partition_accumulators a))" using assms(1) by (metis List.finite_set iterates_def)
  then have "length (buffer_at a part) \<le> acc_total a"
    unfolding acc_total_def using assms(1) part(1) by (intro member_le_sum) (auto simp: iterates_def)
  with part(2) show ?thesis by (cases "buffer_at a part") auto
qed

lemma work_rank_own:
  assumes "work_step rt utf8 i topic cancelled s task inp = Some (Inr (s', task', es))" "task_wf topic task"
  shows "worker_rank s' (topic, task') < worker_rank s (topic, task)"
proof -
  have tries: "max_tries s' = max_tries s" using work_policy [OF assms] by (simp add: max_tries_def)
  have drop: ?thesis if "buffered_at (svc_queues s') topic = buffered_at (svc_queues s) topic" "effort s' task' < effort s task"
    using that by (simp add: worker_rank_def tries)
  have dequeue: ?thesis if "receive (svc_queues s) topic = Some (m, q)" "svc_queues s' = q"
    "effort s' task' < effort s task + (2 * max_tries s + 4)" for m q
    using that receive_queue(1) [OF that(1)] by (simp add: worker_rank_def tries)
  from assms(1) show ?thesis
  proof (cases rule: work_step_cases)
    case (take m q)
    with tries_left_bounds(2) [of s' m] tries show ?thesis by (intro dequeue) auto
  next
    case (result m e r s1 action)
    have "s' = s1" using result(4) by (auto simp: after_result_def split: option.splits ExecutionAction.splits)
    with result_queues(1) [OF result(3)] result_effort [OF result(3,4)] result(1) show ?thesis
      by (intro drop) (auto split: if_splits)
  next
    case (message l ks now m q l' bs)
    have l: "acc_ok (bl_acc l)" "acc_live (bl_acc l)" "distinct ks"
      using assms(2) message by (auto simp: task_wf_def iterates_def)
    have "length bs \<le> in_batches bs" using on_message_spec(2) [OF message(5) l(3,1)] by (blast intro: batches_le)
    with on_message_total [OF message(5) l(2)] gather_effort [of s' l' bs] message show ?thesis
      by (intro dequeue) auto
  next
    case (deadline l ks now l' bs)
    obtain a where fa: "flush_all ks (bl_acc l) = (bs, a)" "bl_acc l' = a"
      using deadline(4,5) by (auto split: prod.splits)
    have "acc_ok (bl_acc l)" "acc_live (bl_acc l)" using assms(2) deadline by (auto simp: task_wf_def)
    with flush_all_effort [OF fa(1) deadline(3) _ _ fa(2), of s] not_empty_total [OF deadline(3,4)] deadline show ?thesis
      by (intro drop) auto
  next
    case (drain l ks l' bs)
    obtain a where fa: "flush_all ks (bl_acc l) = (bs, a)" "bl_acc l' = a" "\<not> bl_running l'"
      using drain(5) by (auto split: prod.splits)
    have "acc_ok (bl_acc l)" "acc_live (bl_acc l)" using assms(2) drain by (auto simp: task_wf_def)
    with flush_all_effort [OF fa(1) drain(4) _ _ fa(2), of s] fa(3) drain show ?thesis
      by (intro drop) auto
  next
    case (flush l part ms bs e answer)
    have "ms \<noteq> []" using assms(2) flush by (simp add: task_wf_def)
    with batch_queues [OF flush(3)] gather_effort [of s' l bs] flush show ?thesis by (intro drop) auto
  qed (simp_all add: worker_rank_def)
qed

lemma work_retry_other:
  assumes "work_step rt utf8 i topic cancelled s task inp = Some (Inr (s', task', es))" "task_wf topic task" "t \<noteq> topic"
  shows "retry_state (svc_retry s') (t, k) = retry_state (svc_retry s) (t, k)"
  using assms(1)
proof (cases rule: work_step_cases)
  case (result m e r s1 action)
  have "msg_topic m = topic" using assms(2) result(1) by (auto simp: task_wf_def at_place_def split: if_splits)
  moreover have "s' = s1" using result(4) by (auto simp: after_result_def split: option.splits ExecutionAction.splits)
  ultimately show ?thesis using result_retry_other [OF result(3), of "(t, k)"] assms(3) by simp
next
  case (flush l part ms bs e answer)
  have "list_all (at_place (topic, part)) ms" "ms \<noteq> []"
    using assms(2) unfolding flush(1) task_wf_def by (auto dest: spec [where x = part])
  then have "msg_topic (hd ms) = topic" by (cases ms) (auto simp: at_place_def)
  with batch_retry_other [OF flush(3)] assms(3) show ?thesis by blast
qed simp_all

lemma work_rank_other:
  assumes "work_step rt utf8 i topic cancelled s task inp = Some (Inr (s', task', es))" "task_wf topic task"
    "queues_sorted (svc_queues s)" "t \<noteq> topic" "task_wf t other"
  shows "worker_rank s' (t, other) = worker_rank s (t, other)"
proof -
  have tries: "max_tries s' = max_tries s" using work_policy [OF assms(1,2)] by (simp add: max_tries_def)
  have left: "tries_left s' m = tries_left s m" if "msg_topic m = t" for m
    using work_retry_other [OF assms(1,2,4)] that unfolding tries_left_def tries by simp
  have own: "other = Invoking m \<or> other = Backoff m d \<Longrightarrow> msg_topic m = t" for m d
    using assms(5) by (auto simp: task_wf_def at_place_def split: if_splits)
  have "effort s' other = effort s other" using own by (cases other) (auto simp: left)
  with work_queue [OF assms(1-4)] show ?thesis by (simp add: worker_rank_def tries)
qed

lemma sum_list_less:
  assumes "i < length xs" "(y :: nat) < xs ! i"
  shows "sum_list (xs[i := y]) < sum_list xs"
proof -
  have "sum_list xs = sum_list (take i xs) + xs ! i + sum_list (drop (Suc i) xs)"
    using arg_cong [OF id_take_nth_drop [OF assms(1)], of sum_list] by simp
  moreover have "sum_list (xs[i := y]) = sum_list (take i xs) + y + sum_list (drop (Suc i) xs)"
    using assms(1) by (simp add: upd_conv_take_nth_drop)
  ultimately show ?thesis using assms(2) by simp
qed

fun is_work :: "program_event \<Rightarrow> bool" where
  "is_work (PWork i inp) = True"
| "is_work _ = False"

interpretation program_ranked: step_ranking "program_step rt utf8 cfg" ordered is_work program_rank for rt utf8 cfg
proof (unfold_locales, goal_cases)
  case (1 p ev p')
  from 1(3) show ?case
  proof (cases rule: program_step_cases)
    case (work i inp topic task s task' es)
    let ?ws = "pg_workers p" and ?r = "worker_rank (pg_services p)"
    note wf = worker_task_wf [OF 1(1)]
    have q: "queues_sorted (svc_queues (pg_services p))" "distinct (map fst ?ws)"
      using 1(1) by (auto simp: ordered_def program_wf_def)
    have "map (worker_rank s) (?ws[i := (topic, task')]) = (map ?r ?ws)[i := worker_rank s (topic, task')]"
    proof (rule nth_equalityI)
      fix j assume j: "j < length (map (worker_rank s) (?ws[i := (topic, task')]))"
      obtain t other where w: "?ws ! j = (t, other)" by (metis surj_pair)
      have "j \<noteq> i \<Longrightarrow> t \<noteq> topic" using q(2) w work(2,4) j by (auto simp: distinct_conv_nth) (metis fst_conv)
      with j w work_rank_other [OF work(5) wf [OF work(2,4)] q(1) _ wf [OF _ w]] work(2)
      show "map (worker_rank s) (?ws[i := (topic, task')]) ! j = (map ?r ?ws)[i := worker_rank s (topic, task')] ! j"
        by (cases "j = i") simp_all
    qed simp
    moreover have "worker_rank s (topic, task') < map ?r ?ws ! i"
      using work_rank_own [OF work(5) wf [OF work(2,4)]] work(2,4) by simp
    ultimately show ?thesis using sum_list_less [of i "map ?r ?ws"] work(2,6) by (simp add: program_rank_def)
  qed (use 1(2) in \<open>auto elim: is_work.elims\<close>)
qed

section \<open>A worker without a step has nothing to do\<close>

lemma receive_None: "receive q topic = None \<Longrightarrow> buffered_at q topic = []"
  by (auto simp: receive_def buffered_at_def split: option.splits list.splits)

lemma next_deadline_some:
  assumes "acc_live a" "iterates ks (partition_accumulators a)" "\<not> BatchAccumulator_is_empty ks a"
  shows "\<exists>d. next_deadline ks a = Some d"
proof -
  obtain part b where b: "part \<in> set ks" "partition_accumulators a part = Some b" "buf_messages b \<noteq> []"
    using assms(2,3) by (auto simp: BatchAccumulator_is_empty_def list_all_iff buffer_at_def split: option.splits)
  with assms(1) obtain d where "deadline b = Some d" by (auto simp: acc_live_def)
  with b have "d \<in> set (deadlines a ks)" by (induction ks) auto
  then show ?thesis by (auto simp: next_deadline_def split: list.splits)
qed

lemma gathering_progress:
  assumes "loop_wf (Gathering l [])" "\<And>inp. work_step rt utf8 i topic cancelled s (Gathering l []) inp = None"
  shows "buffered_at (svc_queues s) topic = [] \<and> (\<forall>part. buffer_at (bl_acc l) part = []) \<and> \<not> cancelled"
proof -
  let ?m = "partition_accumulators (bl_acc l)"
  have live: "acc_live (bl_acc l)" using assms(1) by simp
  then obtain ks where ks: "iterates ks ?m"
    using finite_distinct_list unfolding acc_live_def iterates_def by metis
  have "receive (svc_queues s) topic = None"
    using assms(2) [of "WMessage ks 0"] ks by (auto split: option.splits prod.splits)
  moreover have "BatchAccumulator_is_empty ks (bl_acc l)"
  proof (rule ccontr)
    assume ne: "\<not> BatchAccumulator_is_empty ks (bl_acc l)"
    then obtain d where "next_deadline ks (bl_acc l) = Some d" using next_deadline_some [OF live ks] by blast
    with ne ks assms(2) [of "WDeadline ks d"] show False by (auto simp del: batch_step.simps split: prod.splits)
  qed
  then have "buffer_at (bl_acc l) part = []" for part
    using ks by (auto simp: BatchAccumulator_is_empty_def list_all_iff iterates_def buffer_at_def split: option.splits)
  moreover have "\<not> cancelled" using assms(2) [of "WDrain ks"] ks by (auto simp del: batch_step.simps split: prod.splits if_splits)
  ultimately show ?thesis by (simp add: receive_None)
qed

lemma worker_progress:
  assumes "task_wf topic task" "\<And>inp. work_step rt utf8 i topic cancelled s task inp = None" "task \<noteq> Ended"
  shows "buffered_at (svc_queues s) topic = [] \<and> (\<forall>part. hand task part = []) \<and> \<not> cancelled"
proof (cases task)
  case Polling
  then have "receive (svc_queues s) topic = None" "\<not> cancelled"
    using assms(2) [of WTake] assms(2) [of WCancelled] by (auto split: option.splits prod.splits if_splits)
  with Polling show ?thesis by (simp add: receive_None)
next
  case (Invoking m)
  with assms(2) [of "WResult undefined undefined"] show ?thesis by simp
next
  case (Backoff m d)
  with assms(2) [of WWake] assms(2) [of WCancelled] show ?thesis by (simp split: if_splits)
next
  case (Gathering l bs)
  show ?thesis
  proof (cases bs)
    case Nil
    with gathering_progress [of l rt utf8 i topic cancelled s] assms(1,2) Gathering show ?thesis
      by (simp add: task_wf_def)
  next
    case (Cons b bs')
    with assms(2) [of "WFlush undefined undefined"] Gathering show ?thesis by (cases b) simp
  qed
qed (use assms(3) in simp)

definition at_rest :: "router \<Rightarrow> (bytes \<Rightarrow> string) \<Rightarrow> CommitConfig \<Rightarrow> program \<Rightarrow> bool" where
  \<comment> \<open>no worker can take a step\<close>
  "at_rest rt utf8 cfg p \<longleftrightarrow> (\<forall>i inp. program_step rt utf8 cfg p (PWork i inp) = None)"

lemma rest_is_drained:
  assumes "ordered p" "\<not> pg_pool_down p" "at_rest rt utf8 cfg p" "(topic, task) \<in> set (pg_workers p)" "task \<noteq> Ended"
  shows "accepted_of p (topic, part) = finished_of p (topic, part) \<and> \<not> pg_token p"
proof -
  obtain i where i: "i < length (pg_workers p)" "pg_workers p ! i = (topic, task)"
    using assms(4) by (metis in_set_conv_nth)
  have "work_step rt utf8 i topic (pg_token p) (pg_services p) task inp = None" for inp
    using assms(2,3) i unfolding at_rest_def by (auto dest!: spec [where x = i] spec [where x = inp])
  from worker_progress [OF worker_task_wf [OF assms(1) i] this assms(5)]
  have rest: "buffered_at (svc_queues (pg_services p)) topic = []" "hand task part = []" "\<not> pg_token p" by auto
  have "held p (topic, part) = hand task part"
    using of_topic_worker(2) [OF _ i] assms(1) by (simp add: held_def ordered_def program_wf_def)
  with rest assms(1) show ?thesis by (simp add: ordered_def waiting_def)
qed

section \<open>Workers drain their queues\<close>


definition sample_work :: "program_event list" where
  "sample_work = [PWork 0 WTake, PWork 0 (WResult plain_env ExOk)]"

lemma sample_drain:
  "\<exists>p p'. run_of (program_step (route with_default_prefix) (\<lambda>b. []) CommitConfig_default)
       (sample_program policy (ShutdownCoordinator_new 30)) [PDispatch sample_client live_channel (sample_message ''t'' 4)] = Some p
     \<and> run_of (program_step (route with_default_prefix) (\<lambda>b. []) CommitConfig_default) p sample_work = Some p'
     \<and> pg_workers p' = [(''t'', Polling)] \<and> receive (svc_queues (pg_services p')) ''t'' = None
     \<and> \<not> pg_token p' \<and> \<not> pg_pool_down p'"
  by (simp add: program_eval sample_work_def fresh_queues_def queue_capacity_def sample_py_config_def cong: res_bind_weak_cong)

lemma polling_rest:
  assumes "pg_workers p = [(topic, Polling)]" "receive (svc_queues (pg_services p)) topic = None" "\<not> pg_token p"
  shows "at_rest rt utf8 cfg p"
proof -
  have "work_step rt utf8 i topic False (pg_services p) Polling inp = None" for i inp
    using assms(2) by (cases inp) simp_all
  with assms show ?thesis by (simp add: at_rest_def)
qed


end
