(* ===== verification/Refinement.thy ===== *)
theory Refinement
  imports Drain
begin

text \<open>
  The running program refines the abstract pipeline: every step of a task is a step of the pipeline or none,
  with the same services, the same state of the committer, the same successes and the same offsets handed
  to the broker. What the pipeline guarantees about acknowledgements then holds for the program.
\<close>

section \<open>The simulation\<close>

fun work_events :: "nat \<Rightarrow> string \<Rightarrow> task \<Rightarrow> work_input \<Rightarrow> kafpy_event list" where
  "work_events i topic Polling WTake = [KTake topic]"
| "work_events i topic (Invoking m) (WResult e r) = [KResult e i m r]"
| "work_events i topic (Gathering l []) (WMessage ks now) = [KTake topic]"
| "work_events i topic (Gathering l ((part, ms) # bs)) (WFlush e answer) = [KBatch e i ms answer]"
| "work_events i topic task inp = []"

fun pipeline_events :: "program \<Rightarrow> program_event \<Rightarrow> kafpy_event list" where
  "pipeline_events p (PDispatch c chan m) = [KDispatch chan m]"
| "pipeline_events p (PWork i inp) = (let (topic, task) = pg_workers p ! i in work_events i topic task inp)"
| "pipeline_events p (PCommit broker ks now inp) = [KRound broker (pg_coordinator p) ks now inp]"
| "pipeline_events p (PShutdown e ks) = [KFlush e ks]"
| "pipeline_events p (PLetter broker) = [KLetter]"
| "pipeline_events p _ = []"

fun store_in :: "consumer_call \<Rightarrow> (string \<times> i32 \<times> i64) list" where
  "store_in (StoreOffset topic part x) = [(topic, part, x)]"
| "store_in CommitState = []"

fun consumer_store :: "trace_entry \<Rightarrow> (string \<times> i32 \<times> i64) list" where
  "consumer_store (Called (ToConsumer call)) = store_in call"
| "consumer_store _ = []"

definition consumer_stores :: "trace_entry list \<Rightarrow> (string \<times> i32 \<times> i64) list" where
  "consumer_stores tr = concat (map consumer_store tr)"

lemma consumer_stores_simps [simp]:
  "consumer_stores [] = []" "consumer_stores (e # tr) = consumer_store e @ consumer_stores tr"
  "consumer_stores (tr @ tr') = consumer_stores tr @ consumer_stores tr'"
  "consumer_stores (map (Called \<circ> ToConsumer) calls) = concat (map store_in calls)"
  "consumer_stores (map (Called \<circ> ToClient) calls') = []"
  "consumer_stores (map (Called \<circ> ToRebalance) calls'') = []"
  "consumer_stores (batch_fates answer ms) = []"
  by (simp_all add: consumer_stores_def batch_fates_def comp_def map_concat split: if_split)

lemma consumer_store_fate [simp]: "consumer_store (fate_of m a) = []"
  by (cases "(m, a)" rule: fate_of.cases) simp_all

definition all_taken :: "(string \<times> task) list \<Rightarrow> OwnedMessage list \<Rightarrow> bool" where
  "all_taken ws taken \<longleftrightarrow> (\<forall>topic task part. (topic, task) \<in> set ws \<longrightarrow> set (hand task part) \<subseteq> set taken)"

definition same_run :: "kafpy_event list \<Rightarrow> kafpy \<Rightarrow> program \<Rightarrow> bool" where
  "same_run fs k p \<longleftrightarrow> k_services k = pg_services p \<and> k_committer k = pg_committer p
     \<and> all_taken (pg_workers p) (k_taken k)
     \<and> handled fs = told succeeded_in (pg_trace p)
     \<and> concat (map store_in (k_calls k)) = consumer_stores (pg_trace p)"

lemma handled_append: "handled (fs @ gs) = handled fs @ handled gs"
  by (simp add: handled_def)

lemma handled_one [simp]: "handled [] = []" "handled [ev] = successes ev"
  by (simp_all add: handled_def)

text \<open>A step of a worker, as steps of the pipeline.\<close>

lemma work_simulated:
  assumes "work_step rt utf8 i topic cancelled (k_services k) task inp = Some (Inr (s', task', es))"
    "task_wf topic task" "queues_sorted (svc_queues (k_services k))" "\<And>part. set (hand task part) \<subseteq> set (k_taken k)"
  shows "\<exists>k'. res_foldl (kafpy_step rt utf8 cfg) k (work_events i topic task inp) = Inr k' \<and> k_services k' = s'
     \<and> k_committer k' = k_committer k \<and> k_calls k' = k_calls k \<and> set (k_taken k) \<subseteq> set (k_taken k')
     \<and> (\<forall>part. set (hand task' part) \<subseteq> set (k_taken k'))
     \<and> handled (work_events i topic task inp) = told succeeded_in es \<and> consumer_stores es = []"
proof -
  note order = work_step_order [OF assms(1-3)]
  have kept: "set (hand task' part) \<subseteq> set (hand task part)"
    if "buffered_at (svc_queues s') topic = buffered_at (svc_queues (k_services k)) topic" for part
  proof -
    have "on_partition part (told finished_in es) @ hand task' part = hand task part"
      using order that by (simp add: keeps_order_def)
    then show ?thesis by (metis set_append sup_ge2)
  qed
  have taken: "set (hand task' part) \<subseteq> insert m (set (hand task part))"
    if "receive (svc_queues (k_services k)) topic = Some (m, q)" "svc_queues s' = q" "es = []" for m q part
  proof -
    have "hand task' part @ on_partition part (buffered_at q topic)
        = (hand task part @ on_partition part [m]) @ on_partition part (buffered_at q topic)"
      using order that receive_queue(1) [OF that(1)] by (simp add: keeps_order_def)
    then have "hand task' part = hand task part @ on_partition part [m]" by (simp only: append_same_eq)
    then show ?thesis by auto
  qed
  from assms(1) show ?thesis
  proof (cases rule: work_step_cases)
    case (take m q)
    with taken [of m q] assms(4) show ?thesis by fastforce
  next
    case (result m e r s1 action)
    have s': "s' = s1" using result(4) by (auto simp: after_result_def split: option.splits ExecutionAction.splits)
    have "m \<in> set (k_taken k)" using assms(4) [of "msg_partition m"] result(1) by simp
    moreover have "buffered_at (svc_queues s1) topic = buffered_at (svc_queues (k_services k)) topic"
      using result_queues(1) [OF result(3)] by (auto split: if_splits)
    moreover have "told succeeded_in es = (if r = ExOk then [m] else [])" "consumer_stores es = []"
      using result_queues(2) [OF result(3)] result(4)
      by (cases "(m, action)" rule: fate_of.cases; auto simp: after_result_def)+
    ultimately show ?thesis using kept assms(4) result s'
      by (auto simp del: handle_execution_result.simps)
  next
    case (message l ks now m q l' bs)
    with taken [of m q] assms(4) show ?thesis by fastforce
  next
    case (flush l part ms bs e answer)
    have ms: "ms \<noteq> []" "list_all (at_place (topic, part)) ms" "set ms \<subseteq> set (k_taken k)"
      using assms(2,4) unfolding flush(1) task_wf_def by (auto dest: spec [where x = part])
    then have "batch_taken (k_taken k) ms" "msg_partition (hd ms) = part"
      by (auto simp: batch_taken_def list_all_iff at_place_def)
    moreover have "set (hand task' part') \<subseteq> set (k_taken k)" for part'
      using kept [of part'] batch_queues [OF flush(3) ms(1)] assms(4) [of part'] by auto
    ultimately show ?thesis using flush by auto
  qed (use kept assms(4) in auto)
qed

lemma program_simulated:
  assumes "ordered p" "same_run fs k p" "program_step rt utf8 cfg p ev = Some (Inr p')"
  shows "\<exists>k'. res_foldl (kafpy_step rt utf8 cfg) k (pipeline_events p ev) = Inr k'
     \<and> same_run (fs @ pipeline_events p ev) k' p'"
proof (cases ev)
  case (PDispatch c chan m)
  obtain d calls where d: "dispatch_message c chan (dispatcher_of p) m = (d, calls)" by (metis surj_pair)
  have "queue_manager d = fst (send chan (svc_queues (pg_services p)) m)"
    using dispatch_queue [of c chan "dispatcher_of p" m] d by simp
  with assms(2,3) PDispatch d show ?thesis by (auto simp: same_run_def handled_append Let_def)
next
  case (PWork i inp)
  obtain topic task where w: "pg_workers p ! i = (topic, task)" by (metis surj_pair)
  from assms(3) PWork w obtain s task' es where i: "i < length (pg_workers p)"
    "work_step rt utf8 i topic (pg_token p) (pg_services p) task inp = Some (Inr (s, task', es))"
    "p' = traced es (p\<lparr>pg_services := s, pg_workers := (pg_workers p)[i := (topic, task')]\<rparr>)"
    by (auto split: if_splits)
  have k: "k_services k = pg_services p" "\<And>t x part. (t, x) \<in> set (pg_workers p) \<Longrightarrow> set (hand x part) \<subseteq> set (k_taken k)"
    using assms(2) by (auto simp: same_run_def all_taken_def)
  have "(topic, task) \<in> set (pg_workers p)" using i(1) w by (metis nth_mem)
  with work_simulated [of rt utf8 i topic "pg_token p" k task inp s task' es cfg] i(2) k worker_task_wf [OF assms(1) i(1) w] assms(1)
  obtain k' where k': "res_foldl (kafpy_step rt utf8 cfg) k (work_events i topic task inp) = Inr k'" "k_services k' = s"
    "k_committer k' = k_committer k" "k_calls k' = k_calls k" "set (k_taken k) \<subseteq> set (k_taken k')"
    "\<And>part. set (hand task' part) \<subseteq> set (k_taken k')"
    "handled (work_events i topic task inp) = told succeeded_in es" "consumer_stores es = []"
    by (auto simp: ordered_def program_wf_def)
  have "set (hand x part) \<subseteq> set (k_taken k')" if "(t, x) \<in> set ((pg_workers p)[i := (topic, task')])" for t x part
    using that set_update_subset_insert [of "pg_workers p" i "(topic, task')"] k(2) [of t x part] k'(5,6) by blast
  then have "all_taken ((pg_workers p)[i := (topic, task')]) (k_taken k')" by (simp add: all_taken_def)
  with k' assms(2) i(3) w show ?thesis by (auto simp: PWork same_run_def handled_append)
next
  case (PCommit broker ks now inp)
  obtain go st calls where r: "committer_round broker cfg (pg_coordinator p) ks (svc_offsets (pg_services p)) (pg_committer p) now inp
      = (go, st, calls)" by (metis prod_cases3)
  with assms(2,3) PCommit show ?thesis by (auto simp: same_run_def handled_append split: if_splits)
next
  case (PRebalance store_ok r)
  with assms(2,3) show ?thesis by (auto simp: same_run_def Let_def split: prod.splits)
next
  case (PStop r)
  with assms(2,3) show ?thesis by (auto simp: same_run_def split: if_splits)
next
  case (PShutdown e ks)
  have "concat (map store_in (graceful_shutdown ks t)) = []" for t
    by (simp add: graceful_shutdown_stores_nothing)
  with PShutdown assms(2,3) show ?thesis
    by (auto simp: same_run_def handled_append pool_shutdown_phases split: if_splits)
next
  case (PLetter broker)
  with assms(2,3) show ?thesis by (auto simp: same_run_def handled_append split: list.splits)
qed

interpretation refines_pipeline: step_simulation "program_step rt utf8 cfg" ordered "kafpy_step rt utf8 cfg"
    same_run pipeline_events for rt utf8 cfg
  by unfold_locales (rule program_simulated)

section \<open>Watermarks of the program\<close>

definition covered :: "trace_entry list \<Rightarrow> string \<Rightarrow> i32 \<Rightarrow> i64 \<Rightarrow> bool" where
  \<comment> \<open>from the first success of the partition up to the offset, every message was accepted and handled without error\<close>
  "covered tr topic part offset \<longleftrightarrow>
     (case find (at_place (topic, part)) (told succeeded_in tr) of
        None \<Rightarrow> False
      | Some m \<Rightarrow> msg_offset m \<le> offset
          \<and> list_all (\<lambda>x. list_ex (\<lambda>m'. place m' = (topic, part, x) \<and> m' \<in> set (told accepted_in tr)) (told succeeded_in tr))
               [msg_offset m..offset])"

lemma find_append: "find P (xs @ ys) = (case find P xs of None \<Rightarrow> find P ys | Some x \<Rightarrow> Some x)"
  by (induction xs) auto

lemma covered_append: "covered tr topic part offset \<Longrightarrow> covered (tr @ tr') topic part offset"
  unfolding covered_def by (auto simp: find_append list_all_iff list_ex_iff split: option.splits)

lemma runs_same:
  assumes "RuntimeBuilder_build out ks config c g = Inr (Inr (rt, g'))" "distinct ks"
    "runs (program_step rt' utf8 cfg) (program_new rt) es p"
  shows "\<exists>fs k. res_foldl (kafpy_step rt' utf8 cfg) (rt_kafpy rt) fs = Inr k \<and> same_run fs k p"
proof -
  have "all_taken (pg_workers (program_new rt)) []"
    using task_new_wf(2) by (auto simp: all_taken_def program_new_def)
  then have "same_run [] (rt_kafpy rt) (program_new rt)"
    using build_initial [OF assms(1)] by (auto simp: same_run_def program_new_def kafpy_new_def)
  with refines_pipeline.runs_simulated [OF assms(3) program_new_ordered [OF assms(1,2)]] show ?thesis by blast
qed

lemma succeeded_finished: "set (succeeded_in e) \<subseteq> set (finished_in e)"
  by (cases e) auto

lemma succeeded_accepted:
  assumes "ordered p" "m \<in> set (told succeeded_in (pg_trace p))"
  shows "m \<in> set (told accepted_in (pg_trace p))"
proof -
  let ?k = "(msg_topic m, msg_partition m)"
  have "m \<in> set (told finished_in (pg_trace p))" using assms(2) succeeded_finished by (fastforce simp: told_def)
  then have "m \<in> set (finished_of p ?k)" by (simp add: finished_of_def at_place_def)
  then have "m \<in> set (accepted_of p ?k)" using assms(1) by (simp add: ordered_def)
  then show ?thesis by (simp add: accepted_of_def)
qed

lemma watermark_covered:
  assumes "RuntimeBuilder_build out ks config c g = Inr (Inr (rt, g'))" "distinct ks"
    "runs (program_step rt' utf8 cfg) (program_new rt) es p"
    "highest_contiguous (svc_offsets (pg_services p)) topic part = Some w"
  shows "covered (pg_trace p) topic part w"
proof -
  obtain fs k where k: "res_foldl (kafpy_step rt' utf8 cfg) (rt_kafpy rt) fs = Inr k" "same_run fs k p"
    using runs_same [OF assms(1-3)] by blast
  have "explained fs k"
    using k(1) build_initial [OF assms(1)] by (auto intro: explained_run [OF empty_fresh_queues])
  then obtain tes where tes: "tracker_run tes = Inr (svc_offsets (pg_services p))"
    "tracker_acks tes = map place (told succeeded_in (pg_trace p))"
    using k(2) by (auto simp: explained_def same_run_def)
  from tracker_watermarkE [OF tes(1) assms(4)] obtain b where b:
    "first_ack (events_of (topic, part) tes) = Some b" "b \<le> w" "{b..w} \<subseteq> acked_offsets (events_of (topic, part) tes)" by blast
  have o: "ordered p" using program_order.runs_inv [OF assms(3) program_new_ordered [OF assms(1,2)]] .
  have "at_place (topic, part) = (\<lambda>m. msg_topic m = topic \<and> msg_partition m = part)"
    by (auto simp: at_place_def)
  with first_ack_tracker [OF tes(2)] b(1) obtain m where m: "find (at_place (topic, part)) (told succeeded_in (pg_trace p)) = Some m"
    "msg_offset m = b" by auto
  have "list_ex (\<lambda>m'. place m' = (topic, part, x) \<and> m' \<in> set (told accepted_in (pg_trace p))) (told succeeded_in (pg_trace p))"
    if "x \<in> {b..w}" for x
  proof -
    from that b(3) have "(topic, part, x) \<in> set (map place (told succeeded_in (pg_trace p)))"
      by (auto simp: acked_offsets_tracker tes(2))
    with succeeded_accepted [OF o] show ?thesis by (auto simp: list_ex_iff)
  qed
  with m b(2) show ?thesis by (auto simp: covered_def list_all_iff)
qed

section \<open>Offsets handed to the client\<close>

fun stores :: "program_call \<Rightarrow> (string \<times> i32 \<times> i64) option" where
  "stores (ToConsumer (StoreOffset topic part x)) = Some (topic, part, x)"
| "stores (ToRebalance (RStore topic part x)) = Some (topic, part, x)"
| "stores _ = None"

lemma stores_iff: "stores call = Some (topic, part, x) \<longleftrightarrow>
    call = ToConsumer (StoreOffset topic part x) \<or> call = ToRebalance (RStore topic part x)"
  by (cases call rule: stores.cases) auto

lemma step_stores:
  assumes "program_step rt utf8 cfg p ev = Some (Inr p')"
  shows "\<exists>es. pg_trace p' = pg_trace p @ es \<and> (\<forall>call topic part x. Called call \<in> set es \<longrightarrow> stores call = Some (topic, part, x)
     \<longrightarrow> highest_contiguous (svc_offsets (pg_services p)) topic part = Some x)"
proof (cases ev)
  case (PDispatch c chan m)
  with assms show ?thesis by (auto simp: stores_iff Let_def split: prod.splits)
next
  case (PWork i inp)
  obtain topic task where w: "pg_workers p ! i = (topic, task)" by (metis surj_pair)
  from assms PWork w obtain s task' es where i:
    "work_step rt utf8 i topic (pg_token p) (pg_services p) task inp = Some (Inr (s, task', es))"
    "pg_trace p' = pg_trace p @ es"
    by (auto split: if_splits)
  have "Called call \<notin> set es" for call
    using i(1)
  proof (cases rule: work_step_cases)
    case (result m e r s1 action)
    then show ?thesis by (cases "(m, action)" rule: fate_of.cases) (auto simp: after_result_def)
  qed (auto simp: batch_fates_def)
  with i(2) show ?thesis by blast
next
  case (PCommit broker ks now inp)
  obtain go st calls where r: "committer_round broker cfg (pg_coordinator p) ks (svc_offsets (pg_services p)) (pg_committer p) now inp
      = (go, st, calls)" by (metis prod_cases3)
  with assms PCommit have "pg_trace p' = pg_trace p @ map (Called \<circ> ToConsumer) calls" by (auto split: if_splits)
  with round_stores_watermark [OF r] show ?thesis by (auto simp: stores_iff)
next
  case (PRebalance store_ok r)
  let ?t = "svc_offsets (pg_services p)"
  obtain ctx calls where pre: "pre_rebalance store_ok ?t (pg_context p) r = (ctx, calls)" by (metis surj_pair)
  with assms PRebalance have "pg_trace p' = pg_trace p @ map (Called \<circ> ToRebalance) (calls @ post_rebalance ?t ctx r)"
    by (auto simp: Let_def)
  moreover have "RStore topic part x \<in> set (calls @ post_rebalance ?t ctx r) \<Longrightarrow> highest_contiguous ?t topic part = Some x"
    for topic part x
    using arg_cong [OF pre, of snd] revoke_stores [of topic part x store_ok ?t "pg_context p"] assign_only_seeks [of "RStore topic part x" ?t ctx]
    by (cases r) auto
  ultimately show ?thesis by (auto simp: stores_iff)
next
  case (PStop r)
  with assms show ?thesis by (auto split: if_splits)
next
  case (PShutdown e ks)
  then show ?thesis using assms
    by (auto simp: pool_shutdown_phases graceful_shutdown_stores_nothing stores_iff split: if_splits)
next
  case (PLetter broker)
  with assms show ?thesis by (auto simp: stores_iff split: list.splits)
qed

lemma stores_covered:
  assumes "RuntimeBuilder_build out ks config c g = Inr (Inr (rt, g'))" "distinct ks"
    "runs (program_step rt' utf8 cfg) (program_new rt) es p" "pg_trace p = before @ Called call # later"
    "stores call = Some (topic, part, offset)"
  shows "covered before topic part offset"
  using assms(3,4)
proof (induction es arbitrary: p later rule: rev_induct)
  case Nil
  then show ?case by (simp add: program_new_def)
next
  case (snoc ev es)
  then obtain p1 where p1: "runs (program_step rt' utf8 cfg) (program_new rt) es p1" "program_step rt' utf8 cfg p1 ev = Some (Inr p)"
    by (auto simp: runs_snoc_iff)
  from step_stores [OF p1(2)] obtain new where new: "pg_trace p = pg_trace p1 @ new"
    "Called call \<in> set new \<Longrightarrow> highest_contiguous (svc_offsets (pg_services p1)) topic part = Some offset"
    using assms(5) by blast
  from snoc.prems(2) new(1) have "before @ Called call # later = pg_trace p1 @ new" by simp
  then consider (old) mid where "before @ Called call # mid = pg_trace p1"
    | (fresh) mid where "before = pg_trace p1 @ mid" "Called call \<in> set new"
    by (auto simp: append_eq_append_conv2 Cons_eq_append_conv)
  then show ?case
  proof cases
    case old
    from snoc.IH [OF p1(1) old [symmetric]] show ?thesis .
  next
    case fresh
    from covered_append [OF watermark_covered [OF assms(1,2) p1(1) new(2) [OF fresh(2)]]] fresh(1) show ?thesis by simp
  qed
qed

section \<open>The theorem\<close>

text \<open>
  C7 (refinement). Every run of a program that was built, with its dispatcher, workers, committer,
  rebalances and shutdown, is a run of the abstract pipeline from the same initial state: the
  two agree on the queues, the tracker, the retry state and the dead letters, on the state of the
  committer, on the messages that Python handled without error and, in order, on every offset that the committer hands to
  the broker.
\<close>

theorem program_refines_pipeline:
  assumes "RuntimeBuilder_build out ks config c g = Inr (Inr (rt, g'))" "iterates ks (pc_handlers c)"
    "runs (program_step rt' utf8 cfg) (program_new rt) es p"
  shows "\<exists>fs k. res_foldl (kafpy_step rt' utf8 cfg) (rt_kafpy rt) fs = Inr k
     \<and> k_services k = pg_services p \<and> k_committer k = pg_committer p
     \<and> handled fs = told succeeded_in (pg_trace p)
     \<and> concat (map store_in (k_calls k)) = consumer_stores (pg_trace p)"
proof -
  have "distinct ks" using assms(2) by (simp add: iterates_def)
  from runs_same [OF assms(1) this assms(3)] show ?thesis by (auto simp: same_run_def)
qed

theorem program_refines_pipeline_witness:
  "\<exists>(rt :: Runtime) fs k. res_foldl (kafpy_step (route (rt_router rt)) (\<lambda>b. []) (rt_commit_config rt)) (rt_kafpy rt) fs = Inr k
     \<and> handled fs = [sample_message ''t'' 4] \<and> concat (map store_in (k_calls k)) = [(''t'', 0, 4)]"
proof -
  obtain rt p where rt: "RuntimeBuilder_build calm_outside [''t''] sample_py_config one_consumer snapshot_globals_new
       = Inr (Inr (rt, RuntimeSnapshotTask_spawn snapshot_globals_new))"
    "runs (program_step (route (rt_router rt)) (\<lambda>b. []) (rt_commit_config rt)) (program_new rt) sample_program_events p"
    "pg_trace p = [Accepted (sample_message ''t'' 4), Succeeded (sample_message ''t'' 4), Accepted (sample_message ''t'' 5),
         Called (ToConsumer (StoreOffset ''t'' 0 4)), Called (ToConsumer CommitState)]"
    using sample_started by blast
  from program_refines_pipeline [OF rt(1) iterates_one_consumer rt(2)] show ?thesis
    by (auto simp: rt(3))
qed

end
