(* ===== verification/Progress.thy ===== *)
theory Progress
  imports Refinement
begin

text \<open>
  The other half of at-least-once: what Python has handled does get committed. As long as the offsets of a
  partition are accepted in increasing order and none of its messages is dead-lettered, the tracker loses
  no success, whatever was retried in between; once the workers are at rest, the next due round of the
  committer stores the last offset.
\<close>

section \<open>The tracker keeps successes\<close>

definition keeps :: "OffsetTracker \<Rightarrow> TopicPartitionKey \<Rightarrow> i64 set \<Rightarrow> bool" where
  \<comment> \<open>every success of the partition is below the watermark or pending, and nothing blocks the partition\<close>
  "keeps t k S \<longleftrightarrow>
     (case partitions t k of None \<Rightarrow> S = {}
      | Some s \<Rightarrow> 0 \<le> committed_offset s \<and> \<not> has_terminal s \<and> committed_offset s + 1 |\<notin>| pending_offsets s
          \<and> S \<subseteq> {..committed_offset s} \<union> fset (pending_offsets s))"

lemma keeps_other: "partitions t' k = partitions t k \<Longrightarrow> keeps t' k S = keeps t k S"
  by (simp add: keeps_def)

lemma ack_keeps:
  assumes "keeps t k S" "record_ack t topic part x = Inr t'"
  shows "keeps t' k (if k = (topic, part) then insert x S else S)"
proof (cases "k = (topic, part)")
  case True
  define s where "s = (case partitions t k of Some s \<Rightarrow> s | None \<Rightarrow> PartitionState_new)"
  from assms(2) True have t': "partitions t' k = Some (PartitionState_ack s x)" and x: "0 \<le> x"
    by (auto simp: record_ack_def OffsetTracker_ack_def s_def split: if_splits)
  define start where "start = (if committed_offset s = -1 then x - 1 else committed_offset s)"
  obtain c P where a: "advance start (finsert x (pending_offsets s)) = (c, P)" "start \<le> c"
    "fset P = fset (finsert x (pending_offsets s)) - {start<..c}" "c + 1 |\<notin>| P"
    by (rule advanceE)
  have ack: "PartitionState_ack s x = s\<lparr>committed_offset := c, pending_offsets := P, failed_offsets := failed_offsets s |-| {|x|}\<rparr>"
    by (simp add: PartitionState_ack_def a(1) start_def [symmetric])
  have old: "\<not> has_terminal s" "S \<subseteq> {..start} \<union> fset (pending_offsets s)" "0 \<le> c"
    using assms(1) a(2) x ack_committed_ge [OF x, of s] ack
    by (auto simp: keeps_def s_def start_def PartitionState_new_def split: option.splits)
  then have "insert x S \<subseteq> {..c} \<union> fset P" using a(2,3) by auto
  with old a(4) have "keeps t' k (insert x S)" by (simp add: keeps_def t' ack)
  with True show ?thesis by simp
next
  case False
  then have "partitions t' k = partitions t k"
    using assms(2) by (auto simp: record_ack_def OffsetTracker_ack_def Let_def split: if_splits)
  from keeps_other [OF this, of S] assms(1) False show ?thesis by simp
qed

lemma fail_keeps:
  assumes "keeps t k S" "k = (topic, part) \<Longrightarrow> x \<notin> S \<and> category reason \<noteq> TerminalCat"
  shows "keeps (OffsetCoordinator_mark_failed t topic part x reason) k S"
  using assms by (auto simp: keeps_def OffsetCoordinator_mark_failed_def partition_fail_def PartitionState_mark_failed_def
      split: option.splits)

lemma acks_keep:
  "res_foldl tracker_step t (map (\<lambda>m. TAck topic part (msg_offset m)) ms) = Inr t' \<Longrightarrow> keeps t k S
     \<Longrightarrow> keeps t' k (if k = (topic, part) then S \<union> msg_offset ` set ms else S)"
proof (induction ms arbitrary: t S)
  case (Cons m ms)
  then obtain t1 where t1: "record_ack t topic part (msg_offset m) = Inr t1"
    "res_foldl tracker_step t1 (map (\<lambda>m. TAck topic part (msg_offset m)) ms) = Inr t'" by auto
  from Cons.IH [OF t1(2) ack_keeps [OF Cons.prems(2) t1(1)]] show ?case by (auto split: if_splits)
qed auto

lemma fails_elsewhere_keep:
  "res_foldl tracker_step t (map (\<lambda>m. TFail topic part (msg_offset m) reason) ms) = Inr t' \<Longrightarrow> keeps t k S
     \<Longrightarrow> k \<noteq> (topic, part) \<Longrightarrow> keeps t' k S"
proof (induction ms arbitrary: t)
  case (Cons m ms)
  with fail_keeps [of t k S topic part "msg_offset m" reason] show ?case by simp
qed simp

section \<open>The program keeps successes\<close>

fun letters_in :: "trace_entry \<Rightarrow> OwnedMessage list" where
  "letters_in (DeadLettered m) = [m]"
| "letters_in _ = []"

definition letters_of :: "program \<Rightarrow> TopicPartitionKey \<Rightarrow> OwnedMessage list" where
  "letters_of p k = filter (at_place k) (told letters_in (pg_trace p))"

definition succeeded_of :: "program \<Rightarrow> TopicPartitionKey \<Rightarrow> OwnedMessage list" where
  "succeeded_of p k = filter (at_place k) (told succeeded_in (pg_trace p))"

lemma result_keeps:
  assumes "handle_execution_result e rt (worker_context utf8 i m) m r s = Inr (s', action)" "keeps (svc_offsets s) k S"
    "at_place k m \<Longrightarrow> msg_offset m \<notin> S" "at_place k m \<Longrightarrow> action \<noteq> Some DlqAction"
  shows "keeps (svc_offsets s') k (if at_place k m \<and> action = None then insert (msg_offset m) S else S)"
proof (cases "r = ExOk")
  case True
  with assms(1) have a: "action = None" "record_ack (svc_offsets s) (msg_topic m) (msg_partition m) (msg_offset m) = Inr (svc_offsets s')"
    by (auto simp: Let_def)
  from ack_keeps [OF assms(2) a(2)] a(1) show ?thesis by (auto simp: at_place_def split: if_splits)
next
  case False
  then obtain reason name where r: "failure_of r = Inr reason"
    "handle_execution_result e rt (worker_context utf8 i m) m r s = fail_with e rt (worker_context utf8 i m) m r reason name s"
    by (rule failing_result)
  from r(2) assms(1) have "fail_with e rt (worker_context utf8 i m) m r reason name s = Inr (s', action)" by simp
  from fail_with_cases [OF r(1) this] obtain rc retry dlq delay where f:
    "record_failure e (svc_retry s) (msg_topic m) (msg_partition m) (msg_offset m) reason = Inr (rc, retry, dlq, delay)"
    "svc_offsets s' = OffsetCoordinator_mark_failed (svc_offsets s) (msg_topic m) (msg_partition m) (msg_offset m) reason"
    "action \<noteq> None" "\<not> retry \<Longrightarrow> action = Some DlqAction"
    by (metis (no_types, lifting) option.distinct(1) worker_context_place)
  have "keeps (svc_offsets s') k S" unfolding f(2)
  proof (rule fail_keeps [OF assms(2)])
    assume "k = (msg_topic m, msg_partition m)"
    then have at: "at_place k m" by (simp add: at_place_def)
    with assms(4) f(4) have retry by blast
    with record_failure_decision(1,3) [OF f(1)] have "category reason \<noteq> TerminalCat" by auto
    with assms(3) [OF at] show "msg_offset m \<notin> S \<and> category reason \<noteq> TerminalCat" by blast
  qed
  with f(3) show ?thesis by auto
qed

lemma work_keeps:
  assumes "work_step rt utf8 i topic cancelled s task inp = Some (Inr (s', task', es))" "task_wf topic task"
    "keeps (svc_offsets s) (t, part) S" "filter (at_place (t, part)) (told letters_in es) = []"
    "\<And>m. t = topic \<Longrightarrow> m \<in> set (hand task part) \<Longrightarrow> msg_offset m \<notin> S"
  shows "keeps (svc_offsets s') (t, part) (S \<union> msg_offset ` set (filter (at_place (t, part)) (told succeeded_in es)))"
  using assms(1)
proof (cases rule: work_step_cases)
  case (result m e r s1 action)
  have topic: "msg_topic m = topic" using assms(2) result(1) by (auto simp: task_wf_def at_place_def split: if_splits)
  have es: "s' = s1" "filter (at_place (t, part)) (told succeeded_in es) = (if at_place (t, part) m \<and> action = None then [m] else [])"
    "action = Some DlqAction \<Longrightarrow> told letters_in es = [m]"
    using result(4) by (cases "(m, action)" rule: fate_of.cases; auto simp: after_result_def)+
  have "at_place (t, part) m \<Longrightarrow> msg_offset m \<notin> S"
    using assms(5) [of m] result(1) topic by (simp add: at_place_def)
  moreover have "at_place (t, part) m \<Longrightarrow> action \<noteq> Some DlqAction" using assms(4) es(3) by auto
  ultimately show ?thesis using result_keeps [OF result(3) assms(3)] es(1,2) by (auto split: if_splits)
next
  case (flush l part' ms bs e answer)
  have ms: "ms \<noteq> []" "list_all (at_place (topic, part')) ms"
    using assms(2) unfolding flush(1) task_wf_def by (auto dest: spec [where x = part'])
  then have hd: "msg_topic (hd ms) = topic" by (cases ms) (auto simp: at_place_def)
  have all: "filter (at_place (t, part)) ms = (if (t, part) = (topic, part') then ms else [])"
    using ms(2) by (induction ms) (auto simp: at_place_def)
  from batch_effects [OF flush(3) ms(1)] hd obtain reason where st: "steps_to s
      (map (\<lambda>m. if answer = PyReturned then TAck topic part' (msg_offset m) else TFail topic part' (msg_offset m) reason) ms) s'"
    by metis
  show ?thesis
  proof (cases "answer = PyReturned")
    case True
    with acks_keep [OF _ assms(3), of topic part' ms "svc_offsets s'"] st all flush(5) show ?thesis
      by (auto simp: steps_to_def split: if_splits)
  next
    case False
    have "told letters_in (map DeadLettered ms) = ms" by (induction ms) simp_all
    with False flush(5) all assms(4) ms(1) have "(t, part) \<noteq> (topic, part')" by (auto simp: batch_fates_def split: if_splits)
    with False fails_elsewhere_keep [OF _ assms(3), of topic part' reason ms "svc_offsets s'"] st flush(5) show ?thesis
      by (simp add: steps_to_def)
  qed
qed (use assms(3) in simp_all)

text \<open>A held message of an increasing partition is new: nothing finished has its offset.\<close>

lemma held_is_new:
  assumes "ordered p" "sorted_wrt (<) (map msg_offset (accepted_of p k))" "m \<in> set (held p k)"
  shows "msg_offset m \<notin> msg_offset ` set (succeeded_of p k)"
proof -
  have "sorted_wrt (<) (map msg_offset (finished_of p k @ held p k @ waiting p k))"
    using assms(1,2) by (cases k) (simp add: ordered_def)
  then have "msg_offset m' < msg_offset m" if "m' \<in> set (finished_of p k)" for m'
    using that assms(3) by (fastforce simp: sorted_wrt_append)
  moreover have "set (succeeded_of p k) \<subseteq> set (finished_of p k)"
    using succeeded_finished by (fastforce simp: succeeded_of_def finished_of_def told_def)
  ultimately show ?thesis by fastforce
qed

lemma runs_keeps:
  assumes "runs (program_step rt utf8 cfg) p0 es p" "ordered p0" "pg_trace p0 = []" "partitions (svc_offsets (pg_services p0)) = Map.empty"
    "sorted_wrt (<) (map msg_offset (accepted_of p k))" "letters_of p k = []"
  shows "keeps (svc_offsets (pg_services p)) k (msg_offset ` set (succeeded_of p k))"
  using assms
proof (induction rule: runs.induct)
  case (runs_nil p)
  then show ?case by (simp add: keeps_def succeeded_of_def)
next
  case (runs_snoc p0 es p1 ev p2)
  have o: "ordered p1" by (rule program_order.runs_inv [OF runs_snoc.hyps(1) runs_snoc.prems(1)])
  obtain new where new: "pg_trace p2 = pg_trace p1 @ new" using step_stores [OF runs_snoc.hyps(2)] by blast
  have inc: "sorted_wrt (<) (map msg_offset (accepted_of p1 k))" and "letters_of p1 k = []"
    using runs_snoc.prems(4,5) by (simp_all add: new accepted_of_def letters_of_def sorted_wrt_append)
  with runs_snoc.IH runs_snoc.prems(1-3) have ih: "keeps (svc_offsets (pg_services p1)) k (msg_offset ` set (succeeded_of p1 k))"
    by blast
  have S: "msg_offset ` set (succeeded_of p2 k)
      = msg_offset ` set (succeeded_of p1 k) \<union> msg_offset ` set (filter (at_place k) (told succeeded_in new))"
    by (auto simp: succeeded_of_def new)
  from runs_snoc.hyps(2) show ?case
  proof (cases rule: program_step_cases)
    case (dispatch c chan m d calls)
    with ih show ?thesis by (simp add: succeeded_of_def with_dispatcher_def)
  next
    case (work i inp topic task s task' tr)
    obtain t part where k: "k = (t, part)" by (metis surj_pair)
    have tr: "new = tr" using work(6) new by simp
    have "msg_offset m \<notin> msg_offset ` set (succeeded_of p1 k)" if "t = topic" "m \<in> set (hand task part)" for m
    proof -
      have "held p1 k = hand task part"
        using of_topic_worker(2) [OF _ work(2,4)] o that(1) by (simp add: held_def ordered_def program_wf_def k)
      with held_is_new [OF o inc] that(2) show ?thesis by simp
    qed
    moreover have "filter (at_place (t, part)) (told letters_in tr) = []"
      using runs_snoc.prems(5) by (simp add: letters_of_def new tr k)
    ultimately show ?thesis
      using work_keeps [OF work(5) worker_task_wf [OF o work(2,4)] ih [unfolded k]] work(6) S unfolding k tr by simp
  next
    case (quiet calls)
    with ih show ?thesis by (simp add: succeeded_of_def)
  qed
qed

section \<open>What is handled is committed\<close>

lemma finished_succeeded:
  assumes "fates_ok p" "\<not> pg_token p" "letters_of p k = []"
  shows "finished_of p k = succeeded_of p k"
proof -
  have "filter (at_place k) (finished_in e) = filter (at_place k) (succeeded_in e)" if "e \<in> set (pg_trace p)" for e
  proof (cases e)
    case (DeadLettered m)
    with that assms(3) show ?thesis by (fastforce simp: letters_of_def told_def filter_empty_conv)
  qed (use that assms in \<open>auto simp: fates_ok_def\<close>)
  then show ?thesis by (simp add: finished_of_def succeeded_of_def told_def filter_concat comp_def cong: map_cong)
qed

lemma covered_range:
  assumes "covered tr topic part w"
  shows "w \<in> msg_offset ` set (filter (at_place (topic, part)) (told succeeded_in tr))"
proof -
  from assms obtain m where m: "find (at_place (topic, part)) (told succeeded_in tr) = Some m" "msg_offset m \<le> w"
    by (auto simp: covered_def split: option.splits)
  with assms have "list_ex (\<lambda>m'. place m' = (topic, part, w) \<and> m' \<in> set (told accepted_in tr)) (told succeeded_in tr)"
    by (simp add: covered_def list_all_iff)
  then obtain m' where "m' \<in> set (told succeeded_in tr)" "place m' = (topic, part, w)" by (auto simp: list_ex_iff)
  then show ?thesis by (force simp: place_def at_place_def)
qed

lemma round_stores:
  assumes "committer_round broker cfg coord parts t st now Tick = (go, st', calls)" "CommitterState_should_commit cfg st now"
    "iterates parts (partitions t)" "OffsetTracker_should_commit t topic part" "highest_contiguous t topic part = Some x"
  shows "StoreOffset topic part x \<in> set calls"
proof -
  have "(topic, part) \<in> set parts"
    using should_commit_registered [OF assms(4)] assms(3) by (auto simp: iterates_def)
  then have "(topic, part, x) \<in> set (ready_partitions t (all_partitions parts t))"
    using should_commit_registered [OF assms(4)] assms(4,5)
    by (auto simp: ready_partitions_mem all_partitions_def)
  moreover have "StoreOffset topic part x \<in> set (commit_partition broker topic part x)"
    by (simp add: commit_partition_def)
  ultimately show ?thesis
    using assms(1,2) by (force simp: committer_round_def process_ready_partitions_def split: if_splits)
qed

text \<open>
  The watermark of a partition whose messages were accepted with consecutive offsets and all handled.
\<close>

lemma drained_watermark:
  assumes "RuntimeBuilder_build out ks config c g = Inr (Inr (rt, g'))" "distinct ks"
    "runs (program_step rt' utf8 cfg) (program_new rt) es p" "letters_of p (topic, part) = []"
    "map msg_offset (succeeded_of p (topic, part)) = [b..x]" "accepted_of p (topic, part) = succeeded_of p (topic, part)" "b \<le> x"
  shows "highest_contiguous (svc_offsets (pg_services p)) topic part = Some x
     \<and> OffsetTracker_should_commit (svc_offsets (pg_services p)) topic part"
proof -
  let ?t = "svc_offsets (pg_services p)" and ?k = "(topic, part)"
  have S: "msg_offset ` set (succeeded_of p ?k) = {b..x}" using arg_cong [OF assms(5), of set] by simp
  have "sorted_wrt (<) [b..x]" by (simp add: strict_sorted_iff)
  then have "keeps ?t ?k {b..x}"
    using runs_keeps [OF assms(3) program_new_ordered [OF assms(1,2)] _ _ _ assms(4)] build_initial [OF assms(1)] assms(5,6)
    by (simp add: S program_new_def kafpy_new_def services_new_def OffsetTracker_new_def)
  then obtain s where s: "partitions ?t ?k = Some s" "0 \<le> committed_offset s" "\<not> has_terminal s"
    "committed_offset s + 1 |\<notin>| pending_offsets s" "{b..x} \<subseteq> {..committed_offset s} \<union> fset (pending_offsets s)"
    using assms(7) by (auto simp: keeps_def split: option.splits)
  let ?w = "committed_offset s"
  have w: "highest_contiguous ?t topic part = Some ?w" by (simp add: highest_contiguous_def s(1))
  from covered_range [OF watermark_covered [OF assms(1-3) w]] have "?w \<in> msg_offset ` set (succeeded_of p ?k)"
    by (simp add: succeeded_of_def)
  then have "b \<le> ?w" "?w \<le> x" by (simp_all add: S)
  moreover have "\<not> ?w < x"
  proof
    assume "?w < x"
    then have "?w + 1 \<in> {b..x}" using \<open>b \<le> ?w\<close> by simp
    with s(4,5) show False by auto
  qed
  ultimately have "?w = x" by simp
  with w s show ?thesis by (auto simp: OffsetTracker_should_commit_def)
qed

text \<open>
  C2 (liveness). What is delivered gets committed. Take any run of a program that was built, up to a point where no worker can
  take a step, which the workers left alone reach in boundedly many steps. If the messages of a partition were accepted
  with consecutive offsets, were retried as often as needed but not dead-lettered, and their worker is alive, then the next round of the
  committer that the throttle lets through stores the last of these offsets, whatever else the program did.
\<close>

theorem delivered_messages_get_committed:
  assumes "RuntimeBuilder_build out ks config c g = Inr (Inr (rt, g'))" "iterates ks (pc_handlers c)"
    "runs (program_step (route (rt_router rt)) utf8 (rt_commit_config rt)) (program_new rt) es p"
    "at_rest (route (rt_router rt)) utf8 (rt_commit_config rt) p" "\<not> pg_pool_down p"
    "(topic, task) \<in> set (pg_workers p)" "task \<noteq> Ended"
    "map msg_offset (accepted_of p (topic, part)) = [b..x]" "b \<le> x" "letters_of p (topic, part) = []"
    "iterates parts (partitions (svc_offsets (pg_services p)))"
    "CommitterState_should_commit (rt_commit_config rt) (pg_committer p) now"
    "program_step (route (rt_router rt)) utf8 (rt_commit_config rt) p (PCommit broker parts now Tick) = Some (Inr p')"
  shows "\<exists>calls. pg_trace p' = pg_trace p @ map (Called \<circ> ToConsumer) calls \<and> StoreOffset topic part x \<in> set calls"
proof -
  have ks: "distinct ks" using assms(2) by (simp add: iterates_def)
  have "ordered p" by (rule program_order.runs_inv [OF assms(3) program_new_ordered [OF assms(1) ks]])
  from rest_is_drained [OF this assms(5,4,6,7)] have rest: "accepted_of p (topic, part) = finished_of p (topic, part)" "\<not> pg_token p"
    by blast+
  have "fates_ok (program_new rt)" by (simp add: fates_ok_def program_new_def)
  from finished_succeeded [OF program_fates.runs_inv [OF assms(3) this] rest(2) assms(10)] rest(1)
  have succ: "accepted_of p (topic, part) = succeeded_of p (topic, part)" by simp
  note w = drained_watermark [OF assms(1) ks assms(3,10) assms(8) [unfolded succ] succ assms(9)]
  obtain go st calls where r: "committer_round broker (rt_commit_config rt) (pg_coordinator p) parts (svc_offsets (pg_services p))
      (pg_committer p) now Tick = (go, st, calls)" by (metis prod_cases3)
  from round_stores [OF r assms(12,11)] w have "StoreOffset topic part x \<in> set calls" by blast
  moreover have "pg_trace p' = pg_trace p @ map (Called \<circ> ToConsumer) calls"
    using assms(13) r by (auto split: if_splits)
  ultimately show ?thesis by blast
qed

definition sample_delivery :: "program_event list" where
  "sample_delivery = [PDispatch sample_client live_channel (sample_message ''t'' 4), PWork 0 WTake, PWork 0 (WResult plain_env ExOk)]"

lemma sample_delivered:
  "\<exists>p p'. run_of (program_step (route with_default_prefix) (\<lambda>b. []) CommitConfig_default)
       (sample_program policy (ShutdownCoordinator_new 30)) sample_delivery = Some p
     \<and> pg_trace p = [Accepted (sample_message ''t'' 4), Succeeded (sample_message ''t'' 4)]
     \<and> pg_workers p = [(''t'', Polling)] \<and> receive (svc_queues (pg_services p)) ''t'' = None
     \<and> \<not> pg_token p \<and> \<not> pg_pool_down p \<and> last_commit (pg_committer p) = None
     \<and> dom (partitions (svc_offsets (pg_services p))) = {(''t'', 0)}
     \<and> program_step (route with_default_prefix) (\<lambda>b. []) CommitConfig_default p (PCommit (\<lambda>c. True) [(''t'', 0)] 60 Tick) = Some (Inr p')"
  by (simp add: program_eval sample_delivery_def fresh_queues_def queue_capacity_def sample_py_config_def cong: res_bind_weak_cong)

theorem delivered_messages_get_committed_witness:
  "\<exists>(rt :: Runtime) p (p' :: program) calls. runs (program_step (route (rt_router rt)) (\<lambda>b. []) (rt_commit_config rt)) (program_new rt) sample_delivery p
     \<and> pg_trace p' = pg_trace p @ map (Called \<circ> ToConsumer) calls \<and> StoreOffset ''t'' 0 4 \<in> set calls"
proof -
  obtain rt g where rt: "RuntimeBuilder_build calm_outside [''t''] sample_py_config one_consumer snapshot_globals_new = Inr (Inr (rt, g))"
    "rt_commit_config rt = CommitConfig_default" "rt_router rt = with_default_prefix"
    "program_new rt = sample_program (RetryPolicy_default (\<lambda>x. x)) (ShutdownCoordinator_new 30)"
    using sample_built by blast
  let ?S = "program_step (route (rt_router rt)) (\<lambda>b. []) (rt_commit_config rt)"
  obtain p p' where p: "runs ?S (program_new rt) sample_delivery p"
    "pg_trace p = [Accepted (sample_message ''t'' 4), Succeeded (sample_message ''t'' 4)]"
    "pg_workers p = [(''t'', Polling)]" "receive (svc_queues (pg_services p)) ''t'' = None" "\<not> pg_token p" "\<not> pg_pool_down p"
    "last_commit (pg_committer p) = None" "dom (partitions (svc_offsets (pg_services p))) = {(''t'', 0)}"
    "?S p (PCommit (\<lambda>c. True) [(''t'', 0)] 60 Tick) = Some (Inr p')"
    using sample_delivered unfolding rt runs_run_of by blast
  have "map msg_offset (accepted_of p (''t'', 0)) = [4..4]" "letters_of p (''t'', 0) = []"
    by (simp_all add: accepted_of_def letters_of_def p(2) at_place_def sample_message_def)
  moreover have "iterates [(''t'', 0)] (partitions (svc_offsets (pg_services p)))" by (simp add: iterates_def p(8))
  moreover have "CommitterState_should_commit (rt_commit_config rt) (pg_committer p) 60"
    by (simp add: CommitterState_should_commit_def p(7))
  ultimately obtain calls where "pg_trace p' = pg_trace p @ map (Called \<circ> ToConsumer) calls" "StoreOffset ''t'' 0 4 \<in> set calls"
    using delivered_messages_get_committed [OF rt(1) iterates_one_consumer p(1) polling_rest [OF p(3-5)] p(6), of "''t''" Polling 0 4 4 "[(''t'', 0)]" 60 "\<lambda>c. True" p']
      p(3,9) by (auto simp del: program_step.simps)
  with p(1) show ?thesis by blast
qed

end
