(* ===== verification/DeadLetters.thy ===== *)
theory DeadLetters
  imports Progress "HOL-Library.Sublist"
begin

text \<open>
  What becomes of messages that fail for good: the letters in the channel of the dead-letter producer and
  those that its task has given to the Kafka producer (\<^verbatim>\<open>src/dlq/produce.rs\<close>), compared with the fates in the
  trace of the program.
\<close>

section \<open>Letters\<close>

definition is_letter :: "DefaultDlqRouter \<Rightarrow> OwnedMessage \<Rightarrow> DLQMessage \<Rightarrow> bool" where
  \<comment> \<open>the letter of a message: routed by its origin, with its payload and key, and its offset in a header\<close>
  "is_letter r m d \<longleftrightarrow> dlq_topic d = dlq_topic_prefix r @ msg_topic m \<and> dlq_partition d = msg_partition m
     \<and> dlq_original_topic d = msg_topic m \<and> dlq_payload d = (case msg_payload m of Some b \<Rightarrow> b | None \<Rightarrow> [])
     \<and> dlq_key d = msg_key m \<and> map_of (dlq_headers d) ''dlq.offset'' = Some (str_bytes (show_int (msg_offset m)))"

definition posted :: "DefaultDlqRouter \<Rightarrow> bool \<Rightarrow> OwnedMessage list \<Rightarrow> SharedDlqProducer \<Rightarrow> SharedDlqProducer \<Rightarrow> bool" where
  \<comment> \<open>the channel got letters of some of the messages, in order, and of all of them if there was room\<close>
  "posted r room ms q q' \<longleftrightarrow> (\<exists>kept L. dlq_queue q' = dlq_queue q @ L \<and> subseq kept ms
     \<and> list_all2 (is_letter r) kept L \<and> (room \<longrightarrow> kept = ms))"

lemma posted_none: "posted r room [] q q"
  by (auto simp: posted_def)

lemma posted_append:
  assumes "posted r room ms q q1" "posted r room' ms' q1 q2" "room'' \<Longrightarrow> room \<and> room'"
  shows "posted r room'' (ms @ ms') q q2"
proof -
  from assms(1) obtain k L where 1: "dlq_queue q1 = dlq_queue q @ L" "subseq k ms" "list_all2 (is_letter r) k L" "room \<longrightarrow> k = ms"
    by (auto simp: posted_def)
  from assms(2) obtain k' L' where 2: "dlq_queue q2 = dlq_queue q1 @ L'" "subseq k' ms'" "list_all2 (is_letter r) k' L'" "room' \<longrightarrow> k' = ms'"
    by (auto simp: posted_def)
  from 1 2 assms(3) show ?thesis unfolding posted_def
    by (intro exI [of _ "k @ k'"] exI [of _ "L @ L'"]) (auto intro: list_emb_append_mono list_all2_appendI)
qed

lemma posted_letter:
  assumes "orig_topic (original meta) = msg_topic m" "orig_partition (original meta) = msg_partition m"
    "orig_offset (original meta) = msg_offset m"
  shows "posted r (try_send_ok e DLQ_CHANNEL_CAPACITY (length (dlq_queue q))) [m] q (produce_letter e (route r) q m meta)"
proof (cases "try_send_ok e DLQ_CHANNEL_CAPACITY (length (dlq_queue q))")
  case True
  with assms show ?thesis
    by (auto simp: posted_def produce_letter_def produce_async_def route_def is_letter_def metadata_to_headers_def Let_def
        intro!: exI [of _ "[m]"])
next
  case False
  then show ?thesis by (auto simp: posted_def produce_letter_def produce_async_def Let_def)
qed

section \<open>What workers post\<close>

lemma result_posts:
  assumes "handle_execution_result e (route r) (worker_context utf8 i m) m result s = Inr (s', action)"
  shows "posted r (try_send_ok e DLQ_CHANNEL_CAPACITY (length (dlq_queue (svc_dlq s))))
     (if action = Some DlqAction then [m] else []) (svc_dlq s) (svc_dlq s')"
proof (cases "result = ExOk")
  case True
  with assms show ?thesis by (auto simp: Let_def posted_none)
next
  case False
  then obtain reason name where f: "failure_of result = Inr reason"
    "handle_execution_result e (route r) (worker_context utf8 i m) m result s
       = fail_with e (route r) (worker_context utf8 i m) m result reason name s"
    by (rule failing_result)
  from f(2) assms have "fail_with e (route r) (worker_context utf8 i m) m result reason name s = Inr (s', action)" by simp
  then show ?thesis
  proof (rule fail_with_cases [OF f(1)])
    fix rc retry dlq delay
    assume c: "if retry then action = Some (RetryAction (the delay)) \<and> svc_queues s' = svc_queues s \<and> svc_dlq s' = svc_dlq s
     else action = Some DlqAction \<and> svc_queues s' = QueueManager_ack (svc_queues s) (msg_topic m) 1
       \<and> svc_dlq s' = produce_letter e (route r) (svc_dlq s) m (failure_metadata e (worker_context utf8 i m) result reason rc)"
    show ?thesis
    proof (cases retry)
      case True
      with c show ?thesis by (simp add: posted_none)
    next
      case False
      with c posted_letter [of "failure_metadata e (worker_context utf8 i m) result reason rc" m r e "svc_dlq s"] show ?thesis
        by (simp add: failure_metadata_def DlqMetadata_new_def)
    qed
  qed
qed

lemma batch_fail_posts:
  assumes "batch_fail_one e (route r) (msg_topic m) (msg_partition m) reason s m = Inr s'"
  shows "posted r (try_send_ok e DLQ_CHANNEL_CAPACITY (length (dlq_queue (svc_dlq s)))) [m] (svc_dlq s) (svc_dlq s')"
proof -
  from assms obtain rc retry dlq delay where rf:
    "record_failure e (svc_retry s) (msg_topic m) (msg_partition m) (msg_offset m) reason = Inr (rc, retry, dlq, delay)"
    by (auto simp: batch_fail_one_def)
  from record_failure_decision(1) [OF rf] assms rf have
    s': "svc_dlq s' = produce_letter e (route r) (svc_dlq s) m (batch_metadata e (msg_topic m) (msg_partition m) reason rc (msg_offset m))"
    by (auto simp: batch_fail_one_def Let_def)
  show ?thesis
    unfolding s' by (rule posted_letter) (simp_all add: batch_metadata_def DlqMetadata_new_def)
qed

definition room_for :: "env \<Rightarrow> SharedDlqProducer \<Rightarrow> nat \<Rightarrow> bool" where
  \<comment> \<open>the channel takes the next letters\<close>
  "room_for e q n = list_all (try_send_ok e DLQ_CHANNEL_CAPACITY) [length (dlq_queue q)..<length (dlq_queue q) + n]"

lemma posted_length: "posted r True ms q q' \<Longrightarrow> length (dlq_queue q') = length (dlq_queue q) + length ms"
  by (auto simp: posted_def dest: list_all2_lengthD)

lemma posted_mono: "posted r room ms q q' \<Longrightarrow> (room' \<Longrightarrow> room) \<Longrightarrow> posted r room' ms q q'"
  unfolding posted_def by blast

lemma batch_posts:
  "res_foldl (batch_fail_one e (route r) topic part reason) s ms = Inr s' \<Longrightarrow> list_all (at_place (topic, part)) ms
     \<Longrightarrow> posted r (room_for e (svc_dlq s) (length ms)) ms (svc_dlq s) (svc_dlq s')"
proof (induction ms arbitrary: s)
  case (Cons m ms)
  then obtain s1 where s1: "batch_fail_one e (route r) topic part reason s m = Inr s1"
    "res_foldl (batch_fail_one e (route r) topic part reason) s1 ms = Inr s'" by auto
  from Cons.prems(2) have m: "msg_topic m = topic" "msg_partition m = part" by (simp_all add: at_place_def)
  note one = batch_fail_posts [of e r m reason s s1, unfolded m, OF s1(1)]
  have rest: "posted r (room_for e (svc_dlq s1) (length ms)) ms (svc_dlq s1) (svc_dlq s')"
    using Cons.IH [OF s1(2)] Cons.prems(2) by simp
  have "posted r (room_for e (svc_dlq s) (length (m # ms))) ([m] @ ms) (svc_dlq s) (svc_dlq s')"
  proof (rule posted_append [OF one rest])
    assume room: "room_for e (svc_dlq s) (length (m # ms))"
    then have ok: "try_send_ok e DLQ_CHANNEL_CAPACITY (length (dlq_queue (svc_dlq s)))"
      by (simp add: room_for_def upt_conv_Cons del: upt_Suc)
    with one posted_length [of r "[m]" "svc_dlq s" "svc_dlq s1"] have "length (dlq_queue (svc_dlq s1)) = Suc (length (dlq_queue (svc_dlq s)))"
      by simp
    with ok room show "try_send_ok e DLQ_CHANNEL_CAPACITY (length (dlq_queue (svc_dlq s))) \<and> room_for e (svc_dlq s1) (length ms)"
      by (simp add: room_for_def upt_conv_Cons del: upt_Suc)
  qed
  then show ?case by simp
qed (simp add: posted_none)

lemma batch_ack_posts_nothing: "batch_ack_one topic part s x = Inr s1 \<Longrightarrow> svc_dlq s1 = svc_dlq s"
  by (auto simp: batch_ack_one_def Let_def)

lemma batch_acks_post_nothing:
  "res_foldl (batch_ack_one topic part) s xs = Inr s' \<Longrightarrow> svc_dlq s' = svc_dlq s"
proof (induction xs arbitrary: s)
  case (Cons x xs)
  then obtain s1 where "batch_ack_one topic part s x = Inr s1" "res_foldl (batch_ack_one topic part) s1 xs = Inr s'" by auto
  with Cons.IH [of s1] batch_ack_posts_nothing show ?case by simp
qed simp

fun room_at :: "services \<Rightarrow> task \<Rightarrow> work_input \<Rightarrow> bool" where
  "room_at s (Invoking m) (WResult e result) = room_for e (svc_dlq s) 1"
| "room_at s (Gathering l ((part, ms) # bs)) (WFlush e answer) = room_for e (svc_dlq s) (length ms)"
| "room_at s task inp = True"

lemma letters_in_batch: "told letters_in (batch_fates answer ms) = (if answer = PyReturned then [] else ms)"
  by (induction ms) (simp_all add: batch_fates_def)

lemma work_posts:
  assumes "work_step (route r) utf8 i topic cancelled s task inp = Some (Inr (s', task', es))" "task_wf topic task"
  shows "posted r (room_at s task inp) (told letters_in es) (svc_dlq s) (svc_dlq s')"
  using assms(1)
proof (cases rule: work_step_cases)
  case (result m e res s1 action)
  have "told letters_in es = (if action = Some DlqAction then [m] else [])" "s' = s1"
    using result(4) by (cases "(m, action)" rule: fate_of.cases; auto simp: after_result_def)+
  with result_posts [OF result(3)] result(1,2) show ?thesis by (simp add: room_for_def)
next
  case (flush l part ms bs e answer)
  have ms: "ms \<noteq> []" "list_all (at_place (topic, part)) ms"
    using assms(2) unfolding flush(1) task_wf_def by (auto dest: spec [where x = part])
  then have hd: "msg_topic (hd ms) = topic" by (cases ms) (auto simp: at_place_def)
  show ?thesis
  proof (cases "answer = PyReturned")
    case True
    with flush(3) ms(1) hd have "res_foldl (batch_ack_one topic part) s (map msg_offset ms) = Inr s'"
      by (auto simp: flush_partition_batch_def Let_def split: list.splits)
    from batch_acks_post_nothing [OF this] have "svc_dlq s' = svc_dlq s" .
    with True flush(5) show ?thesis by (simp add: letters_in_batch posted_none)
  next
    case False
    then obtain reason where "batch_result_of ms answer = AllFailure reason" by (cases answer) auto
    with flush(3) ms(1) hd have "res_foldl (batch_fail_one e (route r) topic part reason) s ms = Inr s'"
      by (auto simp: flush_partition_batch_def Let_def split: list.splits)
    from batch_posts [OF this ms(2)] False flush(1,2,5) show ?thesis by (simp add: letters_in_batch)
  qed
qed (simp_all add: posted_none)

section \<open>What the program posts\<close>

fun sent_in :: "trace_entry \<Rightarrow> DLQMessage list" where
  "sent_in (Called (ToProducer d effects)) = [d]"
| "sent_in _ = []"

definition letters :: "program \<Rightarrow> DLQMessage list" where
  \<comment> \<open>given to the Kafka producer, then waiting in the channel\<close>
  "letters p = concat (map sent_in (pg_trace p)) @ dlq_queue (svc_dlq (pg_services p))"

definition accounted :: "DefaultDlqRouter \<Rightarrow> bool \<Rightarrow> program \<Rightarrow> bool" where
  "accounted r exact p \<longleftrightarrow> ordered p \<and> (\<not> pg_pool_down p \<longrightarrow>
     (\<exists>ms. subseq ms (told letters_in (pg_trace p)) \<and> list_all2 (is_letter r) ms (letters p)
        \<and> (exact \<longrightarrow> ms = told letters_in (pg_trace p))))"

fun has_room :: "program \<Rightarrow> program_event \<Rightarrow> bool" where
  \<comment> \<open>the dead-letter channel takes what the event may send\<close>
  "has_room p (PWork i inp) = (i < length (pg_workers p) \<longrightarrow> room_at (pg_services p) (snd (pg_workers p ! i)) inp)"
| "has_room p _ = True"

lemma accounted_keep:
  assumes "accounted r exact p" "ordered p'" "pg_pool_down p' \<or> (\<not> pg_pool_down p \<and> letters p' = letters p
     \<and> told letters_in (pg_trace p') = told letters_in (pg_trace p))"
  shows "accounted r exact p'"
  using assms by (auto simp: accounted_def)

lemma sent_calls [simp]:
  "concat (map (sent_in \<circ> (Called \<circ> ToConsumer)) cs) = []" "concat (map (sent_in \<circ> (Called \<circ> ToClient)) cs') = []"
  "concat (map (sent_in \<circ> (Called \<circ> ToRebalance)) cs'') = []"
  by simp_all

lemma letters_of_calls [simp]:
  "told letters_in (map (Called \<circ> f) cs) = []" "letters_in (Called c) = []"
  by (induction cs) simp_all

lemma work_accounts:
  assumes "accounted r exact p" "program_step (route r) utf8 cfg p (PWork i inp) = Some (Inr p')" "exact \<longrightarrow> has_room p (PWork i inp)"
  shows "accounted r exact p'"
proof -
  obtain topic task where w: "pg_workers p ! i = (topic, task)" by (metis surj_pair)
  with assms(2) obtain s task' es where i: "i < length (pg_workers p)" "\<not> pg_pool_down p"
    "work_step (route r) utf8 i topic (pg_token p) (pg_services p) task inp = Some (Inr (s, task', es))"
    "p' = traced es (p\<lparr>pg_services := s, pg_workers := (pg_workers p)[i := (topic, task')]\<rparr>)"
    by (auto split: if_splits)
  have o: "ordered p" using assms(1) by (simp add: accounted_def)
  have o': "ordered p'" by (rule program_step_ordered [OF o assms(2)])
  from work_posts [OF i(3) worker_task_wf [OF o i(1) w]] obtain kept L where k:
    "dlq_queue (svc_dlq s) = dlq_queue (svc_dlq (pg_services p)) @ L" "subseq kept (told letters_in es)"
    "list_all2 (is_letter r) kept L" "room_at (pg_services p) task inp \<longrightarrow> kept = told letters_in es"
    by (auto simp: posted_def)
  from assms(1) i(2) obtain ms where ms: "subseq ms (told letters_in (pg_trace p))" "list_all2 (is_letter r) ms (letters p)"
    "exact \<longrightarrow> ms = told letters_in (pg_trace p)" by (auto simp: accounted_def)
  have "Called c \<notin> set es" for c
    using i(3)
  proof (cases rule: work_step_cases)
    case (result m e res s1 action)
    then show ?thesis by (cases "(m, action)" rule: fate_of.cases) (auto simp: after_result_def)
  qed (auto simp: batch_fates_def)
  then have "sent_in x = []" if "x \<in> set es" for x using that by (cases x rule: sent_in.cases) auto
  then have "letters p' = letters p @ L" by (simp add: letters_def i(4) k(1))
  then have "subseq (ms @ kept) (told letters_in (pg_trace p')) \<and> list_all2 (is_letter r) (ms @ kept) (letters p')"
    using k ms by (auto simp: i(4) intro: list_emb_append_mono list_all2_appendI)
  with ms(3) k(4) assms(3) o' i(1) w show ?thesis
    by (auto simp: accounted_def i(4) intro!: exI [of _ "ms @ kept"])
qed

lemma step_accounts:
  assumes "accounted r exact p" "program_step (route r) utf8 cfg p ev = Some (Inr p')" "exact \<longrightarrow> has_room p ev"
  shows "accounted r exact p'"
proof -
  have "ordered p" using assms(1) by (simp add: accounted_def)
  note o = program_step_ordered [OF this assms(2)]
  show ?thesis
  proof (cases ev)
    case (PWork i inp)
    with work_accounts assms show ?thesis by blast
  next
    case (PLetter broker)
    with assms(2) o show ?thesis
      by (intro accounted_keep [OF assms(1)]) (auto simp: letters_def take_letter_def split: list.splits)
  next
    case (PShutdown e ks)
    with assms(2) o show ?thesis
      by (intro accounted_keep [OF assms(1)]) (auto simp: pool_shutdown_phases split: if_splits)
  qed (use assms(2) o in \<open>auto intro!: accounted_keep [OF assms(1)] simp: letters_def with_dispatcher_def Let_def
      split: prod.splits if_splits\<close>)
qed

interpretation program_accounted: step_invariant "program_step (route r) utf8 cfg" "accounted r False" for r utf8 cfg
  by unfold_locales (rule step_accounts; simp)

interpretation roomy_accounted: step_invariant "guarded has_room (program_step (route r) utf8 cfg)" "accounted r True" for r utf8 cfg
  by unfold_locales (auto simp: guarded_step simp del: program_step.simps intro: step_accounts)

section \<open>No message fails unseen\<close>

text \<open>
  C5 (safety). The letters that the dead-letter task has given to the Kafka producer or that wait in its channel are, in
  this order, letters of messages whose handling failed for good: each carries payload and key of its message, names its origin and
  offset, and goes to the partition of the same number of the prefixed topic. No message gets two. If the channel had
  room whenever a worker wrote to it, every message that failed has its letter. This holds until the pool shuts down, which adds a
  letter without payload for every offset that failed.
\<close>

theorem dead_letters_accounted:
  assumes "RuntimeBuilder_build out ks config c g = Inr (Inr (rt, g'))" "iterates ks (pc_handlers c)"
    "runs (program_step (route (rt_router rt)) utf8 (rt_commit_config rt)) (program_new rt) es p" "\<not> pg_pool_down p"
  shows "\<exists>ms. subseq ms (told letters_in (pg_trace p)) \<and> list_all2 (is_letter (rt_router rt)) ms (letters p)
     \<and> (runs (guarded has_room (program_step (route (rt_router rt)) utf8 (rt_commit_config rt))) (program_new rt) es p
          \<longrightarrow> ms = told letters_in (pg_trace p))"
proof -
  let ?S = "program_step (route (rt_router rt)) utf8 (rt_commit_config rt)"
  have "ordered (program_new rt)" using program_new_ordered [OF assms(1)] assms(2) by (simp add: iterates_def)
  then have start: "accounted (rt_router rt) exact (program_new rt)" for exact
    using build_initial [OF assms(1)]
    by (auto simp: accounted_def letters_def program_new_def kafpy_new_def services_new_def SharedDlqProducer_new_def)
  show ?thesis
  proof (cases "runs (guarded has_room ?S) (program_new rt) es p")
    case True
    from roomy_accounted.runs_inv [OF True start] assms(4) show ?thesis by (auto simp: accounted_def)
  next
    case False
    with program_accounted.runs_inv [OF assms(3) start] assms(4) show ?thesis by (auto simp: accounted_def)
  qed
qed

definition sample_failure :: "program_event list" where
  "sample_failure = [PDispatch sample_client live_channel (sample_message ''t'' 4), PWork 0 WTake,
     PWork 0 (WResult plain_env (ExTimeout \<lparr>timeout_ms = 5, last_processed_offset = None\<rparr>)), PLetter (\<lambda>r. True)]"

lemma sample_failed:
  "\<exists>p. run_of (guarded has_room (program_step (route with_default_prefix) (\<lambda>b. []) CommitConfig_default))
       (sample_program (RetryPolicy_default (\<lambda>x. x)) (ShutdownCoordinator_new 30)) sample_failure = Some p
     \<and> told letters_in (pg_trace p) = [sample_message ''t'' 4] \<and> \<not> pg_pool_down p
     \<and> dlq_queue (svc_dlq (pg_services p)) = []"
  by (simp add: program_eval sample_failure_def guarded_def room_for_def fresh_queues_def queue_capacity_def sample_py_config_def
      failure_eval record_failure_def to_dlq_def plain_env_def SharedDlqProducer_new_def DLQ_CHANNEL_CAPACITY_def
      produce_letter_def produce_async_def take_letter_def cong: res_bind_weak_cong)

theorem dead_letters_accounted_witness:
  "\<exists>(rt :: Runtime) (p :: program). runs (program_step (route (rt_router rt)) (\<lambda>b. []) (rt_commit_config rt)) (program_new rt) sample_failure p
     \<and> list_all2 (is_letter (rt_router rt)) [sample_message ''t'' 4] (letters p)"
proof -
  obtain rt g where rt: "RuntimeBuilder_build calm_outside [''t''] sample_py_config one_consumer snapshot_globals_new = Inr (Inr (rt, g))"
    "rt_commit_config rt = CommitConfig_default" "rt_router rt = with_default_prefix"
    "program_new rt = sample_program (RetryPolicy_default (\<lambda>x. x)) (ShutdownCoordinator_new 30)"
    using sample_built by blast
  let ?S = "program_step (route (rt_router rt)) (\<lambda>b. []) (rt_commit_config rt)"
  obtain p where p: "runs (guarded has_room ?S) (program_new rt) sample_failure p"
    "told letters_in (pg_trace p) = [sample_message ''t'' 4]" "\<not> pg_pool_down p"
    using sample_failed unfolding rt runs_run_of by blast
  note run = runs_guarded [OF p(1)]
  from dead_letters_accounted [OF rt(1) iterates_one_consumer run p(3)] p(1,2)
  have "list_all2 (is_letter (rt_router rt)) [sample_message ''t'' 4] (letters p)" by auto
  with run show ?thesis by blast
qed

end
