(* ===== verification/Ending.thy ===== *)
theory Ending
  imports ProgramSafety
begin

text \<open>
  How a run of the program ends: which requests cancel the workers, when the pool shuts down, and when the
  committer leaves its loop.
\<close>

fun cancels :: "program_event \<Rightarrow> bool" where
  "cancels (PStop r) = cancels_pool r"
| "cancels _ = False"

fun signals :: "program_event \<Rightarrow> bool" where
  "signals (PStop r) = (r \<noteq> PythonStop)"
| "signals _ = False"

fun shuts_down :: "program_event \<Rightarrow> bool" where
  "shuts_down (PShutdown e ks) = True"
| "shuts_down _ = False"

fun signalled_shutdown :: "program_event list \<Rightarrow> bool" where
  \<comment> \<open>the pool shut down after a signal\<close>
  "signalled_shutdown [] = False"
| "signalled_shutdown (ev # es) = (if signals ev then list_ex shuts_down es else signalled_shutdown es)"

lemma signalled_shutdown_snoc:
  "signalled_shutdown (es @ [ev]) \<longleftrightarrow> signalled_shutdown es \<or> list_ex signals es \<and> shuts_down ev"
  by (induction es) auto

lemma signalled_shutdown_imp: "signalled_shutdown es \<Longrightarrow> list_ex signals es \<and> list_ex shuts_down es"
  by (induction es) (auto split: if_splits)

definition end_view :: "program \<Rightarrow> bool \<times> bool \<times> ShutdownPhase" where
  "end_view p = (pg_token p, pg_pool_down p, phase (pg_coordinator p))"

lemma end_view_kept: "\<not> cancels ev \<Longrightarrow> \<not> signals ev \<Longrightarrow> \<not> shuts_down ev \<Longrightarrow> program_step rt utf8 cfg p ev = Some (Inr p')
    \<Longrightarrow> end_view p' = end_view p"
proof (cases ev)
  case (PWork i inp)
  obtain topic task where w: "pg_workers p ! i = (topic, task)" by (metis surj_pair)
  moreover assume "program_step rt utf8 cfg p ev = Some (Inr p')"
  ultimately show ?thesis by (auto simp: PWork end_view_def split: if_splits)
next
  case (PStop r)
  moreover assume "\<not> cancels ev" "\<not> signals ev"
  ultimately show ?thesis by (simp add: cancels_pool_def)
qed (auto simp: end_view_def with_dispatcher_def Let_def split: prod.splits if_splits list.splits)

lemma end_step:
  assumes "program_step rt utf8 cfg p ev = Some (Inr p')"
  shows "(pg_token p' \<longleftrightarrow> pg_token p \<or> cancels ev) \<and> (pg_pool_down p' \<longleftrightarrow> pg_pool_down p \<or> shuts_down ev)
     \<and> phase (pg_coordinator p') = (if shuts_down ev \<and> phase (pg_coordinator p) = Draining then Done
           else if signals ev then Draining else phase (pg_coordinator p))
     \<and> (shuts_down ev \<longrightarrow> \<not> pg_pool_down p) \<and> (signals ev \<longrightarrow> phase (pg_coordinator p) = Running)"
proof (cases ev)
  case (PStop r)
  with assms show ?thesis
    by (cases r) (auto simp: request_stop_def begin_draining_def cancels_pool_def split: if_splits)
next
  case (PShutdown e ks)
  with assms show ?thesis by (auto simp: pool_shutdown_phases split: if_splits)
qed (use end_view_kept [OF _ _ _ assms] in \<open>auto simp: end_view_def\<close>)

lemma shutdown_needs_token: "program_step rt utf8 cfg p ev = Some r \<Longrightarrow> shuts_down ev \<Longrightarrow> pg_token p"
  by (cases ev) (auto split: if_splits)

interpretation down_needs_token: step_invariant "program_step rt utf8 cfg" "\<lambda>p. pg_pool_down p \<longrightarrow> pg_token p" for rt utf8 cfg
  by unfold_locales (use end_step shutdown_needs_token in blast)

lemma end_state:
  assumes "runs (program_step rt utf8 cfg) p0 es p" "phase (pg_coordinator p0) = Running"
    "\<not> pg_token p0" "\<not> pg_pool_down p0"
  shows "(pg_token p \<longleftrightarrow> list_ex cancels es) \<and> (pg_pool_down p \<longleftrightarrow> list_ex shuts_down es)
     \<and> phase (pg_coordinator p) = (if signalled_shutdown es then Done else if list_ex signals es then Draining else Running)"
  using assms
proof (induction rule: runs.induct)
  case (runs_snoc p0 es p1 ev p2)
  note ih = runs_snoc.IH [OF runs_snoc.prems] and step = end_step [OF runs_snoc.hyps(2)]
  from ih step signalled_shutdown_imp [of es] show ?case
    by (auto simp: signalled_shutdown_snoc)
qed simp

lemma traced_committing [simp]: "pg_committing (traced es p) = pg_committing p"
  by (simp add: traced_def)

lemma build_coordinator:
  assumes "RuntimeBuilder_build out ks config c g = Inr (Inr (rt, g'))"
  shows "rt_coordinator rt = ShutdownCoordinator_new (cc_drain_timeout_secs (rt_config rt))"
proof -
  obtain d where "register_all (queue_capacity config) ks ConsumerDispatcher_new = Inr d" using register_fresh by blast
  with assms show ?thesis by (auto simp: RuntimeBuilder_build_def Let_def split: sum.splits if_splits)
qed

text \<open>
  C31 (liveness). How a run ends, in any interleaving. The token that workers and pool wait for is cancelled exactly by \<open>stop()\<close>
  from Python and by a signal on Unix; Ctrl-C on Windows cancels nothing, so no worker ends and the pool never shuts
  down. The next round of the committer is its last exactly if a signal came and then the pool shut down. After \<open>stop()\<close>
  without a signal before the shutdown, the committer goes on for ever, and \<open>start()\<close>, which waits for it, does not return.
\<close>

theorem how_a_run_ends:
  assumes "RuntimeBuilder_build out ks config c g = Inr (Inr (rt, g'))"
    "runs (program_step (route (rt_router rt)) utf8 (rt_commit_config rt)) (program_new rt) es p"
  shows "(pg_token p \<longleftrightarrow> list_ex cancels es) \<and> (pg_pool_down p \<longleftrightarrow> list_ex shuts_down es)
     \<and> (list_ex shuts_down es \<longrightarrow> list_ex cancels es)
     \<and> (program_step (route (rt_router rt)) utf8 (rt_commit_config rt) p (PCommit broker parts now inp) = Some (Inr p')
         \<longrightarrow> (pg_committing p' \<longleftrightarrow> \<not> signalled_shutdown es))"
proof -
  let ?step = "program_step (route (rt_router rt)) utf8 (rt_commit_config rt)"
  have start: "phase (pg_coordinator (program_new rt)) = Running" "\<not> pg_token (program_new rt)" "\<not> pg_pool_down (program_new rt)"
    using build_coordinator [OF assms(1)] by (simp_all add: program_new_def ShutdownCoordinator_new_def)
  note e = end_state [OF assms(2) start]
  have "pg_pool_down p \<longrightarrow> pg_token p" using down_needs_token.runs_inv [OF assms(2)] start(3) by blast
  moreover have "pg_committing p' \<longleftrightarrow> phase (pg_coordinator p) \<noteq> Done"
    if "?step p (PCommit broker parts now inp) = Some (Inr p')"
    using that by (auto simp: committer_round_def is_done_def Let_def split: if_splits prod.splits)
  ultimately show ?thesis using e by (auto split: if_splits)
qed

definition sample_end :: "program_event list" where
  "sample_end = [PStop UnixSignal, PShutdown plain_env []]"

lemma sample_end_run:
  "\<exists>p p'. run_of (program_step rt utf8 cfg) (sample_program policy (ShutdownCoordinator_new 30)) sample_end = Some p
     \<and> program_step rt utf8 cfg p (PCommit broker [] 0 Tick) = Some (Inr p')"
  by (simp add: sample_end_def sample_program_def request_stop_def begin_draining_def cancels_pool_def
      pool_shutdown_phases commit_eval Let_def)

theorem how_a_run_ends_witness:
  "\<exists>(rt :: Runtime) p p'. runs (program_step (route (rt_router rt)) (\<lambda>b. []) (rt_commit_config rt)) (program_new rt) sample_end p
     \<and> pg_token p \<and> pg_pool_down p
     \<and> program_step (route (rt_router rt)) (\<lambda>b. []) (rt_commit_config rt) p (PCommit (\<lambda>c. True) [] 0 Tick) = Some (Inr p')
     \<and> \<not> pg_committing p'"
proof -
  obtain rt g where rt: "RuntimeBuilder_build calm_outside [''t''] sample_py_config one_consumer snapshot_globals_new = Inr (Inr (rt, g))"
    "program_new rt = sample_program (RetryPolicy_default (\<lambda>x. x)) (ShutdownCoordinator_new 30)"
    using sample_built by blast
  let ?step = "program_step (route (rt_router rt)) (\<lambda>b. []) (rt_commit_config rt)"
  obtain p p' where p: "runs ?step (program_new rt) sample_end p" "?step p (PCommit (\<lambda>c. True) [] 0 Tick) = Some (Inr p')"
    using sample_end_run [of "route (rt_router rt)" "\<lambda>b. []" "rt_commit_config rt" "RetryPolicy_default (\<lambda>x. x)" "\<lambda>c. True"]
    unfolding rt(2) runs_run_of by auto
  from how_a_run_ends [OF rt(1) p(1)] p(2) have "pg_token p" "pg_pool_down p" "\<not> pg_committing p'"
    by (simp_all add: sample_end_def cancels_pool_def del: program_step.simps)
  with p show ?thesis by (intro exI [of _ rt] exI [of _ p] exI [of _ p'] conjI)
qed

end
