(* ===== verification/Intake.thy ===== *)
theory Intake
  imports Ending "HOL-Library.Sublist"
begin

text \<open>
  The running program with its two ends. In front, the runner's task receives from the Kafka client and sends into
  the channel that the dispatcher reads (\<^verbatim>\<open>ConsumerRunner::run\<close>, \<^verbatim>\<open>ConsumerDispatcher::run\<close>). Behind, \<open>run\<close> of the runtime waits for the
  pool, stops the runner, and joins dispatcher and committer before \<open>start()\<close> returns (\<^verbatim>\<open>src/runtime/builder.rs\<close>).
  The stop signal is a broadcast: it reaches the runner's task only if that has subscribed, which it does when the
  dispatcher's task opens the stream.
\<close>

section \<open>State and steps\<close>

datatype reader = Unopened | Reading | Halted

record intake =
  it_program :: program
  it_reader :: reader
  it_hand :: "OwnedMessage option"
  it_stream :: "OwnedMessage list"
  it_stopped :: bool
  it_dispatching :: bool
  it_joining :: bool
  it_returned :: bool

definition STREAM_CAPACITY :: nat where "STREAM_CAPACITY = 1000"

definition intake_new :: "Runtime \<Rightarrow> intake" where
  "intake_new rt = \<lparr>it_program = program_new rt, it_reader = Unopened, it_hand = None, it_stream = [], it_stopped = False,
     it_dispatching = True, it_joining = False, it_returned = False\<rparr>"

datatype intake_event =
    IOpen
  | IReceive borrowed_message
  | ISend
  | IHalt
  | IDispatch client channel
  | IClosed
  | IStep program_event
  | IJoin
  | IReturn

fun is_dispatch :: "program_event \<Rightarrow> bool" where
  "is_dispatch (PDispatch c chan m) = True"
| "is_dispatch _ = False"

fun stops_runner :: "program_event \<Rightarrow> bool" where
  \<comment> \<open>the signal handler of Unix also stops the runner\<close>
  "stops_runner (PStop r) = (r = UnixSignal)"
| "stops_runner _ = False"

definition runner_signalled :: "intake \<Rightarrow> bool \<Rightarrow> bool" where
  \<comment> \<open>a broadcast reaches only a task that has subscribed\<close>
  "runner_signalled s sent \<longleftrightarrow> it_stopped s \<or> sent \<and> it_reader s = Reading"

definition lift_step :: "program res option \<Rightarrow> (program \<Rightarrow> intake) \<Rightarrow> intake res option" where
  "lift_step r f = map_option (\<lambda>x. res_bind x (\<lambda>p. Inr (f p))) r"

fun intake_step :: "router \<Rightarrow> (bytes \<Rightarrow> string) \<Rightarrow> CommitConfig \<Rightarrow> intake \<Rightarrow> intake_event \<Rightarrow> intake res option" where
  "intake_step rt utf8 cfg s IOpen =
     (if it_reader s = Unopened then Some (Inr (s\<lparr>it_reader := Reading\<rparr>)) else None)"
| "intake_step rt utf8 cfg s (IReceive b) =
     (if it_reader s = Reading \<and> \<not> it_stopped s \<and> it_hand s = None
      then Some (Inr (s\<lparr>it_hand := Some (from_borrowed b)\<rparr>)) else None)"
| "intake_step rt utf8 cfg s ISend =
     (case it_hand s of None \<Rightarrow> None
      | Some m \<Rightarrow> if it_reader s = Reading \<and> \<not> it_stopped s \<and> length (it_stream s) < STREAM_CAPACITY
                  then Some (Inr (s\<lparr>it_stream := it_stream s @ [m], it_hand := None\<rparr>)) else None)"
| "intake_step rt utf8 cfg s IHalt =
     (if it_reader s = Reading \<and> it_stopped s then Some (Inr (s\<lparr>it_reader := Halted, it_hand := None\<rparr>)) else None)"
| "intake_step rt utf8 cfg s (IDispatch c chan) =
     (case it_stream s of [] \<Rightarrow> None
      | m # rest \<Rightarrow> if it_dispatching s
                    then lift_step (program_step rt utf8 cfg (it_program s) (PDispatch c chan m))
                           (\<lambda>p. s\<lparr>it_program := p, it_stream := rest\<rparr>) else None)"
| "intake_step rt utf8 cfg s IClosed =
     (if it_dispatching s \<and> it_reader s = Halted \<and> it_stream s = [] then Some (Inr (s\<lparr>it_dispatching := False\<rparr>)) else None)"
| "intake_step rt utf8 cfg s (IStep ev) =
     (if is_dispatch ev then None
      else lift_step (program_step rt utf8 cfg (it_program s) ev)
             (\<lambda>p. s\<lparr>it_program := p, it_stopped := runner_signalled s (stops_runner ev)\<rparr>))"
| "intake_step rt utf8 cfg s IJoin =
     (if pg_pool_down (it_program s) \<and> \<not> it_joining s
      then Some (Inr (s\<lparr>it_joining := True, it_stopped := runner_signalled s True\<rparr>)) else None)"
| "intake_step rt utf8 cfg s IReturn =
     (if it_joining s \<and> \<not> it_dispatching s \<and> \<not> pg_committing (it_program s)
      then Some (Inr (s\<lparr>it_returned := True\<rparr>)) else None)"

text \<open>
  Once the stop signal is there it wins over the client and over a full channel, so a message that the runner's
  task still holds is dropped; the client delivers it again after a restart, since it was never acknowledged.
  Errors of the client are logged and waited out.
\<close>

section \<open>Runs of the program in front of a client\<close>

fun steps_in :: "intake_event \<Rightarrow> program_event list" where
  "steps_in (IStep ev) = [ev]"
| "steps_in _ = []"

fun received_in :: "intake_event \<Rightarrow> OwnedMessage list" where
  "received_in (IReceive b) = [from_borrowed b]"
| "received_in _ = []"

fun offered_in :: "trace_entry \<Rightarrow> OwnedMessage list" where
  "offered_in (Accepted m) = [m]"
| "offered_in (Refused m) = [m]"
| "offered_in _ = []"

fun in_hand :: "intake \<Rightarrow> OwnedMessage list" where
  "in_hand s = (case it_hand s of None \<Rightarrow> [] | Some m \<Rightarrow> [m])"

lemma lift_step_Some: "lift_step r f = Some (Inr s') \<longleftrightarrow> (\<exists>p. r = Some (Inr p) \<and> s' = f p)"
  by (auto simp: lift_step_def)

lemma intake_run_program:
  assumes "runs (intake_step rt utf8 cfg) s es s'"
  shows "\<exists>pes. runs (program_step rt utf8 cfg) (it_program s) pes (it_program s')
     \<and> filter (\<lambda>ev. \<not> is_dispatch ev) pes = concat (map steps_in es)"
  using assms
proof (induction rule: runs.induct)
  case (runs_nil s)
  then show ?case by (intro exI [of _ "[]"]) (simp add: runs.intros)
next
  case (runs_snoc s es s1 ev s2)
  then obtain pes where pes: "runs (program_step rt utf8 cfg) (it_program s) pes (it_program s1)"
    "filter (\<lambda>ev. \<not> is_dispatch ev) pes = concat (map steps_in es)" by blast
  show ?case
  proof (cases ev)
    case (IDispatch c chan)
    with runs_snoc.hyps(2) obtain m where "program_step rt utf8 cfg (it_program s1) (PDispatch c chan m) = Some (Inr (it_program s2))"
      by (auto simp: lift_step_Some simp del: program_step.simps split: list.splits if_splits)
    from runs.intros(2) [OF pes(1) this] pes(2) IDispatch show ?thesis by (intro exI [of _ "pes @ [PDispatch c chan m]"]) simp
  next
    case (IStep ev')
    with runs_snoc.hyps(2) have ev': "program_step rt utf8 cfg (it_program s1) ev' = Some (Inr (it_program s2))" "\<not> is_dispatch ev'"
      by (auto simp: lift_step_Some simp del: program_step.simps split: if_splits)
    from runs.intros(2) [OF pes(1) ev'(1)] pes(2) ev'(2) IStep show ?thesis by (intro exI [of _ "pes @ [ev']"]) simp
  qed (use pes runs_snoc.hyps(2) in \<open>auto split: if_splits option.splits\<close>)
qed

section \<open>From the client to the dispatcher\<close>

lemma dispatch_offers:
  assumes "program_step rt utf8 cfg p (PDispatch c chan m) = Some (Inr p')"
  shows "told offered_in (pg_trace p') = told offered_in (pg_trace p) @ [m]"
  using assms by (auto simp: Let_def told_def split: prod.splits if_splits)

lemma work_offers_nothing:
  assumes "work_step rt utf8 i topic cancelled s task inp = Some (Inr (s', task', es))"
  shows "told offered_in es = []"
  using assms
proof (cases rule: work_step_cases)
  case (result m e r s1 action)
  then show ?thesis by (cases "(m, action)" rule: fate_of.cases) (auto simp: after_result_def)
qed (auto simp: batch_fates_def told_def)

lemma step_offers_nothing:
  assumes "program_step rt utf8 cfg p ev = Some (Inr p')" "\<not> is_dispatch ev"
  shows "told offered_in (pg_trace p') = told offered_in (pg_trace p)"
  using assms(1)
proof (cases rule: program_step_cases)
  case (work i inp topic task s task' es)
  with work_offers_nothing [OF work(5)] show ?thesis by simp
next
  case (quiet calls)
  have "told offered_in (map Called calls) = []" by (induction calls) simp_all
  with quiet show ?thesis by simp
qed (use assms(2) in simp)

text \<open>
  What the client handed over is what the dispatcher was offered, then what is on its way, then at most one message that a
  stop cut off.
\<close>

definition passed_on :: "intake_event list \<Rightarrow> intake \<Rightarrow> bool" where
  "passed_on es s \<longleftrightarrow> (\<exists>cut. concat (map received_in es) = told offered_in (pg_trace (it_program s)) @ it_stream s @ in_hand s @ cut
     \<and> length cut \<le> 1 \<and> (cut \<noteq> [] \<longrightarrow> it_reader s = Halted)) \<and> (it_reader s = Halted \<longrightarrow> it_hand s = None)
     \<and> length (it_stream s) \<le> STREAM_CAPACITY"

lemma passed_step:
  assumes "passed_on es s" "intake_step rt utf8 cfg s ev = Some (Inr s')"
  shows "passed_on (es @ [ev]) s'"
proof (cases ev)
  case (IDispatch c chan)
  with assms(2) obtain m rest p where d: "it_stream s = m # rest" "s' = s\<lparr>it_program := p, it_stream := rest\<rparr>"
    "program_step rt utf8 cfg (it_program s) (PDispatch c chan m) = Some (Inr p)"
    by (auto simp: lift_step_Some simp del: program_step.simps split: list.splits if_splits)
  with assms(1) dispatch_offers [OF d(3)] IDispatch show ?thesis by (auto simp: passed_on_def)
next
  case (IStep ev')
  with assms(2) obtain p where d: "\<not> is_dispatch ev'" "program_step rt utf8 cfg (it_program s) ev' = Some (Inr p)"
    "s' = s\<lparr>it_program := p, it_stopped := runner_signalled s (stops_runner ev')\<rparr>"
    by (auto simp: lift_step_Some simp del: program_step.simps split: if_splits)
  with assms(1) step_offers_nothing [OF d(2,1)] IStep show ?thesis by (auto simp: passed_on_def)
next
  case IHalt
  with assms show ?thesis by (auto simp: passed_on_def split: if_splits option.splits)
qed (use assms in \<open>auto simp: passed_on_def split: if_splits option.splits\<close>)

lemma runs_passed: "runs (intake_step rt utf8 cfg) s es s' \<Longrightarrow> passed_on [] s \<Longrightarrow> passed_on es s'"
  by (induction rule: runs.induct) (auto intro: passed_step)

lemma accepted_offered: "subseq (told accepted_in tr) (told offered_in tr)"
proof (induction tr)
  case (Cons e tr)
  then show ?case by (cases e) auto
qed simp

section \<open>The end of \<open>run\<close>\<close>

lemma intake_program_step:
  assumes "intake_step rt utf8 cfg s ev = Some (Inr s')"
  shows "it_program s' = it_program s \<or> (\<exists>pev. program_step rt utf8 cfg (it_program s) pev = Some (Inr (it_program s')))"
  using assms by (cases ev) (auto simp: lift_step_Some simp del: program_step.simps split: list.splits if_splits option.splits)

lemma committing_kept:
  assumes "program_step rt utf8 cfg p ev = Some (Inr p')"
  shows "pg_committing p' \<longrightarrow> pg_committing p" and "pg_committing p \<and> \<not> pg_committing p' \<longrightarrow> phase (pg_coordinator p') = Done"
proof -
  have "(pg_committing p' \<longrightarrow> pg_committing p) \<and> (pg_committing p \<and> \<not> pg_committing p' \<longrightarrow> phase (pg_coordinator p') = Done)"
  proof (cases ev)
    case (PWork i inp)
    obtain topic task where "pg_workers p ! i = (topic, task)" by (metis surj_pair)
    with assms PWork show ?thesis by (auto split: if_splits)
  next
    case (PDispatch c chan m)
    with assms show ?thesis by (auto simp: with_dispatcher_def Let_def split: prod.splits)
  next
    case (PCommit broker ks now inp)
    with assms show ?thesis by (auto simp: committer_round_def is_done_def split: if_splits prod.splits)
  next
    case (PShutdown e ks)
    with assms show ?thesis by (auto simp: pool_shutdown_phases split: if_splits)
  qed (use assms in \<open>auto simp: Let_def split: prod.splits if_splits list.splits\<close>)
  then show "pg_committing p' \<longrightarrow> pg_committing p" and "pg_committing p \<and> \<not> pg_committing p' \<longrightarrow> phase (pg_coordinator p') = Done" by blast+
qed

definition ends_ok :: "intake \<Rightarrow> bool" where
  "ends_ok s \<longleftrightarrow> (it_reader s = Halted \<longrightarrow> it_stopped s) \<and> (it_dispatching s \<or> it_reader s = Halted)
     \<and> (it_returned s \<longrightarrow> \<not> it_dispatching s \<and> \<not> pg_committing (it_program s))
     \<and> (pg_committing (it_program s) \<or> phase (pg_coordinator (it_program s)) = Done)
     \<and> (phase (pg_coordinator (it_program s)) = Done \<longrightarrow> pg_pool_down (it_program s))"

definition hangs :: "intake \<Rightarrow> bool" where
  \<comment> \<open>the pool is down, and the coordinator will never be done or the dispatcher never end\<close>
  "hangs s \<longleftrightarrow> ends_ok s \<and> pg_pool_down (it_program s) \<and> \<not> it_returned s
     \<and> (phase (pg_coordinator (it_program s)) \<noteq> Done \<or> it_joining s \<and> \<not> it_stopped s)"

lemma program_ends:
  assumes "program_step rt utf8 cfg p ev = Some (Inr p')" "pg_committing p \<or> phase (pg_coordinator p) = Done"
    "phase (pg_coordinator p) = Done \<longrightarrow> pg_pool_down p"
  shows "pg_committing p' \<or> phase (pg_coordinator p') = Done" "phase (pg_coordinator p') = Done \<longrightarrow> pg_pool_down p'"
    "pg_pool_down p \<Longrightarrow> pg_pool_down p' \<and> (phase (pg_coordinator p') = Done \<longleftrightarrow> phase (pg_coordinator p) = Done)"
    "phase (pg_coordinator p) = Done \<Longrightarrow> \<not> signals ev"
  using end_step [OF assms(1)] committing_kept [OF assms(1)] assms(2,3) by (auto split: if_splits)

lemma stops_signals: "stops_runner ev \<Longrightarrow> signals ev"
  by (cases ev) auto

interpretation intake_ends: step_invariant "intake_step rt utf8 cfg" ends_ok for rt utf8 cfg
proof (unfold_locales, goal_cases)
  case (1 s ev s')
  have p: "pg_committing (it_program s) \<or> phase (pg_coordinator (it_program s)) = Done"
    "phase (pg_coordinator (it_program s)) = Done \<longrightarrow> pg_pool_down (it_program s)"
    using 1(1) by (auto simp: ends_ok_def)
  show ?case
  proof (cases ev)
    case (IDispatch c chan)
    with 1(2) obtain m rest q where d: "program_step rt utf8 cfg (it_program s) (PDispatch c chan m) = Some (Inr q)"
      "s' = s\<lparr>it_program := q, it_stream := rest\<rparr>"
      by (auto simp: lift_step_Some simp del: program_step.simps split: list.splits if_splits)
    with 1(1) program_ends(1,2) [OF d(1) p] committing_kept(1) [OF d(1)] show ?thesis by (auto simp: ends_ok_def)
  next
    case (IStep pev)
    with 1(2) obtain q where d: "program_step rt utf8 cfg (it_program s) pev = Some (Inr q)"
      "s' = s\<lparr>it_program := q, it_stopped := runner_signalled s (stops_runner pev)\<rparr>"
      by (auto simp: lift_step_Some simp del: program_step.simps split: if_splits)
    with 1(1) program_ends(1,2) [OF d(1) p] committing_kept(1) [OF d(1)] show ?thesis
      by (auto simp: ends_ok_def runner_signalled_def)
  qed (use 1 in \<open>auto simp: ends_ok_def runner_signalled_def split: if_splits option.splits\<close>)
qed

interpretation intake_hangs: step_invariant "intake_step rt utf8 cfg" hangs for rt utf8 cfg
proof (unfold_locales, goal_cases)
  case (1 s ev s')
  have e: "ends_ok s'" using intake_ends.istep_inv [OF _ 1(2)] 1(1) by (simp add: hangs_def)
  have p: "pg_committing (it_program s) \<or> phase (pg_coordinator (it_program s)) = Done"
    "phase (pg_coordinator (it_program s)) = Done \<longrightarrow> pg_pool_down (it_program s)" "pg_pool_down (it_program s)"
    using 1(1) by (auto simp: hangs_def ends_ok_def)
  show ?case
  proof (cases ev)
    case (IDispatch c chan)
    with 1(2) obtain m rest q where d: "program_step rt utf8 cfg (it_program s) (PDispatch c chan m) = Some (Inr q)"
      "s' = s\<lparr>it_program := q, it_stream := rest\<rparr>"
      by (auto simp: lift_step_Some simp del: program_step.simps split: list.splits if_splits)
    with 1(1) e program_ends(3) [OF d(1) p] show ?thesis by (auto simp: hangs_def)
  next
    case (IStep pev)
    with 1(2) obtain q where d: "program_step rt utf8 cfg (it_program s) pev = Some (Inr q)"
      "s' = s\<lparr>it_program := q, it_stopped := runner_signalled s (stops_runner pev)\<rparr>"
      by (auto simp: lift_step_Some simp del: program_step.simps split: if_splits)
    with 1(1) e program_ends(3,4) [OF d(1) p(1,2)] p(3) stops_signals [of pev] show ?thesis
      by (auto simp: hangs_def runner_signalled_def)
  qed (use 1 e in \<open>auto simp: hangs_def ends_ok_def runner_signalled_def split: if_splits option.splits\<close>)
qed

section \<open>A program that can end does\<close>

definition reaches :: "('s, 'e) system \<Rightarrow> 's \<Rightarrow> ('s \<Rightarrow> bool) \<Rightarrow> bool" where
  "reaches step s Q \<longleftrightarrow> (\<exists>es s'. runs step s es s' \<and> Q s')"

lemma reaches_now: "Q s \<Longrightarrow> reaches step s Q"
  unfolding reaches_def by (intro exI [of _ "[]"] exI [of _ s]) simp

lemma reaches_step: "step s e = Some (Inr s1) \<Longrightarrow> reaches step s1 Q \<Longrightarrow> reaches step s Q"
  unfolding reaches_def by (metis append_Nil runs.intros runs_append)

lemmas intake_reaches = reaches_step [where step = "intake_step rt utf8 cfg" for rt utf8 cfg]

definition closing :: "intake \<Rightarrow> bool" where
  \<comment> \<open>\<open>run\<close> waits for tasks that are bound to end\<close>
  "closing s \<longleftrightarrow> it_joining s \<and> it_reader s = Halted \<and> phase (pg_coordinator (it_program s)) = Done"

lemma committer_ends:
  assumes "closing s" "\<not> it_dispatching s"
  shows "reaches (intake_step rt utf8 cfg) s it_returned"
proof -
  have ret: "reaches (intake_step rt utf8 cfg) s' it_returned"
    if "it_joining s'" "\<not> it_dispatching s'" "\<not> pg_committing (it_program s')" for s'
  proof (rule intake_reaches)
    show "intake_step rt utf8 cfg s' IReturn = Some (Inr (s'\<lparr>it_returned := True\<rparr>))" using that by simp
  qed (simp add: reaches_now)
  show ?thesis
  proof (cases "pg_committing (it_program s)")
    case True
    obtain st calls where "committer_round (\<lambda>c. True) cfg (pg_coordinator (it_program s)) [] (svc_offsets (pg_services (it_program s)))
        (pg_committer (it_program s)) 0 Tick = (False, st, calls)"
      using assms(1) by (auto simp: closing_def committer_round_def is_done_def) (metis surj_pair)
    with True have "intake_step rt utf8 cfg s (IStep (PCommit (\<lambda>c. True) [] 0 Tick)) = Some (Inr (s\<lparr>it_program :=
        traced (map (Called \<circ> ToConsumer) calls) ((it_program s)\<lparr>pg_committer := st, pg_committing := False\<rparr>),
        it_stopped := it_stopped s\<rparr>))"
      by (simp add: lift_step_def runner_signalled_def)
    from intake_reaches [OF this ret] assms show ?thesis by (simp add: closing_def)
  qed (use ret assms in \<open>simp add: closing_def\<close>)
qed

lemma stream_ends:
  assumes "closing s" "ends_ok s"
  shows "reaches (intake_step rt utf8 cfg) s it_returned"
  using assms
proof (induction "length (it_stream s)" arbitrary: s)
  case 0
  show ?case
  proof (cases "it_dispatching s")
    case True
    with 0 have "intake_step rt utf8 cfg s IClosed = Some (Inr (s\<lparr>it_dispatching := False\<rparr>))" by (simp add: closing_def)
    from intake_reaches [OF this committer_ends] 0 show ?thesis by (simp add: closing_def)
  qed (rule committer_ends [OF 0(2)])
next
  case (Suc n)
  show ?case
  proof (cases "it_dispatching s")
    case True
    obtain m rest where m: "it_stream s = m # rest" using Suc.hyps(2) by (cases "it_stream s") auto
    obtain p where p: "program_step rt utf8 cfg (it_program s) (PDispatch sample_client live_channel m) = Some (Inr p)"
      by (cases "dispatch_message sample_client live_channel (dispatcher_of (it_program s)) m") (simp add: Let_def)
    let ?s = "s\<lparr>it_program := p, it_stream := rest\<rparr>"
    have step: "intake_step rt utf8 cfg s (IDispatch sample_client live_channel) = Some (Inr ?s)"
      using True m p by (simp add: lift_step_def del: program_step.simps)
    have "phase (pg_coordinator p) = phase (pg_coordinator (it_program s))" using end_step [OF p] by simp
    with Suc.prems intake_ends.istep_inv [OF Suc.prems(2) step] have "closing ?s" "ends_ok ?s" by (simp_all add: closing_def)
    with Suc.hyps m show ?thesis by (intro intake_reaches [OF step]) simp
  qed (rule committer_ends [OF Suc.prems(1)])
qed

lemma run_returns:
  assumes "ends_ok s" "phase (pg_coordinator (it_program s)) = Done" "it_joining s \<longrightarrow> it_stopped s"
  shows "reaches (intake_step rt utf8 cfg) s it_returned"
proof -
  have halted: "reaches (intake_step rt utf8 cfg) s it_returned"
    if "ends_ok s" "phase (pg_coordinator (it_program s)) = Done" "it_joining s" "it_stopped s" "it_reader s \<noteq> Unopened" for s
  proof (cases "it_reader s = Halted")
    case True
    with stream_ends that show ?thesis by (simp add: closing_def)
  next
    case False
    with that(5) have "it_reader s = Reading" by (cases "it_reader s") simp_all
    with that have step: "intake_step rt utf8 cfg s IHalt = Some (Inr (s\<lparr>it_reader := Halted, it_hand := None\<rparr>))" by simp
    from stream_ends [OF _ intake_ends.istep_inv [OF that(1) step]] that show ?thesis
      by (intro intake_reaches [OF step]) (simp add: closing_def)
  qed
  have opened: "reaches (intake_step rt utf8 cfg) s it_returned"
    if "ends_ok s" "phase (pg_coordinator (it_program s)) = Done" "it_joining s \<longrightarrow> it_stopped s" "it_reader s \<noteq> Unopened" for s
  proof (cases "it_joining s")
    case False
    with that have step: "intake_step rt utf8 cfg s IJoin = Some (Inr (s\<lparr>it_joining := True, it_stopped := runner_signalled s True\<rparr>))"
      by (simp add: ends_ok_def)
    have "runner_signalled s True" using that(1,4) by (cases "it_reader s") (simp_all add: runner_signalled_def ends_ok_def)
    with halted [OF intake_ends.istep_inv [OF that(1) step]] that show ?thesis by (intro intake_reaches [OF step]) simp
  qed (use halted that in blast)
  show ?thesis
  proof (cases "it_reader s = Unopened")
    case True
    then have step: "intake_step rt utf8 cfg s IOpen = Some (Inr (s\<lparr>it_reader := Reading\<rparr>))" by simp
    from opened [OF intake_ends.istep_inv [OF assms(1) step]] assms show ?thesis by (intro intake_reaches [OF step]) simp
  qed (use opened assms in blast)
qed

section \<open>From the client to the end\<close>

lemma signalled_filter: "signalled_shutdown (filter (\<lambda>ev. \<not> is_dispatch ev) es) = signalled_shutdown es"
proof -
  have plain: "is_dispatch ev \<Longrightarrow> \<not> shuts_down ev \<and> \<not> signals ev" for ev by (cases ev) simp_all
  then have "list_ex shuts_down (filter (\<lambda>ev. \<not> is_dispatch ev) es) = list_ex shuts_down es" for es
    by (induction es) auto
  with plain show ?thesis by (induction es) auto
qed

text \<open>
  C3 (invariant). Every message that the client hands over is accounted for, in any interleaving of the runner's task
  with all others. The messages received are, in this order: those that the dispatcher offered to their queues, those in its
  stream, the one that the runner's task waits to send, and at most one that a stop made it drop. Those that a queue accepted are, for
  each partition in the order of reception, finished, in the hands of the worker, or queued.
\<close>

theorem received_messages_accounted:
  assumes "RuntimeBuilder_build out ks config c g = Inr (Inr (rt, g'))" "iterates ks (pc_handlers c)"
    "runs (intake_step (route (rt_router rt)) utf8 (rt_commit_config rt)) (intake_new rt) es s"
  shows "(\<exists>cut. concat (map received_in es) = told offered_in (pg_trace (it_program s)) @ it_stream s @ in_hand s @ cut
       \<and> length cut \<le> 1 \<and> (cut \<noteq> [] \<longrightarrow> it_reader s = Halted))
     \<and> subseq (told accepted_in (pg_trace (it_program s))) (concat (map received_in es))
     \<and> filter (at_place k) (told accepted_in (pg_trace (it_program s)))
         = finished_of (it_program s) k @ held (it_program s) k @ waiting (it_program s) k"
proof -
  let ?tr = "pg_trace (it_program s)"
  have "passed_on [] (intake_new rt)" by (simp add: passed_on_def intake_new_def program_new_def)
  then have passed: "passed_on es s" by (rule runs_passed [OF assms(3)])
  then obtain rest where "concat (map received_in es) = told offered_in ?tr @ rest" by (auto simp: passed_on_def)
  then have "subseq (told accepted_in ?tr) (concat (map received_in es))"
    using list_emb_prefix [OF accepted_offered] by simp
  moreover obtain pes where "runs (program_step (route (rt_router rt)) utf8 (rt_commit_config rt)) (program_new rt) pes (it_program s)"
    using intake_run_program [OF assms(3)] by (auto simp: intake_new_def)
  then have "ordered (it_program s)"
    using program_order.runs_inv program_new_ordered [OF assms(1)] assms(2) by (simp add: iterates_def)
  then have "filter (at_place k) (told accepted_in ?tr) = finished_of (it_program s) k @ held (it_program s) k @ waiting (it_program s) k"
    by (cases k) (simp add: ordered_def accepted_of_def [symmetric])
  ultimately show ?thesis using passed unfolding passed_on_def by blast
qed

definition sample_borrowed :: borrowed_message where
  "sample_borrowed = \<lparr>b_topic = ''t'', b_partition = 0, b_offset = 4, b_key = None, b_payload = Some [], b_timestamp = NotAvailable, b_headers = None\<rparr>"

definition sample_intake :: "intake_event list" where
  "sample_intake = [IOpen, IReceive sample_borrowed, ISend, IDispatch sample_client live_channel, IReceive sample_borrowed]"

definition sample_start :: intake where
  "sample_start = \<lparr>it_program = sample_program (RetryPolicy_default (\<lambda>x. x)) (ShutdownCoordinator_new 30), it_reader = Unopened,
     it_hand = None, it_stream = [], it_stopped = False, it_dispatching = True, it_joining = False, it_returned = False\<rparr>"

lemma sample_intake_run:
  "\<exists>s. run_of (intake_step rt utf8 cfg) sample_start sample_intake = Some s \<and> it_reader s = Reading"
  by (simp add: sample_start_def sample_intake_def sample_borrowed_def from_borrowed_def STREAM_CAPACITY_def lift_step_def
      program_eval fresh_queues_def queue_capacity_def sample_py_config_def cong: res_bind_weak_cong)

lemma sample_intake_built:
  "\<exists>(rt :: Runtime) g. RuntimeBuilder_build calm_outside [''t''] sample_py_config one_consumer snapshot_globals_new = Inr (Inr (rt, g))
     \<and> intake_new rt = sample_start"
  using sample_built by (auto simp: intake_new_def sample_start_def)

theorem received_messages_accounted_witness:
  "\<exists>(rt :: Runtime) s. runs (intake_step (route (rt_router rt)) (\<lambda>b. []) (rt_commit_config rt)) (intake_new rt) sample_intake s
     \<and> [from_borrowed sample_borrowed, from_borrowed sample_borrowed] = told offered_in (pg_trace (it_program s)) @ it_stream s @ in_hand s"
proof -
  obtain rt g where rt: "RuntimeBuilder_build calm_outside [''t''] sample_py_config one_consumer snapshot_globals_new = Inr (Inr (rt, g))"
    "intake_new rt = sample_start" using sample_intake_built by blast
  obtain s where s: "runs (intake_step (route (rt_router rt)) (\<lambda>b. []) (rt_commit_config rt)) (intake_new rt) sample_intake s" "it_reader s = Reading"
    using sample_intake_run unfolding rt(2) runs_run_of by blast
  have "concat (map received_in sample_intake) = [from_borrowed sample_borrowed, from_borrowed sample_borrowed]"
    by (simp add: sample_intake_def)
  with received_messages_accounted [OF rt(1) iterates_one_consumer s(1)] s(2)
  have "[from_borrowed sample_borrowed, from_borrowed sample_borrowed] = told offered_in (pg_trace (it_program s)) @ it_stream s @ in_hand s" by auto
  with s(1) show ?thesis by blast
qed

text \<open>
  C30 (liveness). When \<open>start()\<close> returns, exactly. Take any moment after the pool has shut down. Some continuation lets
  \<open>start()\<close> return if and only if a signal had come before that shutdown and the stop of the runner has not been lost: after
  \<open>stop()\<close> from Python the committer never ends, and a stop that was broadcast before the stream was opened leaves the dispatcher
  waiting for ever.
\<close>

theorem when_start_returns:
  assumes "RuntimeBuilder_build out ks config c g = Inr (Inr (rt, g'))"
    "runs (intake_step (route (rt_router rt)) utf8 (rt_commit_config rt)) (intake_new rt) es s" "pg_pool_down (it_program s)"
  shows "(\<exists>es' s'. runs (intake_step (route (rt_router rt)) utf8 (rt_commit_config rt)) s es' s' \<and> it_returned s')
     \<longleftrightarrow> it_returned s \<or> signalled_shutdown (concat (map steps_in es)) \<and> (it_joining s \<longrightarrow> it_stopped s)"
proof -
  let ?S = "intake_step (route (rt_router rt)) utf8 (rt_commit_config rt)"
  have start: "phase (pg_coordinator (program_new rt)) = Running" "\<not> pg_token (program_new rt)" "\<not> pg_pool_down (program_new rt)"
    using build_coordinator [OF assms(1)] by (simp_all add: program_new_def ShutdownCoordinator_new_def)
  then have "ends_ok (intake_new rt)" by (simp add: ends_ok_def intake_new_def) (simp add: program_new_def)
  then have ok: "ends_ok s" by (rule intake_ends.runs_inv [OF assms(2)])
  obtain pes where pes: "runs (program_step (route (rt_router rt)) utf8 (rt_commit_config rt)) (program_new rt) pes (it_program s)"
    "filter (\<lambda>ev. \<not> is_dispatch ev) pes = concat (map steps_in es)"
    using intake_run_program [OF assms(2)] by (auto simp: intake_new_def)
  have fin: "phase (pg_coordinator (it_program s)) = Done \<longleftrightarrow> signalled_shutdown (concat (map steps_in es))"
    using end_state [OF pes(1) start] signalled_filter [of pes] by (auto simp: pes(2) split: if_splits)
  show ?thesis
  proof
    assume "\<exists>es' s'. runs ?S s es' s' \<and> it_returned s'"
    then obtain es' s' where r: "runs ?S s es' s'" "it_returned s'" by blast
    have "\<not> hangs s" using intake_hangs.runs_inv [OF r(1)] r(2) by (auto simp: hangs_def)
    with ok assms(3) fin show "it_returned s \<or> signalled_shutdown (concat (map steps_in es)) \<and> (it_joining s \<longrightarrow> it_stopped s)"
      by (auto simp: hangs_def)
  next
    assume "it_returned s \<or> signalled_shutdown (concat (map steps_in es)) \<and> (it_joining s \<longrightarrow> it_stopped s)"
    then have "reaches ?S s it_returned" using run_returns [OF ok] fin by (auto intro: reaches_now)
    then show "\<exists>es' s'. runs ?S s es' s' \<and> it_returned s'" by (simp add: reaches_def)
  qed
qed

definition sample_stop :: "intake_event list" where
  "sample_stop = [IOpen, IStep (PStop UnixSignal), IStep (PShutdown plain_env [])]"

lemma sample_stop_run:
  "\<exists>s. run_of (intake_step rt utf8 cfg) sample_start sample_stop = Some s \<and> pg_pool_down (it_program s) \<and> \<not> it_joining s"
  by (simp add: sample_start_def sample_stop_def sample_program_def lift_step_def request_stop_def begin_draining_def cancels_pool_def
      pool_shutdown_phases ShutdownCoordinator_new_def)

theorem when_start_returns_witness:
  "\<exists>(rt :: Runtime) s es' s'. runs (intake_step (route (rt_router rt)) (\<lambda>b. []) (rt_commit_config rt)) (intake_new rt) sample_stop s
     \<and> runs (intake_step (route (rt_router rt)) (\<lambda>b. []) (rt_commit_config rt)) s es' s' \<and> it_returned s'"
proof -
  obtain rt g where rt: "RuntimeBuilder_build calm_outside [''t''] sample_py_config one_consumer snapshot_globals_new = Inr (Inr (rt, g))"
    "intake_new rt = sample_start" using sample_intake_built by blast
  obtain s where s: "runs (intake_step (route (rt_router rt)) (\<lambda>b. []) (rt_commit_config rt)) (intake_new rt) sample_stop s"
    "pg_pool_down (it_program s)" "\<not> it_joining s"
    using sample_stop_run unfolding rt(2) runs_run_of by blast
  have "signalled_shutdown (concat (map steps_in sample_stop))" by (simp add: sample_stop_def)
  with when_start_returns [OF rt(1) s(1,2)] s(1,3) show ?thesis by blast
qed

end
