(* ===== verification/Observed.thy ===== *)
theory Observed
  imports Refinement
begin

text \<open>
  The running program under observation: the status that its workers post (\<^verbatim>\<open>src/worker_pool/worker.rs\<close>,
  \<^verbatim>\<open>src/worker_pool/batch_loop.rs\<close>), the metrics that workers and the dead-letter task record, and the task that polls them
  (\<^verbatim>\<open>src/observability/runtime_snapshot.rs\<close>), beside the tasks of \<open>Program\<close>. It shows that observing changes nothing,
  that what Python reads is a true picture of the program at the last poll, and what the counters mean.
\<close>

section \<open>State\<close>

record observed =
  ob_program :: program
  ob_board :: WorkerPoolState
  ob_sink :: PrometheusSink
  ob_task :: nat
  ob_globals :: snapshot_globals

definition observed_new :: "Runtime \<Rightarrow> snapshot_globals \<Rightarrow> observed" where
  \<comment> \<open>\<open>g\<close>: the globals of the process before the runtime is built\<close>
  "observed_new rt g =
     \<lparr>ob_program = program_new rt, ob_board = rt_pool_state rt, ob_sink = rt_sink rt,
      ob_task = length (sg_tasks g), ob_globals = RuntimeSnapshotTask_spawn g\<rparr>"

section \<open>What a step posts and records\<close>

definition next_batch :: "task \<Rightarrow> batch option" where
  \<comment> \<open>the batch that a worker is to run next, unless it is empty\<close>
  "next_batch task = (case task of Gathering l (b # bs) \<Rightarrow> if snd b = [] then None else Some b | _ \<Rightarrow> None)"

definition task_posts :: "nat \<Rightarrow> task \<Rightarrow> work_input \<Rightarrow> task \<Rightarrow> WorkerPoolState \<Rightarrow> WorkerPoolState" where
  \<comment> \<open>a worker posts when it takes a message and when it is done with it, not between attempts\<close>
  "task_posts i task inp task' s =
     (case inp of
        WTake \<Rightarrow> (case task' of
            Invoking m \<Rightarrow> set_active i (msg_topic m) (msg_topic m) (msg_partition m) (msg_offset m) s
          | _ \<Rightarrow> s)
      | WResult e r \<Rightarrow> (case task' of Backoff m d \<Rightarrow> s | _ \<Rightarrow> set_idle i s)
      | WCancelled \<Rightarrow> (case task of Backoff m d \<Rightarrow> set_idle i s | _ \<Rightarrow> s)
      | WFlush e answer \<Rightarrow> (if next_batch task = None then s else set_idle i s)
      | _ \<Rightarrow> s)"

definition entered :: "task \<Rightarrow> work_input \<Rightarrow> WorkerStatus option \<Rightarrow> bool" where
  \<comment> \<open>a batch is handed to Python once the worker has posted that it is busy\<close>
  "entered task inp status \<longleftrightarrow>
     (case inp of WFlush e answer \<Rightarrow> next_batch task = None \<or> status = Some (StBusy ''shared'') | _ \<Rightarrow> True)"

definition task_records ::
  "(real \<Rightarrow> real) \<Rightarrow> (bytes \<Rightarrow> string) \<Rightarrow> PythonHandler res \<Rightarrow> nat \<Rightarrow> invocation_times \<Rightarrow> task \<Rightarrow> work_input \<Rightarrow> metric_call list res" where
  \<comment> \<open>all records of an invocation are made when Python has answered, the waiting time for a permit included\<close>
  "task_records rnd utf8 handler i t task inp =
     (case inp of
        WResult e r \<Rightarrow> (case task of
            Invoking m \<Rightarrow> res_bind handler (\<lambda>h. Inr (worker_records rnd h (worker_context utf8 i m) r t))
          | _ \<Rightarrow> Inr [])
      | WFlush e answer \<Rightarrow> (case next_batch task of
            Some (part, batch) \<Rightarrow> res_bind handler (\<lambda>h.
              Inr (batch_records rnd h (msg_topic (hd batch)) part (length batch) (batch_result_of batch answer) (it_call t)))
          | None \<Rightarrow> Inr [])
      | _ \<Rightarrow> Inr [])"

fun letter_records :: "dlq_effect \<Rightarrow> metric_call list" where
  "letter_records (CountDlq dest origin) = record_dlq_message dest origin"
| "letter_records _ = []"

fun posts :: "program \<Rightarrow> program_event \<Rightarrow> program \<Rightarrow> WorkerPoolState \<Rightarrow> WorkerPoolState" where
  "posts p (PWork i inp) p' s = task_posts i (snd (pg_workers p ! i)) inp (snd (pg_workers p' ! i)) s"
| "posts p ev p' s = s"

fun records ::
  "(real \<Rightarrow> real) \<Rightarrow> (bytes \<Rightarrow> string) \<Rightarrow> string list \<Rightarrow> (string \<rightharpoonup> PythonHandler) \<Rightarrow> invocation_times
   \<Rightarrow> program \<Rightarrow> program_event \<Rightarrow> metric_call list res" where
  "records rnd utf8 ks handlers t p (PWork i inp) =
     (let (topic, task) = pg_workers p ! i in task_records rnd utf8 (handler_for_topic ks handlers topic) i t task inp)"
| "records rnd utf8 ks handlers t p (PLetter broker) =
     (case dlq_queue (svc_dlq (pg_services p)) of [] \<Rightarrow> Inr []
      | msg # _ \<Rightarrow> Inr (concat (map letter_records (do_produce broker msg))))"
| "records rnd utf8 ks handlers t p ev = Inr []"

section \<open>The system\<close>

datatype observed_event =
    OStep invocation_times program_event
  | OEnter nat
  | OTick int "string list" "TopicPartitionKey list"
  | OOther snapshot_event

fun may_step :: "observed \<Rightarrow> program_event \<Rightarrow> bool" where
  "may_step ob (PWork i inp) \<longleftrightarrow> entered (snd (pg_workers (ob_program ob) ! i)) inp (ob_board ob i)"
| "may_step ob ev \<longleftrightarrow> True"

fun own_poll :: "nat \<Rightarrow> snapshot_event \<Rightarrow> bool" where
  "own_poll i (Polled j snap) \<longleftrightarrow> i = j"
| "own_poll i ev \<longleftrightarrow> False"

fun observed_step ::
  "(real \<Rightarrow> real) \<Rightarrow> (bytes \<Rightarrow> string) \<Rightarrow> string list \<Rightarrow> Runtime \<Rightarrow> observed \<Rightarrow> observed_event \<Rightarrow> observed res option" where
  \<comment> \<open>a step of the program; a batch worker on its way into Python; a tick of the poller; other runtimes and Python\<close>
  "observed_step rnd utf8 ks rt ob (OStep t ev) =
     (if \<not> may_step ob ev then None
      else case program_step (route (rt_router rt)) utf8 (rt_commit_config rt) (ob_program ob) ev of
        None \<Rightarrow> None
      | Some r \<Rightarrow> Some (res_bind (records rnd utf8 ks (rt_handlers rt) t (ob_program ob) ev) (\<lambda>calls. res_bind r (\<lambda>p.
          Inr (ob\<lparr>ob_program := p, ob_board := posts (ob_program ob) ev p (ob_board ob),
                  ob_sink := foldl sink_call (ob_sink ob) calls\<rparr>)))))"
| "observed_step rnd utf8 ks rt ob (OEnter i) =
     (if i < length (pg_workers (ob_program ob)) \<and> \<not> pg_pool_down (ob_program ob) \<and> next_batch (snd (pg_workers (ob_program ob) ! i)) \<noteq> None
      then Some (Inr (ob\<lparr>ob_board := set_busy i ''shared'' (ob_board ob)\<rparr>)) else None)"
| "observed_step rnd utf8 ks rt ob (OTick now qks oks) =
     (let s = pg_services (ob_program ob)
      in if iterates qks (svc_queues s) \<and> iterates oks (partitions (svc_offsets s))
         then let (snap, sink) = poll_and_update rnd now qks oks (Some (svc_queues s)) (Some (svc_offsets s)) (Some (ob_board ob)) (ob_sink ob)
              in Some (Inr (ob\<lparr>ob_sink := sink, ob_globals := store_snapshot (ob_task ob) snap (ob_globals ob)\<rparr>))
         else None)"
| "observed_step rnd utf8 ks rt ob (OOther ev) =
     (if own_poll (ob_task ob) ev then None else Some (Inr (ob\<lparr>ob_globals := snapshot_step (ob_globals ob) ev\<rparr>)))"

text \<open>
  The token of the poller is made with it and nobody else holds it: the branch of its loop that ends it is never taken, and a tick
  stays possible after the program has ended. The callbacks that a tick invokes are none.
\<close>

section \<open>Steps\<close>

lemma observed_step_cases:
  assumes "observed_step rnd utf8 ks rt ob e = Some (Inr ob')"
  obtains
    (step) t ev calls p where "e = OStep t ev" "may_step ob ev"
      "program_step (route (rt_router rt)) utf8 (rt_commit_config rt) (ob_program ob) ev = Some (Inr p)"
      "records rnd utf8 ks (rt_handlers rt) t (ob_program ob) ev = Inr calls"
      "ob' = ob\<lparr>ob_program := p, ob_board := posts (ob_program ob) ev p (ob_board ob), ob_sink := foldl sink_call (ob_sink ob) calls\<rparr>"
  | (enter) i where "e = OEnter i" "i < length (pg_workers (ob_program ob))" "\<not> pg_pool_down (ob_program ob)"
      "next_batch (snd (pg_workers (ob_program ob) ! i)) \<noteq> None"
      "ob' = ob\<lparr>ob_board := set_busy i ''shared'' (ob_board ob)\<rparr>"
  | (tick) now qks oks snap sink where "e = OTick now qks oks"
      "iterates qks (svc_queues (pg_services (ob_program ob)))"
      "iterates oks (partitions (svc_offsets (pg_services (ob_program ob))))"
      "poll_and_update rnd now qks oks (Some (svc_queues (pg_services (ob_program ob))))
         (Some (svc_offsets (pg_services (ob_program ob)))) (Some (ob_board ob)) (ob_sink ob) = (snap, sink)"
      "ob' = ob\<lparr>ob_sink := sink, ob_globals := store_snapshot (ob_task ob) snap (ob_globals ob)\<rparr>"
  | (other) ev where "e = OOther ev" "\<not> own_poll (ob_task ob) ev" "ob' = ob\<lparr>ob_globals := snapshot_step (ob_globals ob) ev\<rparr>"
proof (cases e)
  case (OStep t ev)
  then obtain r where r: "may_step ob ev"
    "program_step (route (rt_router rt)) utf8 (rt_commit_config rt) (ob_program ob) ev = Some r"
    "res_bind (records rnd utf8 ks (rt_handlers rt) t (ob_program ob) ev) (\<lambda>calls. res_bind r (\<lambda>p.
          Inr (ob\<lparr>ob_program := p, ob_board := posts (ob_program ob) ev p (ob_board ob),
                  ob_sink := foldl sink_call (ob_sink ob) calls\<rparr>))) = Inr ob'"
    using assms by (auto simp del: program_step.simps split: if_splits option.splits)
  then obtain calls p where "records rnd utf8 ks (rt_handlers rt) t (ob_program ob) ev = Inr calls" "r = Inr p"
    "ob' = ob\<lparr>ob_program := p, ob_board := posts (ob_program ob) ev p (ob_board ob), ob_sink := foldl sink_call (ob_sink ob) calls\<rparr>"
    by auto
  with r OStep show ?thesis using step by blast
next
  case (OEnter i)
  with assms show ?thesis by (auto split: if_splits intro: enter)
next
  case (OTick now qks oks)
  then show ?thesis using assms by (auto simp: Let_def split: if_splits prod.splits intro: tick)
next
  case (OOther ev)
  with assms show ?thesis by (auto split: if_splits intro: other)
qed

fun program_events_in :: "observed_event \<Rightarrow> program_event list" where
  "program_events_in (OStep t ev) = [ev]"
| "program_events_in _ = []"

definition program_events :: "observed_event list \<Rightarrow> program_event list" where
  "program_events es = concat (map program_events_in es)"

lemma program_events_simps [simp]:
  "program_events [] = []" "program_events (e # es) = program_events_in e @ program_events es"
  "program_events (es @ es') = program_events es @ program_events es'"
  by (simp_all add: program_events_def)

text \<open>A run under observation is a run of the program.\<close>

lemma observed_program_run:
  assumes "runs (observed_step rnd utf8 ks rt) ob es ob'"
  shows "runs (program_step (route (rt_router rt)) utf8 (rt_commit_config rt)) (ob_program ob) (program_events es) (ob_program ob')
     \<and> ob_task ob' = ob_task ob"
  using assms
proof (induction rule: runs.induct)
  case (runs_snoc ob es ob1 e ob2)
  from runs_snoc(2) show ?case
    by (cases rule: observed_step_cases) (use runs_snoc in \<open>auto intro: runs.intros(2)\<close>)
qed simp

section \<open>The board\<close>

definition active_on :: "OwnedMessage \<Rightarrow> WorkerStatus" where
  "active_on m = StActive (msg_topic m) (msg_topic m) (msg_partition m) (msg_offset m)"

fun shows_task :: "task \<Rightarrow> WorkerStatus \<Rightarrow> bool" where
  "shows_task (Invoking m) st \<longleftrightarrow> st = active_on m"
| "shows_task (Backoff m d) st \<longleftrightarrow> st = active_on m"
| "shows_task (Gathering l bs) st \<longleftrightarrow> st = StIdle \<or> st = StBusy ''shared'' \<and> next_batch (Gathering l bs) \<noteq> None"
| "shows_task _ st \<longleftrightarrow> st = StIdle"

definition board_ok :: "nat \<Rightarrow> observed \<Rightarrow> bool" where
  "board_ok n ob \<longleftrightarrow> dom (ob_board ob) = {..<n} \<and> length (pg_workers (ob_program ob)) \<le> n
     \<and> (\<forall>i st. ob_board ob i = Some st \<longrightarrow>
          (if i < length (pg_workers (ob_program ob)) then shows_task (snd (pg_workers (ob_program ob) ! i)) st else st = StIdle))"

lemma task_posts_other: "j \<noteq> i \<Longrightarrow> task_posts i task inp task' s j = s j"
  by (auto simp: task_posts_def status_defs split: work_input.splits task.splits)

lemma task_posts_dom: "s i \<noteq> None \<Longrightarrow> task_posts i task inp task' s i \<noteq> None"
  by (auto simp: task_posts_def status_defs split: work_input.splits task.splits)

lemma gather_shows: "shows_task (gather l bs) StIdle"
  by (simp add: gather_def)

lemma work_status:
  assumes "work_step rt utf8 i topic cancelled s task inp = Some (Inr (s', task', es))"
    "b i = Some st" "shows_task task st" "entered task inp (b i)" "task_posts i task inp task' b i = Some st'"
  shows "shows_task task' st'"
  using assms(1)
proof (cases rule: work_step_cases)
  case (result m e r s1 action)
  then show ?thesis using assms(2-5)
    by (auto simp: after_result_def task_posts_def status_defs active_on_def split: option.splits ExecutionAction.splits if_splits)
next
  case (flush l part ms bs e answer)
  then show ?thesis using assms(2-5)
    by (auto simp: task_posts_def status_defs entered_def gather_shows next_batch_def split: if_splits)
qed (use assms(2-5) in \<open>auto simp: task_posts_def status_defs active_on_def gather_shows next_batch_def\<close>)

lemma board_okD:
  assumes "board_ok n ob" "ob_board ob i = Some st"
  shows "i < length (pg_workers (ob_program ob)) \<Longrightarrow> shows_task (snd (pg_workers (ob_program ob) ! i)) st"
    and "length (pg_workers (ob_program ob)) \<le> i \<Longrightarrow> st = StIdle" and "i < n"
proof -
  have "(if i < length (pg_workers (ob_program ob)) then shows_task (snd (pg_workers (ob_program ob) ! i)) st else st = StIdle) \<and> i < n"
    using assms by (auto simp: board_ok_def)
  then show "i < length (pg_workers (ob_program ob)) \<Longrightarrow> shows_task (snd (pg_workers (ob_program ob) ! i)) st"
    and "length (pg_workers (ob_program ob)) \<le> i \<Longrightarrow> st = StIdle" and "i < n" by auto
qed

lemma board_update:
  assumes "board_ok n ob" "i < length (pg_workers (ob_program ob))"
    "\<And>j. j \<noteq> i \<Longrightarrow> b j = ob_board ob j" "b i = Some st" "shows_task task' st"
    "pg_workers p = (pg_workers (ob_program ob))[i := (topic, task')]"
  shows "board_ok n (ob\<lparr>ob_program := p, ob_board := b, ob_sink := sink\<rparr>)"
proof -
  have "i < n" using assms(1,2) by (auto simp: board_ok_def)
  then have "i \<in> dom (ob_board ob)" using assms(1) by (simp add: board_ok_def)
  then have "dom b = dom (ob_board ob)" using assms(3,4) by (auto simp: dom_def) metis+
  moreover have "if j < length (pg_workers p) then shows_task (snd (pg_workers p ! j)) st' else st' = StIdle"
    if "b j = Some st'" for j st'
    using that assms by (cases "j = i") (auto simp: board_ok_def)
  ultimately show ?thesis using assms(1,6) unfolding board_ok_def by simp (metis length_list_update)
qed

lemma work_board:
  assumes "board_ok n ob" "program_step rt utf8 cfg (ob_program ob) (PWork i inp) = Some (Inr p)" "may_step ob (PWork i inp)"
  shows "board_ok n (ob\<lparr>ob_program := p, ob_board := posts (ob_program ob) (PWork i inp) p (ob_board ob), ob_sink := sink\<rparr>)"
  using assms(2)
proof (cases rule: program_step_cases)
  case (work j inp' topic task s task' es)
  then have ij: "j = i" "inp' = inp" by simp_all
  let ?b = "task_posts i task inp task' (ob_board ob)"
  have "i < n" using assms(1) work(2) ij by (auto simp: board_ok_def)
  then have "i \<in> dom (ob_board ob)" using assms(1) by (simp add: board_ok_def)
  then obtain st where st: "ob_board ob i = Some st" by auto
  then obtain st' where st': "?b i = Some st'" using task_posts_dom [of "ob_board ob" i] by blast
  have "shows_task task st" using board_okD(1) [OF assms(1) st] work(2,4) ij by simp
  with work_status [OF work(5) [unfolded ij] st _ _ st'] assms(3) work(4) ij have "shows_task task' st'" by simp
  moreover have "pg_workers p = (pg_workers (ob_program ob))[i := (topic, task')]" using work(6) ij by simp
  ultimately show ?thesis
    using board_update [where b = ?b, OF assms(1) work(2) [unfolded ij] _ st'] task_posts_other [of _ i] work ij by simp
qed simp_all

lemma quiet_workers:
  assumes "program_step rt utf8 cfg p ev = Some (Inr p')" "\<forall>i inp. ev \<noteq> PWork i inp"
  shows "pg_workers p' = pg_workers p" "posts p ev p' b = b" "may_step ob ev"
  using assms(1)
proof -
  from assms show "pg_workers p' = pg_workers p" by (cases rule: program_step_cases) auto
  show "posts p ev p' b = b" "may_step ob ev" using assms(2) by (cases ev; auto)+
qed

interpretation observed_board: step_invariant "observed_step rnd utf8 ks rt" "board_ok n" for rnd utf8 ks rt n
proof (unfold_locales, goal_cases)
  case (1 ob e ob')
  from 1(2) show ?case
  proof (cases rule: observed_step_cases)
    case (step t ev calls p)
    show ?thesis
    proof (cases "\<exists>i inp. ev = PWork i inp")
      case True
      with step 1(1) work_board show ?thesis by blast
    next
      case False
      with quiet_workers [OF step(3)] 1(1) step(5) show ?thesis by (simp add: board_ok_def)
    qed
  next
    case (enter i)
    then obtain l bs where "snd (pg_workers (ob_program ob) ! i) = Gathering l bs"
      by (auto simp: next_batch_def split: task.splits)
    with 1(1) enter show ?thesis
      by (auto simp: board_ok_def set_busy_def insert_absorb)
  qed (use 1(1) in \<open>simp_all add: board_ok_def\<close>)
qed

lemma pool_length:
  assumes "RuntimeBuilder_build out ks config c g = Inr (Inr (rt, g'))"
  shows "length (pg_workers (program_new rt)) \<le> n_workers config" "rt_pool_state rt = WorkerPoolState_new (n_workers config)"
    "rt_sink rt = SharedPrometheusSink_new"
proof -
  have "length (rt_workers rt) = length (take (n_workers config) ks)"
    using arg_cong [OF build_workers [OF assms], of length] by simp
  then show "length (pg_workers (program_new rt)) \<le> n_workers config" by (simp add: program_new_def)
  show "rt_pool_state rt = WorkerPoolState_new (n_workers config)" "rt_sink rt = SharedPrometheusSink_new"
    using assms by (auto simp: RuntimeBuilder_build_def Let_def split: sum.splits if_splits)
qed

lemma task_new_shows: "shows_task (task_new kind) StIdle"
  by (auto simp: task_new_def split: worker_kind.splits sum.splits)

lemma observed_new_board:
  assumes "RuntimeBuilder_build out ks config c g = Inr (Inr (rt, g'))"
  shows "board_ok (n_workers config) (observed_new rt g0)"
proof -
  have "shows_task (snd (pg_workers (program_new rt) ! i)) StIdle" if "i < length (pg_workers (program_new rt))" for i
    using that by (simp add: program_new_def case_prod_beta task_new_shows)
  then show ?thesis using pool_length [OF assms]
    by (auto simp: board_ok_def observed_new_def WorkerPoolState_new_def split: if_splits)
qed

section \<open>What a snapshot shows\<close>

definition polled :: "(real \<Rightarrow> real) \<Rightarrow> observed \<Rightarrow> RuntimeSnapshot \<Rightarrow> bool" where
  \<comment> \<open>the snapshot that a poll in this state makes\<close>
  "polled rnd ob snap \<longleftrightarrow>
     (let s = pg_services (ob_program ob)
      in \<exists>now qks oks sink. iterates oks (partitions (svc_offsets s)) \<and>
           poll_and_update rnd now qks oks (Some (svc_queues s)) (Some (svc_offsets s)) (Some (ob_board ob)) (ob_sink ob) = (snap, sink))"

definition truthful :: "RuntimeSnapshot \<Rightarrow> program \<Rightarrow> bool" where
  "truthful snap p \<longleftrightarrow>
     (\<forall>i<length (pg_workers p). \<exists>st. rs_worker_states snap i = Some (WorkerState_of_status st) \<and> shows_task (snd (pg_workers p ! i)) st)
     \<and> (\<forall>topic. case (svc_queues (pg_services p) topic, rs_queue_depths snap topic) of
          (None, info) \<Rightarrow> info = None
        | (Some h, None) \<Rightarrow> False
        | (Some h, Some info) \<Rightarrow> length (told accepted_in (pg_trace p)) < 2 ^ 64 \<longrightarrow>
            unat (qd_inflight info) = in_flight p topic \<and> qd_queue_depth info = qd_inflight info)
     \<and> (\<forall>topic part. case lag_of (cl_per_topic (rs_consumer_lag_summary snap)) topic part of
          None \<Rightarrow> highest_contiguous (svc_offsets (pg_services p)) topic part = None
        | Some info \<Rightarrow> highest_contiguous (svc_offsets (pg_services p)) topic part = Some (pl_committed_offset info)
            \<and> covered (pg_trace p) topic part (pl_committed_offset info))"

fun is_tick :: "observed_event \<Rightarrow> bool" where
  "is_tick (OTick now qks oks) \<longleftrightarrow> True"
| "is_tick _ \<longleftrightarrow> False"

lemma poll_truthful:
  assumes "RuntimeBuilder_build out ks config c g0 = Inr (Inr (rt, g'))" "iterates ks (pc_handlers c)"
    "runs (observed_step rnd utf8 ks rt) (observed_new rt g) es ob" "polled rnd ob snap"
  shows "truthful snap (ob_program ob)"
proof -
  let ?p = "ob_program ob" and ?s = "pg_services (ob_program ob)"
  have run: "runs (program_step (route (rt_router rt)) utf8 (rt_commit_config rt)) (program_new rt) (program_events es) ?p"
    using observed_program_run [OF assms(3)] by (simp add: observed_new_def)
  have board: "board_ok (n_workers config) ob"
    using observed_board.runs_inv [OF assms(3) observed_new_board [OF assms(1)]] .
  from assms(4) obtain now qks oks sink where poll: "iterates oks (partitions (svc_offsets ?s))"
    "poll_and_update rnd now qks oks (Some (svc_queues ?s)) (Some (svc_offsets ?s)) (Some (ob_board ob)) (ob_sink ob) = (snap, sink)"
    by (auto simp: polled_def Let_def)
  note view = poll_reflects_components [OF poll]
  have "\<exists>st. rs_worker_states snap i = Some (WorkerState_of_status st) \<and> shows_task (snd (pg_workers ?p ! i)) st"
    if "i < length (pg_workers ?p)" for i
  proof -
    have "i \<in> dom (ob_board ob)" using that board by (auto simp: board_ok_def)
    then obtain st where "ob_board ob i = Some st" by auto
    with view [of undefined i undefined] board_okD(1) [OF board this that] show ?thesis by auto
  qed
  moreover have "case (svc_queues ?s topic, rs_queue_depths snap topic) of
      (None, info) \<Rightarrow> info = None
    | (Some h, None) \<Rightarrow> False
    | (Some h, Some info) \<Rightarrow> length (told accepted_in (pg_trace ?p)) < 2 ^ 64 \<longrightarrow>
        unat (qd_inflight info) = in_flight ?p topic \<and> qd_queue_depth info = qd_inflight info" for topic
    using view [of topic undefined undefined] built_counted [OF assms(1,2) run] by (auto split: option.splits)
  moreover have "case lag_of (cl_per_topic (rs_consumer_lag_summary snap)) topic part of
      None \<Rightarrow> highest_contiguous (svc_offsets ?s) topic part = None
    | Some info \<Rightarrow> highest_contiguous (svc_offsets ?s) topic part = Some (pl_committed_offset info)
        \<and> covered (pg_trace ?p) topic part (pl_committed_offset info)" for topic part
    using view [of topic undefined part] watermark_covered [OF assms(1) _ run, of topic part] assms(2)
    by (auto simp: highest_contiguous_def iterates_def split: option.splits)
  ultimately show ?thesis unfolding truthful_def by blast
qed

definition own_snapshot :: "observed \<Rightarrow> RuntimeSnapshot" where
  "own_snapshot ob = get_snapshot (ob_globals ob) (ob_task ob)"

lemma snapshot_history:
  assumes "runs (observed_step rnd utf8 ks rt) (observed_new rt g) es ob"
  shows "ob_task ob < length (sg_tasks (ob_globals ob))
     \<and> (own_snapshot ob = RuntimeSnapshot_default \<and> list_all (Not \<circ> is_tick) es
        \<or> (\<exists>es1 tick es2 ob1. es = es1 @ tick # es2 \<and> is_tick tick \<and> list_all (Not \<circ> is_tick) es2
            \<and> runs (observed_step rnd utf8 ks rt) (observed_new rt g) es1 ob1 \<and> polled rnd ob1 (own_snapshot ob)))"
  using assms
proof (induction es arbitrary: ob rule: rev_induct)
  case Nil
  then show ?case
    by (simp add: observed_new_def RuntimeSnapshotTask_spawn_def own_snapshot_def get_snapshot_def)
next
  case (snoc e es)
  then obtain ob1 where ob1: "runs (observed_step rnd utf8 ks rt) (observed_new rt g) es ob1"
    "observed_step rnd utf8 ks rt ob1 e = Some (Inr ob)" by (auto simp: runs_snoc_iff)
  note IH = snoc.IH [OF ob1(1)]
  have keep: ?case if "own_snapshot ob = own_snapshot ob1" "\<not> is_tick e" "ob_task ob = ob_task ob1"
    "length (sg_tasks (ob_globals ob1)) \<le> length (sg_tasks (ob_globals ob))"
    using IH that by (auto 4 4)
  from ob1(2) show ?case
  proof (cases rule: observed_step_cases)
    case (tick now qks oks snap sink)
    then have "own_snapshot ob = snap" "ob_task ob < length (sg_tasks (ob_globals ob))"
      using IH by (auto simp: own_snapshot_def get_snapshot_def store_snapshot_def)
    moreover have "polled rnd ob1 snap" using tick by (auto simp: polled_def Let_def)
    ultimately show ?thesis using ob1(1) tick(1)
      by (intro conjI disjI2 exI [of _ es] exI [of _ e] exI [of _ "[]"] exI [of _ ob1]) simp_all
  next
    case (other ev)
    then show ?thesis using IH
      by (intro keep; cases ev) (auto simp: own_snapshot_def get_snapshot_def store_snapshot_def
          RuntimeSnapshotTask_spawn_def register_status_callback_def nth_append split: option.splits)
  qed (rule keep; simp add: own_snapshot_def)+
qed

lemma first_runtime_read:
  assumes "sg_global g = None" "runs (observed_step rnd utf8 ks rt) (observed_new rt g) es ob"
  shows "get_current_snapshot (ob_globals ob) = own_snapshot ob"
proof -
  have "sg_global (ob_globals ob) = Some (ob_task ob)"
    using assms(2)
  proof (induction es arbitrary: ob rule: rev_induct)
    case Nil
    then show ?case using assms(1) by (simp add: observed_new_def RuntimeSnapshotTask_spawn_def)
  next
    case (snoc e es)
    then obtain ob1 where ob1: "runs (observed_step rnd utf8 ks rt) (observed_new rt g) es ob1"
      "observed_step rnd utf8 ks rt ob1 e = Some (Inr ob)" by (auto simp: runs_snoc_iff)
    have "sg_global (snapshot_step h ev) = sg_global h" if "sg_global h \<noteq> None" for h ev
      using that by (cases ev) (auto simp: RuntimeSnapshotTask_spawn_def store_snapshot_def register_status_callback_def
          split: option.splits)
    with ob1(2) snoc.IH [OF ob1(1)] show ?case
      by (cases rule: observed_step_cases) (auto simp: store_snapshot_def)
  qed
  then show ?thesis by (simp add: get_current_snapshot_def own_snapshot_def)
qed

section \<open>What the counters tell\<close>

definition hits :: "string \<Rightarrow> metric_call list \<Rightarrow> nat" where
  "hits n calls = length (filter (counter_hits n) calls)"

lemma hits_simps [simp]:
  "hits n [] = 0" "hits n (c # cs) = (if counter_hits n c then 1 else 0) + hits n cs" "hits n (cs @ cs') = hits n cs + hits n cs'"
  by (simp_all add: hits_def)

lemma hits_concat: "hits n (concat (map f xs)) = sum_list (map (\<lambda>x. hits n (f x)) xs)"
  by (induction xs) simp_all

fun is_attempt :: "observed_event \<Rightarrow> bool" where
  \<comment> \<open>a single message came back from Python\<close>
  "is_attempt (OStep t (PWork i (WResult e r))) \<longleftrightarrow> True"
| "is_attempt _ \<longleftrightarrow> False"

fun is_failed_attempt :: "observed_event \<Rightarrow> bool" where
  "is_failed_attempt (OStep t (PWork i (WResult e r))) \<longleftrightarrow> \<not> is_ok r"
| "is_failed_attempt _ \<longleftrightarrow> False"

fun is_timed_out :: "observed_event \<Rightarrow> bool" where
  "is_timed_out (OStep t (PWork i (WResult e r))) \<longleftrightarrow> is_timeout r"
| "is_timed_out _ \<longleftrightarrow> False"

fun is_delivery :: "dlq_effect \<Rightarrow> bool" where
  "is_delivery (Delivered r) \<longleftrightarrow> True"
| "is_delivery _ \<longleftrightarrow> False"

fun delivered_in :: "trace_entry \<Rightarrow> DLQMessage list" where
  \<comment> \<open>letters that the broker took\<close>
  "delivered_in (Called (ToProducer msg effects)) = (if list_ex is_delivery effects then [msg] else [])"
| "delivered_in _ = []"

definition delivered :: "program \<Rightarrow> DLQMessage list" where
  "delivered p = concat (map delivered_in (pg_trace p))"

lemma poll_hits:
  assumes "poll_and_update rnd now qks oks (Some q) (Some t) (Some b) sink = (snap, sink')"
  shows "counters sink' = counters sink"
proof
  fix n
  have lag: "snd (snd (lag_loop rnd sn acc m)) = calls \<Longrightarrow> hits n calls = 0" for sn acc m calls
    by (induction rnd sn acc m arbitrary: calls rule: lag_loop.induct)
      (auto simp: record_lag_def Let_def split: prod.splits)
  have depth: "hits n (snd (poll_queue_depths rnd qks (Some q))) = 0"
    by (auto simp: poll_queue_depths_def hits_concat record_queue_depth_def sum_list_eq_0_iff split: option.splits)
  have "hits n (snd (poll_consumer_lag rnd oks (Some t))) = 0"
    using lag [OF refl] by (force simp: poll_consumer_lag_def Let_def case_prod_beta)
  with depth assms show "counters sink' n = counters sink n"
    by (auto simp: poll_and_update_def prometheus.counter_run hits_def option.map_ident simp del: foldl_append split: prod.splits)
qed

lemmas family_defs = worker_records_def batch_records_def batch_result_records_def recorder_defs

lemma worker_record_hits:
  "hits ''kafpy.handler.invocation'' (worker_records rnd h ctx r t) = 1"
  "hits ''kafpy.message.throughput'' (worker_records rnd h ctx r t) = 1"
  "hits ''kafpy.handler.error'' (worker_records rnd h ctx r t) = (if is_ok r then 0 else 1)"
  "hits ''kafpy.handler.timeout_total'' (worker_records rnd h ctx r t) = (if is_timeout r then 1 else 0)"
  "hits ''kafpy.dlq.messages'' (worker_records rnd h ctx r t) = 0"
  by (simp_all add: family_defs)

lemma batch_record_hits:
  "hits ''kafpy.handler.invocation'' (batch_records rnd h topic part n (batch_result_of ms answer) d) = 0"
  "hits ''kafpy.message.throughput'' (batch_records rnd h topic part n (batch_result_of ms answer) d)
     = (if answer = PyReturned then length ms else 0)"
  "hits ''kafpy.handler.error'' (batch_records rnd h topic part n (batch_result_of ms answer) d) = 0"
  "hits ''kafpy.handler.timeout_total'' (batch_records rnd h topic part n (batch_result_of ms answer) d) = 0"
  "hits ''kafpy.dlq.messages'' (batch_records rnd h topic part n (batch_result_of ms answer) d) = 0"
  by (cases answer; simp add: family_defs hits_concat sum_list_triv)+

lemma letter_record_hits:
  "n \<noteq> ''kafpy.dlq.messages'' \<Longrightarrow> hits n (concat (map letter_records (do_produce broker msg))) = 0"
  "hits ''kafpy.dlq.messages'' (concat (map letter_records (do_produce broker msg)))
     = (if list_ex is_delivery (do_produce broker msg) then 1 else 0)"
  by (auto simp: do_produce_def record_dlq_message_def Let_def)

definition accounts :: "observed_event \<Rightarrow> program \<Rightarrow> program \<Rightarrow> metric_call list \<Rightarrow> bool" where
  "accounts e p p' calls \<longleftrightarrow>
     hits ''kafpy.handler.invocation'' calls = (if is_attempt e then 1 else 0)
     \<and> hits ''kafpy.handler.error'' calls = (if is_failed_attempt e then 1 else 0)
     \<and> hits ''kafpy.handler.timeout_total'' calls = (if is_timed_out e then 1 else 0)
     \<and> hits ''kafpy.message.throughput'' calls + length (told succeeded_in (pg_trace p))
         = (if is_failed_attempt e then 1 else 0) + length (told succeeded_in (pg_trace p'))
     \<and> hits ''kafpy.dlq.messages'' calls + length (delivered p) = length (delivered p')"

lemma delivered_simps:
  "concat (map delivered_in (map (Called \<circ> ToClient) cs)) = []" "concat (map delivered_in (map (Called \<circ> ToConsumer) cs')) = []"
  "concat (map delivered_in (map (Called \<circ> ToRebalance) cs'')) = []" "concat (map delivered_in (batch_fates answer ms)) = []"
  "delivered_in (fate_of m a) = []"
proof -
  show "delivered_in (fate_of m a) = []" by (cases "(m, a)" rule: fate_of.cases) simp_all
qed (simp_all add: batch_fates_def)

lemma work_metrics:
  assumes "work_step rt utf8 i topic cancelled s task inp = Some (Inr (s', task', es))"
    "task_records rnd utf8 handler i t task inp = Inr calls" "pg_trace p' = pg_trace p @ es"
  shows "accounts (OStep t (PWork i inp)) p p' calls"
  using assms(1)
proof (cases rule: work_step_cases)
  case (result m e r s1 action)
  obtain h where calls: "calls = worker_records rnd h (worker_context utf8 i m) r t"
    using assms(2) result(1,2) by (auto simp: task_records_def)
  have "told succeeded_in es = (if is_ok r then [m] else [])" "concat (map delivered_in es) = []"
    using result_queues(2) [OF result(3)] result(4) is_ok.simps
    by (cases r; cases "(m, action)" rule: fate_of.cases; auto simp: after_result_def)+
  then show ?thesis using assms(3) result(2)
    by (auto simp: accounts_def calls worker_record_hits delivered_def)
next
  case (flush l part ms bs e answer)
  show ?thesis
  proof (cases "ms = []")
    case True
    then have "calls = []" using assms(2) flush(1,2) by (simp add: task_records_def next_batch_def)
    with True flush assms(3) show ?thesis by (simp add: accounts_def delivered_def batch_fates_def)
  next
    case False
    then obtain h where "calls = batch_records rnd h (msg_topic (hd ms)) part (length ms) (batch_result_of ms answer) (it_call t)"
      using assms(2) flush(1,2) by (auto simp: task_records_def next_batch_def)
    with flush assms(3) show ?thesis by (simp add: accounts_def delivered_def batch_record_hits delivered_simps)
  qed
qed (use assms(2,3) in \<open>auto simp: accounts_def delivered_def task_records_def\<close>)

lemma program_accounts:
  assumes "program_step rt utf8 cfg p ev = Some (Inr p')" "records rnd utf8 ks handlers t p ev = Inr calls"
  shows "accounts (OStep t ev) p p' calls"
proof (cases ev)
  case (PWork i inp)
  obtain topic task where w: "pg_workers p ! i = (topic, task)" by (metis surj_pair)
  with assms(1) PWork obtain s task' es where
    "work_step rt utf8 i topic (pg_token p) (pg_services p) task inp = Some (Inr (s, task', es))" "pg_trace p' = pg_trace p @ es"
    by (auto split: if_splits)
  with work_metrics assms(2) PWork w show ?thesis by simp
next
  case (PLetter broker)
  with assms show ?thesis
    by (auto simp: accounts_def delivered_def letter_record_hits split: list.splits)
next
  case (PShutdown e ks)
  with assms show ?thesis
    by (auto simp: accounts_def delivered_def delivered_simps pool_shutdown_phases simp del: map_map split: if_splits)
qed (use assms in \<open>auto simp: accounts_def delivered_def delivered_simps Let_def simp del: map_map split: if_splits prod.splits\<close>)

lemma observed_accounts:
  assumes "observed_step rnd utf8 ks rt ob e = Some (Inr ob')"
  shows "\<exists>calls. accounts e (ob_program ob) (ob_program ob') calls
     \<and> (\<forall>n. counters (ob_sink ob') n = map_option (\<lambda>x. x + of_nat (hits n calls)) (counters (ob_sink ob) n))"
  using assms
proof (cases rule: observed_step_cases)
  case (step t ev calls p)
  with program_accounts [OF step(3,4)] show ?thesis
    by (intro exI [of _ calls]) (simp add: prometheus.counter_run hits_def)
next
  case (tick now qks oks snap sink)
  with poll_hits [OF tick(4)] show ?thesis
    by (intro exI [of _ "[]"]) (simp add: accounts_def option.map_ident)
qed (auto simp: accounts_def option.map_ident intro!: exI [of _ "[]"])

lemma counter_meaning:
  assumes "runs (observed_step rnd utf8 ks rt) (observed_new rt g) es ob" "rt_sink rt = SharedPrometheusSink_new"
  shows "counters (ob_sink ob) ''kafpy.handler.invocation'' = Some (of_nat (length (filter is_attempt es)))
     \<and> counters (ob_sink ob) ''kafpy.handler.error'' = Some (of_nat (length (filter is_failed_attempt es)))
     \<and> counters (ob_sink ob) ''kafpy.handler.timeout_total'' = Some (of_nat (length (filter is_timed_out es)))
     \<and> counters (ob_sink ob) ''kafpy.message.throughput''
         = Some (of_nat (length (filter is_failed_attempt es) + length (told succeeded_in (pg_trace (ob_program ob)))))
     \<and> counters (ob_sink ob) ''kafpy.dlq.messages'' = Some (of_nat (length (delivered (ob_program ob))))"
  using assms(1)
proof (induction es arbitrary: ob rule: rev_induct)
  case Nil
  then show ?case using assms(2) by (simp add: observed_new_def shared_families program_new_def delivered_def)
next
  case (snoc e es)
  then obtain ob1 where ob1: "runs (observed_step rnd utf8 ks rt) (observed_new rt g) es ob1"
    "observed_step rnd utf8 ks rt ob1 e = Some (Inr ob)" by (auto simp: runs_snoc_iff)
  from observed_accounts [OF ob1(2)] obtain calls where calls: "accounts e (ob_program ob1) (ob_program ob) calls"
    "\<And>n. counters (ob_sink ob) n = map_option (\<lambda>x. x + of_nat (hits n calls)) (counters (ob_sink ob1) n)" by blast
  note a = calls(1) [unfolded accounts_def] and IH = snoc.IH [OF ob1(1)]
  have "(of_nat (length (filter is_failed_attempt es) + length (told succeeded_in (pg_trace (ob_program ob1)))) :: 64 word)
      + of_nat (hits ''kafpy.message.throughput'' calls)
      = of_nat (length (filter is_failed_attempt (es @ [e])) + length (told succeeded_in (pg_trace (ob_program ob))))"
    unfolding of_nat_add [symmetric] using a by (intro arg_cong [where f = of_nat]) (auto split: if_splits)
  moreover have "(of_nat (length (delivered (ob_program ob1))) :: 64 word) + of_nat (hits ''kafpy.dlq.messages'' calls)
      = of_nat (length (delivered (ob_program ob)))"
    unfolding of_nat_add [symmetric] using a by (intro arg_cong [where f = of_nat]) simp
  ultimately show ?case using IH a unfolding calls(2) by (simp add: add.commute)
qed

section \<open>Observing changes nothing\<close>

definition handlers_ok :: "Runtime \<Rightarrow> program \<Rightarrow> bool" where
  "handlers_ok rt p \<longleftrightarrow> list_all (\<lambda>w. rt_handlers rt (fst w) \<noteq> None) (pg_workers p)"

lemma worker_topics:
  assumes "program_step rt utf8 cfg p ev = Some (Inr p')"
  shows "map fst (pg_workers p') = map fst (pg_workers p)"
  using assms
proof (cases rule: program_step_cases)
  case (work i inp topic task s task' es)
  then show ?thesis by (simp add: map_update list_update_same_conv)
qed simp_all

lemma handlers_ok_topics: "handlers_ok rt p \<longleftrightarrow> list_all (\<lambda>t. rt_handlers rt t \<noteq> None) (map fst (pg_workers p))"
  by (simp add: handlers_ok_def list_all_iff)

interpretation program_handlers: step_invariant "program_step rt' utf8 cfg" "handlers_ok rt" for rt' utf8 cfg rt
  by unfold_locales (metis handlers_ok_topics worker_topics)

lemma built_handlers:
  assumes "RuntimeBuilder_build out ks config c g = Inr (Inr (rt, g'))" "iterates ks (pc_handlers c)"
  shows "handlers_ok rt (program_new rt)"
proof -
  have "map fst (pg_workers (program_new rt)) = take (n_workers config) ks"
    using build_workers [OF assms(1)] by (simp add: program_new_def comp_def case_prod_beta)
  moreover have "rt_handlers rt topic \<noteq> None" if "topic \<in> set ks" for topic
    using assms(1) that assms(2)
    by (auto simp: RuntimeBuilder_build_def Let_def handler_map_def iterates_def split: sum.splits if_splits option.splits)
  ultimately show ?thesis by (auto simp: handlers_ok_topics list_all_iff dest: in_set_takeD)
qed

lemma records_total:
  assumes "handlers_ok rt p" "program_step rt' utf8 cfg p ev = Some (Inr p')"
  shows "\<exists>calls. records rnd utf8 ks (rt_handlers rt) t p ev = Inr calls"
proof (cases ev)
  case (PWork i inp)
  obtain topic task where w: "pg_workers p ! i = (topic, task)" by (metis surj_pair)
  have "i < length (pg_workers p)" using assms(2) PWork by (auto split: if_splits)
  then have "(topic, task) \<in> set (pg_workers p)" using w nth_mem by fastforce
  then have "rt_handlers rt topic \<noteq> None" using assms(1) by (auto simp: handlers_ok_def list_all_iff)
  then obtain h where "handler_for_topic ks (rt_handlers rt) topic = Inr h" by (auto simp: handler_for_topic_def)
  then show ?thesis using PWork w by (simp add: task_records_def split: work_input.split task.split option.split)
qed (auto split: list.splits)

lemma observed_follows:
  assumes "handlers_ok rt (ob_program ob)"
    "program_step (route (rt_router rt)) utf8 (rt_commit_config rt) (ob_program ob) ev = Some (Inr p)"
  shows "\<exists>es ob'. runs (observed_step rnd utf8 ks rt) ob es ob' \<and> program_events es = [ev] \<and> ob_program ob' = p"
proof -
  let ?S = "observed_step rnd utf8 ks rt"
  have step: "\<exists>ob2. ?S ob1 (OStep t ev) = Some (Inr ob2) \<and> ob_program ob2 = p"
    if "ob_program ob1 = ob_program ob" "may_step ob1 ev" for ob1 t
    using that assms(2) records_total [OF assms, of rnd ks t] by (auto simp del: program_step.simps)
  show ?thesis
  proof (cases "may_step ob ev")
    case True
    with step [of ob undefined] obtain ob2 where 1: "?S ob (OStep undefined ev) = Some (Inr ob2)" "ob_program ob2 = p" by blast
    from runs_snoc [where step = ?S, OF runs_nil 1(1)] 1(2) show ?thesis
      by (intro exI [of _ "[OStep undefined ev]"] exI [of _ ob2]) simp
  next
    case False
    then obtain i e answer where ev: "ev = PWork i (WFlush e answer)" "next_batch (snd (pg_workers (ob_program ob) ! i)) \<noteq> None"
      by (cases ev) (auto simp: entered_def split: work_input.splits)
    let ?ob1 = "ob\<lparr>ob_board := set_busy i ''shared'' (ob_board ob)\<rparr>"
    have 1: "?S ob (OEnter i) = Some (Inr ?ob1)" using ev assms(2) by (auto split: if_splits)
    have "may_step ?ob1 ev" using ev by (simp add: entered_def set_busy_def)
    with step [of ?ob1 undefined] obtain ob2 where 2: "?S ?ob1 (OStep undefined ev) = Some (Inr ob2)" "ob_program ob2 = p" by auto
    from runs_snoc [where step = ?S, OF runs_snoc [where step = ?S, OF runs_nil 1] 2(1)] 2(2) show ?thesis
      by (intro exI [of _ "[OEnter i, OStep undefined ev]"] exI [of _ ob2]) simp
  qed
qed

text \<open>
  The shutdown of the pool aborts its workers between two posts: what they posted last stays on the board for good, and later polls
  go on to show it.
\<close>

lemma board_frozen:
  assumes "runs (observed_step rnd utf8 ks rt) ob es ob'" "pg_pool_down (ob_program ob)"
  shows "ob_board ob' = ob_board ob \<and> pg_pool_down (ob_program ob')"
  using assms
proof (induction rule: runs.induct)
  case (runs_snoc ob es ob1 e ob2)
  then have 1: "ob_board ob1 = ob_board ob" "pg_pool_down (ob_program ob1)" by simp_all
  from runs_snoc(2) show ?case
  proof (cases rule: observed_step_cases)
    case (step t ev calls p)
    have "\<not> (\<exists>i inp. ev = PWork i inp)" using step(3) 1(2) by auto
    moreover have "pg_pool_down p" using step(3) 1(2)
      by (cases ev) (auto simp: Let_def with_dispatcher_def traced_def split: if_splits prod.splits list.splits)
    ultimately show ?thesis using 1 quiet_workers(2) [OF step(3)] step(5) by simp
  qed (use 1 in simp_all)
qed simp

section \<open>A sample run\<close>

definition no_times :: invocation_times where
  "no_times = \<lparr>it_wait = 0, it_call = 0, it_total = 0\<rparr>"

definition sample_observed :: "observed_event list" where
  "sample_observed =
     [OStep no_times (PDispatch sample_client live_channel (sample_message ''t'' 4)), OStep no_times (PWork 0 WTake)]"

lemma sample_observed_start:
  assumes "program_new rt = sample_program policy coord" "rt_router rt = with_default_prefix" "rt_commit_config rt = CommitConfig_default"
  shows "\<exists>ob p. run_of (observed_step rnd (\<lambda>b. []) [''t''] rt) (observed_new rt g) sample_observed = Some ob
     \<and> pg_workers (ob_program ob) = [(''t'', Invoking (sample_message ''t'' 4))]
     \<and> dom (svc_queues (pg_services (ob_program ob))) = {''t''} \<and> dom (partitions (svc_offsets (pg_services (ob_program ob)))) = {}
     \<and> program_step (route with_default_prefix) (\<lambda>b. []) CommitConfig_default (ob_program ob) (PWork 0 (WResult plain_env ExOk)) = Some (Inr p)
     \<and> told succeeded_in (pg_trace p) = [sample_message ''t'' 4] \<and> delivered p = []"
proof -
  have "dom (\<lambda>t. if t = ''t'' then Some x else None) \<subseteq> {''t''}" for x by (auto split: if_splits)
  then show ?thesis
    by (simp add: sample_observed_def observed_new_def assms program_eval fresh_queues_def queue_capacity_def sample_py_config_def
        task_records_def entered_def delivered_def cong: res_bind_weak_cong)
qed

text \<open>The poller is never held up.\<close>

lemma tick_enabled:
  assumes "iterates qks (svc_queues (pg_services (ob_program ob)))" "iterates oks (partitions (svc_offsets (pg_services (ob_program ob))))"
  shows "\<exists>ob'. observed_step rnd utf8 ks rt ob (OTick now qks oks) = Some (Inr ob') \<and> ob_program ob' = ob_program ob"
proof -
  obtain snap sink where "poll_and_update rnd now qks oks (Some (svc_queues (pg_services (ob_program ob))))
      (Some (svc_offsets (pg_services (ob_program ob)))) (Some (ob_board ob)) (ob_sink ob) = (snap, sink)" by (metis surj_pair)
  with assms show ?thesis by simp
qed

lemma sample_observed_run:
  "\<exists>(rt :: Runtime) g' ob1 ob2 ob.
     RuntimeBuilder_build calm_outside [''t''] sample_py_config one_consumer snapshot_globals_new = Inr (Inr (rt, g'))
     \<and> runs (observed_step (\<lambda>x. x) (\<lambda>b. []) [''t''] rt) (observed_new rt snapshot_globals_new) sample_observed ob1
     \<and> pg_workers (ob_program ob1) = [(''t'', Invoking (sample_message ''t'' 4))]
     \<and> runs (observed_step (\<lambda>x. x) (\<lambda>b. []) [''t''] rt) (observed_new rt snapshot_globals_new)
         (sample_observed @ [OTick 7 [''t''] []]) ob2
     \<and> runs (observed_step (\<lambda>x. x) (\<lambda>b. []) [''t''] rt) (observed_new rt snapshot_globals_new)
         ((sample_observed @ [OTick 7 [''t''] []]) @ [OStep no_times (PWork 0 (WResult plain_env ExOk))]) ob
     \<and> told succeeded_in (pg_trace (ob_program ob)) = [sample_message ''t'' 4] \<and> delivered (ob_program ob) = []"
proof -
  obtain rt g' where rt: "RuntimeBuilder_build calm_outside [''t''] sample_py_config one_consumer snapshot_globals_new = Inr (Inr (rt, g'))"
    "rt_commit_config rt = CommitConfig_default" "rt_router rt = with_default_prefix"
    "program_new rt = sample_program (RetryPolicy_default (\<lambda>x. x)) (ShutdownCoordinator_new 30)"
    using sample_built by blast
  let ?S = "observed_step (\<lambda>x. x) (\<lambda>b. []) [''t''] rt"
  obtain ob1 p where start: "run_of ?S (observed_new rt snapshot_globals_new) sample_observed = Some ob1"
    "pg_workers (ob_program ob1) = [(''t'', Invoking (sample_message ''t'' 4))]"
    "dom (svc_queues (pg_services (ob_program ob1))) = {''t''}" "dom (partitions (svc_offsets (pg_services (ob_program ob1)))) = {}"
    "program_step (route with_default_prefix) (\<lambda>b. []) CommitConfig_default (ob_program ob1) (PWork 0 (WResult plain_env ExOk)) = Some (Inr p)"
    "told succeeded_in (pg_trace p) = [sample_message ''t'' 4]" "delivered p = []"
    using sample_observed_start [OF rt(4,3,2), where rnd = "\<lambda>x. x" and g = snapshot_globals_new] by (elim exE conjE)
  note 1 = start(1) [folded runs_run_of] start(2-4) start(5) [folded rt(2,3)] start(6,7)
  obtain ob2 where 2: "?S ob1 (OTick 7 [''t''] []) = Some (Inr ob2)" "ob_program ob2 = ob_program ob1"
    using tick_enabled [of "[''t'']" ob1 "[]" "\<lambda>x. x" "\<lambda>b. []" "[''t'']" rt 7] 1(3,4) by (auto simp: iterates_def simp del: observed_step.simps)
  note 3 = runs_snoc [where step = ?S, OF 1(1) 2(1)]
  have "handlers_ok rt (ob_program ob1)"
    using program_handlers.runs_inv [OF _ built_handlers [OF rt(1) iterates_one_consumer]] observed_program_run [OF 1(1)]
    by (auto simp: observed_new_def)
  from records_total [OF this 1(5)] obtain calls where
    "records (\<lambda>x. x) (\<lambda>b. []) [''t''] (rt_handlers rt) no_times (ob_program ob2) (PWork 0 (WResult plain_env ExOk)) = Inr calls"
    using 2(2) by metis
  then obtain ob where 4: "?S ob2 (OStep no_times (PWork 0 (WResult plain_env ExOk))) = Some (Inr ob)" "ob_program ob = p"
    using 1(5) 2(2) by (auto simp: entered_def simp del: program_step.simps records.simps)
  from 1 3 4(2) rt(1) runs_snoc [where step = ?S, OF 3 4(1)] show ?thesis by blast
qed

section \<open>Properties\<close>





text \<open>
  C12 (invariant). What the counters mean, in any interleaving: invocations are the single messages that came back from Python, errors
  and timeouts those of them that failed or timed out. Throughput, described as messages delivered, is the
  number of messages handled without error, alone or in batches, plus the number of failed attempts. The dead-letter counter is the
  number of letters that the broker took. All of them wrap at two to the 64, and no label separates handlers.
\<close>

theorem counters_tell_outcomes:
  assumes "RuntimeBuilder_build out ks config c g = Inr (Inr (rt, g'))"
    "runs (observed_step rnd utf8 ks rt) (observed_new rt g) es ob"
  shows "counters (ob_sink ob) ''kafpy.handler.invocation'' = Some (of_nat (length (filter is_attempt es)))
     \<and> counters (ob_sink ob) ''kafpy.handler.error'' = Some (of_nat (length (filter is_failed_attempt es)))
     \<and> counters (ob_sink ob) ''kafpy.handler.timeout_total'' = Some (of_nat (length (filter is_timed_out es)))
     \<and> counters (ob_sink ob) ''kafpy.message.throughput''
         = Some (of_nat (length (filter is_failed_attempt es) + length (told succeeded_in (pg_trace (ob_program ob)))))
     \<and> counters (ob_sink ob) ''kafpy.dlq.messages'' = Some (of_nat (length (delivered (ob_program ob))))"
  by (rule counter_meaning [OF assms(2) pool_length(3) [OF assms(1)]])

theorem counters_tell_outcomes_witness:
  "\<exists>(rt :: Runtime) ob. runs (observed_step (\<lambda>x. x) (\<lambda>b. []) [''t''] rt) (observed_new rt snapshot_globals_new)
       ((sample_observed @ [OTick 7 [''t''] []]) @ [OStep no_times (PWork 0 (WResult plain_env ExOk))]) ob
     \<and> counters (ob_sink ob) ''kafpy.message.throughput'' = Some 1 \<and> counters (ob_sink ob) ''kafpy.dlq.messages'' = Some 0"
proof -
  obtain rt g' ob where rt: "RuntimeBuilder_build calm_outside [''t''] sample_py_config one_consumer snapshot_globals_new = Inr (Inr (rt, g'))"
    and run: "runs (observed_step (\<lambda>x. x) (\<lambda>b. []) [''t''] rt) (observed_new rt snapshot_globals_new)
         ((sample_observed @ [OTick 7 [''t''] []]) @ [OStep no_times (PWork 0 (WResult plain_env ExOk))]) ob"
    and ob: "told succeeded_in (pg_trace (ob_program ob)) = [sample_message ''t'' 4]" "delivered (ob_program ob) = []"
    using sample_observed_run by blast
  from counters_tell_outcomes [OF rt run] run ob show ?thesis by (auto simp: sample_observed_def)
qed

end
