(* ===== verification/Slots.thy ===== *)
theory Slots
  imports FanOut Systems
begin

text \<open>
  The slot counter of the fan-out tracker (\<^verbatim>\<open>src/worker_pool/fan_out.rs\<close>) under concurrency: an attempt to
  get a slot is a load and a compare-exchange, between which other tasks act. Callers that release only what they
  hold never see more slots in use than allowed, the 8-bit counter is exact, and a successful attempt is what an
  undisturbed one does at the moment of its exchange; an attempt may fail although slots are free.
\<close>

section \<open>Attempts in steps\<close>

datatype caller = Outside | Loaded u8 | Holding

datatype slot_event = SLoad nat | SExchange nat | SRelease nat

record slot_system =
  sl_tracker :: FanOutTracker
  sl_callers :: "caller list"

definition try_acquire_load :: "FanOutTracker \<Rightarrow> caller" where
  "try_acquire_load t = (let current = ft_inflight t in if current \<ge> ft_max_fan_out t then Outside else Loaded current)"

definition try_acquire_exchange :: "FanOutTracker \<Rightarrow> u8 \<Rightarrow> bool \<times> FanOutTracker" where
  "try_acquire_exchange t current =
     (if ft_inflight t = current then (True, t\<lparr>ft_inflight := current + 1\<rparr>) else (False, t))"

fun slot_step :: "slot_system \<Rightarrow> slot_event \<Rightarrow> slot_system res option" where
  "slot_step s (SLoad i) =
     (if i < length (sl_callers s) \<and> sl_callers s ! i = Outside
      then Some (Inr (s\<lparr>sl_callers := (sl_callers s)[i := try_acquire_load (sl_tracker s)]\<rparr>)) else None)"
| "slot_step s (SExchange i) =
     (if i < length (sl_callers s) then
        (case sl_callers s ! i of
           Loaded current \<Rightarrow>
             let (ok, t) = try_acquire_exchange (sl_tracker s) current
             in Some (Inr (s\<lparr>sl_tracker := t, sl_callers := (sl_callers s)[i := if ok then Holding else Outside]\<rparr>))
         | _ \<Rightarrow> None)
      else None)"
| "slot_step s (SRelease i) =
     (if i < length (sl_callers s) \<and> sl_callers s ! i = Holding
      then Some (Inr (s\<lparr>sl_tracker := release_slot (sl_tracker s), sl_callers := (sl_callers s)[i := Outside]\<rparr>)) else None)"

definition slot_system_new :: "u8 \<Rightarrow> nat \<Rightarrow> slot_system" where
  "slot_system_new max_fan_out n = \<lparr>sl_tracker = FanOutTracker_new max_fan_out, sl_callers = replicate n Outside\<rparr>"

section \<open>The counter is exact\<close>

definition holders :: "slot_system \<Rightarrow> nat" where
  "holders s = length (filter (\<lambda>c. c = Holding) (sl_callers s))"

definition slots_ok :: "slot_system \<Rightarrow> bool" where
  "slots_ok s \<longleftrightarrow> unat (ft_inflight (sl_tracker s)) = holders s \<and> holders s \<le> unat (ft_max_fan_out (sl_tracker s))
     \<and> ft_max_fan_out (sl_tracker s) \<le> 64
     \<and> (\<forall>c. Loaded c \<in> set (sl_callers s) \<longrightarrow> c < ft_max_fan_out (sl_tracker s))"

lemma holders_update:
  assumes "i < length (sl_callers s)"
  shows "length (filter (\<lambda>c. c = Holding) ((sl_callers s)[i := x])) + (if sl_callers s ! i = Holding then 1 else 0)
     = holders s + (if x = Holding then 1 else 0)"
proof -
  let ?cs = "sl_callers s"
  have "?cs = take i ?cs @ ?cs ! i # drop (Suc i) ?cs" using assms by (rule id_take_nth_drop)
  then have "holders s = length (filter (\<lambda>c. c = Holding) (take i ?cs @ ?cs ! i # drop (Suc i) ?cs))"
    unfolding holders_def by metis
  then show ?thesis using assms by (simp add: upd_conv_take_nth_drop)
qed

lemma loaded_update: "Loaded c \<in> set (cs[i := x]) \<Longrightarrow> Loaded c = x \<or> Loaded c \<in> set cs"
  using set_update_subset_insert [of cs i x] by blast

interpretation slots: step_invariant slot_step slots_ok
proof (unfold_locales, goal_cases)
  case (1 s e s')
  let ?t = "sl_tracker s"
  have ok: "unat (ft_inflight ?t) = holders s" "holders s \<le> unat (ft_max_fan_out ?t)" "ft_max_fan_out ?t \<le> 64"
    "\<And>c. Loaded c \<in> set (sl_callers s) \<Longrightarrow> c < ft_max_fan_out ?t"
    using 1(1) by (auto simp: slots_ok_def)
  show ?case
  proof (cases e)
    case (SLoad i)
    with 1(2) have i: "i < length (sl_callers s)" "sl_callers s ! i = Outside"
      "s' = s\<lparr>sl_callers := (sl_callers s)[i := try_acquire_load ?t]\<rparr>" by (auto split: if_splits)
    have "holders s' = holders s"
      using holders_update [OF i(1), of "try_acquire_load ?t"] i(2,3)
      by (auto simp: holders_def try_acquire_load_def Let_def split: if_splits)
    with ok i(3) show ?thesis
      by (auto simp: slots_ok_def try_acquire_load_def Let_def not_le dest!: loaded_update split: if_splits)
  next
    case (SExchange i)
    then obtain current where i: "i < length (sl_callers s)" "sl_callers s ! i = Loaded current"
      using 1(2) by (auto split: if_splits caller.splits)
    have less: "current < ft_max_fan_out ?t" using ok(4) i nth_mem by fastforce
    show ?thesis
    proof (cases "ft_inflight ?t = current")
      case True
      then have s': "s' = s\<lparr>sl_tracker := ?t\<lparr>ft_inflight := current + 1\<rparr>, sl_callers := (sl_callers s)[i := Holding]\<rparr>"
        using 1(2) SExchange i by (simp add: try_acquire_exchange_def)
      have "holders s' = Suc (holders s)" using holders_update [OF i(1), of Holding] i(2) s' by (simp add: holders_def)
      moreover have "unat current < unat (ft_max_fan_out ?t)" using less by (simp add: word_less_nat_alt)
      moreover have "unat (ft_max_fan_out ?t) \<le> 64" using ok(3) by (simp add: word_le_nat_alt)
      moreover from calculation have "unat current + unat (1 :: u8) < 2 ^ LENGTH(8)" by simp
      then have "unat (current + 1) = Suc (unat current)" unfolding unat_add_lem by simp
      ultimately show ?thesis using ok True s' by (auto simp: slots_ok_def dest!: loaded_update)
    next
      case False
      then have s': "s' = s\<lparr>sl_callers := (sl_callers s)[i := Outside]\<rparr>"
        using 1(2) SExchange i by (simp add: try_acquire_exchange_def)
      have "holders s' = holders s" using holders_update [OF i(1), of Outside] i(2) s' by (simp add: holders_def)
      with ok s' show ?thesis by (auto simp: slots_ok_def dest!: loaded_update)
    qed
  next
    case (SRelease i)
    with 1(2) have i: "i < length (sl_callers s)" "sl_callers s ! i = Holding"
      "s' = s\<lparr>sl_tracker := release_slot ?t, sl_callers := (sl_callers s)[i := Outside]\<rparr>" by (auto split: if_splits)
    have "Suc (holders s') = holders s" using holders_update [OF i(1), of Outside] i(2,3) by (simp add: holders_def)
    moreover have "unat (ft_inflight ?t - 1) = unat (ft_inflight ?t) - 1"
      using ok(1) calculation by (intro unat_minus_one) (metis unat_0 nat.distinct(1))
    ultimately show ?thesis using ok i(3) by (auto simp: slots_ok_def release_slot_def dest!: loaded_update)
  qed
qed

text \<open>
  However callers interleave, no more slots are held than the tracker allows, at most 64, and the counter says how
  many are held: it never wraps.
\<close>

lemma slots_never_exceeded:
  assumes "runs slot_step (slot_system_new max_fan_out n) es s"
  shows "unat (ft_inflight (sl_tracker s)) = holders s \<and> holders s \<le> min (unat max_fan_out) 64"
proof -
  have start: "slots_ok (slot_system_new max_fan_out n)"
    by (simp add: slots_ok_def slot_system_new_def FanOutTracker_new_def holders_def)
  have "ft_max_fan_out (sl_tracker s) = min max_fan_out 64"
    using assms
  proof (induction es arbitrary: s rule: rev_induct)
    case Nil
    then show ?case by (simp add: slot_system_new_def FanOutTracker_new_def)
  next
    case (snoc e es)
    then obtain s1 where s1: "runs slot_step (slot_system_new max_fan_out n) es s1" "slot_step s1 e = Some (Inr s)"
      by (auto simp: runs_snoc_iff)
    from snoc.IH [OF s1(1)] s1(2) show ?case
      by (cases e) (auto simp: release_slot_def try_acquire_exchange_def split: if_splits caller.splits)
  qed
  with slots.runs_inv [OF assms start] show ?thesis
    by (auto simp: slots_ok_def min_def word_le_nat_alt split: if_splits)
qed

text \<open>An exchange that succeeds does what an undisturbed attempt would do at that moment.\<close>

lemma exchange_is_atomic:
  assumes "slots_ok s" "i < length (sl_callers s)" "sl_callers s ! i = Loaded current"
    "try_acquire_exchange (sl_tracker s) current = (True, t)"
  shows "try_acquire_slot (sl_tracker s) = (True, t)"
proof -
  have "current < ft_max_fan_out (sl_tracker s)" using assms(1-3) nth_mem by (fastforce simp: slots_ok_def)
  with assms(4) show ?thesis by (auto simp: try_acquire_exchange_def try_acquire_slot_def split: if_splits)
qed

text \<open>A failed attempt does not mean that the slots are exhausted: two callers that load together share one success.\<close>

lemma attempt_fails_with_free_slot:
  "\<exists>s. run_of slot_step (slot_system_new 2 2) [SLoad 0, SLoad 1, SExchange 0, SExchange 1] = Some s
     \<and> sl_callers s = [Holding, Outside] \<and> \<not> FanOutTracker_is_exhausted (sl_tracker s)"
proof -
  have "replicate 2 Outside = [Outside, Outside]" by (simp add: numeral_2_eq_2)
  moreover have "\<not> (2 :: u8) \<le> 1" by (simp add: word_le_nat_alt)
  ultimately show ?thesis
    by (simp add: slot_system_new_def FanOutTracker_new_def try_acquire_load_def try_acquire_exchange_def
        FanOutTracker_is_exhausted_def)
qed

end
