(* ===== verification/Producer.thy ===== *)
theory Producer
  imports PyConfig
begin

text \<open>
  The producer for Python (\<^verbatim>\<open>src/producer/runtime.rs\<close>): its client settings, the tasks of the background
  thread, and the methods that Python calls. A method puts one task into the channel of the thread
  and blocks until it is answered, so operations follow one another. The Kafka client answers through an
  argument; what it is asked is recorded. It shows what every method answers in every state, that an
  acknowledged send was one delivery of the given record by the client of the last successful
  initialisation, and that no setting is lost on the way to the client.
\<close>

section \<open>Client settings\<close>

definition producer_client_config :: "PyProducerConfig \<Rightarrow> (string \<rightharpoonup> string)" where
  "producer_client_config c =
     set_opt ''sasl.password'' (pp_sasl_password c)
     (set_opt ''sasl.username'' (pp_sasl_username c)
     (set_opt ''sasl.mechanism'' (pp_sasl_mechanism c)
     (set_opt ''security.protocol'' (pp_security_protocol c)
     [''bootstrap.servers'' \<mapsto> pp_brokers c,
      ''message.timeout.ms'' \<mapsto> show_nat (pp_message_timeout_ms c),
      ''queue.buffering.max.messages'' \<mapsto> show_nat (pp_queue_buffering_max_messages c),
      ''queue.buffering.max.kbytes'' \<mapsto> show_nat (pp_queue_buffering_max_kbytes c),
      ''batch.num.messages'' \<mapsto> show_nat (pp_batch_num_messages c),
      ''compression.type'' \<mapsto> pp_compression_type c,
      ''linger.ms'' \<mapsto> show_nat (pp_linger_ms c),
      ''request.timeout.ms'' \<mapsto> show_nat (pp_request_timeout_ms c),
      ''retry.backoff.ms'' \<mapsto> show_nat (pp_retry_backoff_ms c),
      ''retries'' \<mapsto> show_nat (pp_retries c),
      ''max.in.flight.requests.per.connection'' \<mapsto> show_nat (pp_max_in_flight c),
      ''enable.idempotence'' \<mapsto> show_bool (pp_enable_idempotence c),
      ''acks'' \<mapsto> pp_acks c])))"

section \<open>Tasks\<close>

record FutureRecord =
  fr_topic :: string
  fr_key :: "bytes option"
  fr_payload :: "bytes option"
  fr_partition :: "i32 option"
  fr_headers :: "(string \<times> bytes) list option"

datatype ProducerTask =
    InitTask
  | SendTask string "bytes option" "bytes option" "i32 option" "(string \<times> bytes) list option"
  | FlushTask nat
  | InFlightCountTask

text \<open>
  The client: whether it can be created from settings, and what it answers to a record, to a flush
  and to the question for messages in flight. Errors are their text. No answer to a task means
  that the thread died over it.
\<close>

record kafka_client =
  kc_create :: "(string \<rightharpoonup> string) \<Rightarrow> string option"
  kc_send :: "FutureRecord \<Rightarrow> string + i32 \<times> i64"
  kc_flush :: "nat \<Rightarrow> string option"
  kc_in_flight :: i32

datatype client_call =
    CreateClient "string \<rightharpoonup> string"
  | ClientSend "string \<rightharpoonup> string" FutureRecord nat
  | ClientFlush "string \<rightharpoonup> string" nat
  | ClientInFlight "string \<rightharpoonup> string"

datatype reply = UnitReply | SentReply i32 i64 | CountReply i32

definition not_initialized :: string where
  "not_initialized = ''Producer not initialized''"

definition build_record ::
  "string \<Rightarrow> bytes option \<Rightarrow> bytes option \<Rightarrow> i32 option \<Rightarrow> (string \<times> bytes) list option \<Rightarrow> FutureRecord" where
  \<comment> \<open>the optional parts are set one by one; headers keep their order\<close>
  "build_record topic key payload part headers =
     (let r = \<lparr>fr_topic = topic, fr_key = None, fr_payload = None, fr_partition = None, fr_headers = None\<rparr>;
          r = (case key of None \<Rightarrow> r | Some k \<Rightarrow> r\<lparr>fr_key := Some k\<rparr>);
          r = (case payload of None \<Rightarrow> r | Some p \<Rightarrow> r\<lparr>fr_payload := Some p\<rparr>);
          r = (case part of None \<Rightarrow> r | Some p \<Rightarrow> r\<lparr>fr_partition := Some p\<rparr>)
      in case headers of None \<Rightarrow> r
         | Some hdrs \<Rightarrow> r\<lparr>fr_headers := Some (foldl (\<lambda>hs (k, v). hs @ [(k, v)]) [] hdrs)\<rparr>)"

text \<open>A client in use is known by the settings it was created from.\<close>

type_synonym client_settings = "string \<rightharpoonup> string"

definition do_send ::
  "kafka_client \<Rightarrow> client_settings option \<Rightarrow> string \<Rightarrow> bytes option \<Rightarrow> bytes option \<Rightarrow> i32 option
   \<Rightarrow> (string \<times> bytes) list option \<Rightarrow> (string + reply) \<times> client_call list" where
  "do_send kc producer topic key payload part headers =
     (case producer of None \<Rightarrow> (Inl not_initialized, [])
      | Some c \<Rightarrow>
         (let rec = build_record topic key payload part headers
          in (case kc_send kc rec of
                Inr (p, off) \<Rightarrow> Inr (SentReply p off)
              | Inl e \<Rightarrow> Inl (''Failed to deliver message: '' @ e),
              [ClientSend c rec 30000])))"

definition do_flush :: "kafka_client \<Rightarrow> client_settings option \<Rightarrow> nat \<Rightarrow> (string + reply) \<times> client_call list" where
  "do_flush kc producer timeout =
     (case producer of None \<Rightarrow> (Inl not_initialized, [])
      | Some c \<Rightarrow>
         (case kc_flush kc timeout of None \<Rightarrow> Inr UnitReply | Some e \<Rightarrow> Inl (''Failed to flush producer: '' @ e),
          [ClientFlush c timeout]))"

definition do_in_flight_count :: "kafka_client \<Rightarrow> client_settings option \<Rightarrow> (string + reply) \<times> client_call list" where
  "do_in_flight_count kc producer =
     (case producer of None \<Rightarrow> (Inl not_initialized, [])
      | Some c \<Rightarrow> (Inr (CountReply (kc_in_flight kc)), [ClientInFlight c]))"

fun handle_task ::
  "kafka_client \<Rightarrow> PyProducerConfig \<Rightarrow> client_settings option \<Rightarrow> ProducerTask
   \<Rightarrow> client_settings option \<times> (string + reply) \<times> client_call list" where
  "handle_task kc config producer InitTask =
     (let settings = producer_client_config config
      in case kc_create kc settings of
           None \<Rightarrow> (Some settings, Inr UnitReply, [CreateClient settings])
         | Some e \<Rightarrow> (producer, Inl e, [CreateClient settings]))"
| "handle_task kc config producer (SendTask topic key payload part headers) =
     (producer, do_send kc producer topic key payload part headers)"
| "handle_task kc config producer (FlushTask timeout) = (producer, do_flush kc producer timeout)"
| "handle_task kc config producer InFlightCountTask = (producer, do_in_flight_count kc producer)"

section \<open>The object that Python holds\<close>

datatype worker_thread = ThreadRunning | ThreadExited

record PyProducer =
  prod_client :: "client_settings option"
  prod_config :: PyProducerConfig
  prod_worker :: "worker_thread option"
    \<comment> \<open>the stored sender, with the state of the thread that receives\<close>

definition PyProducer_new :: "PyProducerConfig \<Rightarrow> PyProducer" where
  "PyProducer_new config = \<lparr>prod_client = None, prod_config = config, prod_worker = None\<rparr>"

text \<open>
  What happens to the thread during one operation: it answers, its runtime cannot be created, or it
  dies over the task.
\<close>

datatype thread_fate = Answers | NoRuntime | Dies

definition PyProducer_init :: "kafka_client \<Rightarrow> thread_fate \<Rightarrow> bool \<Rightarrow> PyProducer \<Rightarrow> PyProducer \<times> (PyErr + reply) \<times> client_call list" where
  \<comment> \<open>\<open>raced\<close>: the thread without a runtime was gone before the task was sent\<close>
  "PyProducer_init kc fate raced p =
     (case fate of
        NoRuntime \<Rightarrow> (p\<lparr>prod_worker := Some ThreadExited\<rparr>,
          Inl (PyRuntimeError (if raced then ''Worker channel closed'' else ''Worker thread died during producer init'')), [])
      | Dies \<Rightarrow> (p\<lparr>prod_worker := Some ThreadExited\<rparr>, Inl (PyRuntimeError ''Worker thread died during producer init''), [])
      | Answers \<Rightarrow>
          (let (producer, result, calls) = handle_task kc (prod_config p) (prod_client p) InitTask
           in (p\<lparr>prod_client := producer, prod_worker := Some ThreadRunning\<rparr>, map_sum PyRuntimeError id result, calls)))"

definition request ::
  "kafka_client \<Rightarrow> bool \<Rightarrow> ProducerTask \<Rightarrow> PyProducer \<Rightarrow> PyProducer \<times> (PyErr + reply) \<times> client_call list" where
  \<comment> \<open>the body that the methods share: send the task, wait for its answer; \<open>dies\<close>: the thread dies over the task\<close>
  "request kc dies task p =
     (case prod_worker p of
        None \<Rightarrow> (p, Inl (PyRuntimeError not_initialized), [])
      | Some ThreadExited \<Rightarrow> (p, Inl (PyRuntimeError ''channel closed''), [])
      | Some ThreadRunning \<Rightarrow>
          if dies then (p\<lparr>prod_worker := Some ThreadExited\<rparr>, Inl (PyRuntimeError ''Worker thread died unexpectedly''), [])
          else (let (producer, result, calls) = handle_task kc (prod_config p) (prod_client p) task
                in (p\<lparr>prod_client := producer\<rparr>, map_sum PyRuntimeError id result, calls)))"

definition PyProducer_send ::
  "kafka_client \<Rightarrow> bool \<Rightarrow> string \<Rightarrow> bytes option \<Rightarrow> bytes option \<Rightarrow> i32 option \<Rightarrow> (string \<times> bytes) list option
   \<Rightarrow> PyProducer \<Rightarrow> PyProducer \<times> (PyErr + reply) \<times> client_call list" where
  "PyProducer_send kc dies topic key payload part headers p =
     request kc dies (SendTask topic key payload part headers) p"

definition PyProducer_send_sync ::
  "kafka_client \<Rightarrow> bool \<Rightarrow> string \<Rightarrow> bytes option \<Rightarrow> bytes option \<Rightarrow> i32 option \<Rightarrow> (string \<times> bytes) list option
   \<Rightarrow> PyProducer \<Rightarrow> PyProducer \<times> (PyErr + reply) \<times> client_call list" where
  "PyProducer_send_sync kc dies topic key payload part headers p =
     PyProducer_send kc dies topic key payload part headers p"

definition PyProducer_flush ::
  "kafka_client \<Rightarrow> bool \<Rightarrow> nat option \<Rightarrow> PyProducer \<Rightarrow> PyProducer \<times> (PyErr + reply) \<times> client_call list" where
  "PyProducer_flush kc dies timeout p =
     request kc dies (FlushTask (case timeout of None \<Rightarrow> 10000 | Some ms \<Rightarrow> ms)) p"

definition PyProducer_in_flight_count ::
  "kafka_client \<Rightarrow> bool \<Rightarrow> PyProducer \<Rightarrow> PyProducer \<times> (PyErr + reply) \<times> client_call list" where
  "PyProducer_in_flight_count kc dies p = request kc dies InFlightCountTask p"

definition PyProducer_drop :: "PyProducer \<Rightarrow> PyProducer" where
  "PyProducer_drop p = p\<lparr>prod_worker := None\<rparr>"

section \<open>Sequences of calls\<close>

datatype producer_op =
    OpInit kafka_client thread_fate bool
  | OpSend kafka_client bool string "bytes option" "bytes option" "i32 option" "(string \<times> bytes) list option"
  | OpFlush kafka_client bool "nat option"
  | OpInFlight kafka_client bool

fun run_op :: "PyProducer \<Rightarrow> producer_op \<Rightarrow> PyProducer \<times> (PyErr + reply) \<times> client_call list" where
  "run_op p (OpInit kc fate raced) = PyProducer_init kc fate raced p"
| "run_op p (OpSend kc dies topic key payload part headers) = PyProducer_send kc dies topic key payload part headers p"
| "run_op p (OpFlush kc dies timeout) = PyProducer_flush kc dies timeout p"
| "run_op p (OpInFlight kc dies) = PyProducer_in_flight_count kc dies p"

definition producer_step :: "PyProducer \<Rightarrow> producer_op \<Rightarrow> PyProducer" where
  "producer_step p op = fst (run_op p op)"

fun is_init :: "producer_op \<Rightarrow> bool" where
  "is_init (OpInit _ _ _) = True"
| "is_init _ = False"

fun good_init :: "PyProducerConfig \<Rightarrow> producer_op \<Rightarrow> bool" where
  "good_init config (OpInit kc fate _) = (fate = Answers \<and> kc_create kc (producer_client_config config) = None)"
| "good_init config _ = False"

lemmas producer_defs = PyProducer_init_def request_def PyProducer_send_def PyProducer_flush_def
  PyProducer_in_flight_count_def producer_step_def

lemma handle_task_client:
  "task \<noteq> InitTask \<Longrightarrow> fst (handle_task kc config c task) = c"
  by (cases task) simp_all

lemma request_client:
  "task \<noteq> InitTask \<Longrightarrow> prod_client (fst (request kc dies task p)) = prod_client p
     \<and> prod_config (fst (request kc dies task p)) = prod_config p
     \<and> (prod_worker p = None \<longrightarrow> prod_worker (fst (request kc dies task p)) = None)"
  using handle_task_client [of task kc "prod_config p" "prod_client p"]
  by (auto simp: request_def split: option.splits worker_thread.splits prod.splits)

text \<open>The client in use belongs to the last successful initialisation, and only initialisation starts a thread.\<close>

definition producer_inv :: "PyProducerConfig \<Rightarrow> producer_op list \<Rightarrow> PyProducer \<Rightarrow> bool" where
  "producer_inv config ops p \<longleftrightarrow> prod_config p = config
     \<and> prod_client p = (if list_ex (good_init config) ops then Some (producer_client_config config) else None)
     \<and> (prod_worker p = None \<longleftrightarrow> \<not> list_ex is_init ops)"

lemma producer_inv_step: "producer_inv config ops p \<Longrightarrow> producer_inv config (ops @ [op]) (producer_step p op)"
proof (cases op)
  case (OpInit kc fate raced)
  assume "producer_inv config ops p"
  with OpInit show ?thesis
    by (cases fate; cases "kc_create kc (producer_client_config config)")
      (auto simp: producer_inv_def producer_defs Let_def)
qed (use request_client in \<open>auto simp: producer_inv_def producer_step_def PyProducer_send_def PyProducer_flush_def
      PyProducer_in_flight_count_def request_def split: option.splits worker_thread.splits prod.splits\<close>)

lemma producer_inv_run: "producer_inv config ops (foldl producer_step (PyProducer_new config) ops)"
proof (induction ops rule: rev_induct)
  case Nil
  then show ?case by (simp add: producer_inv_def PyProducer_new_def)
next
  case (snoc op ops)
  then show ?case by (simp add: producer_inv_step)
qed

lemma build_record_eq:
  "build_record topic key payload part headers =
     \<lparr>fr_topic = topic, fr_key = key, fr_payload = payload, fr_partition = part, fr_headers = headers\<rparr>"
proof -
  have "foldl (\<lambda>hs (k, v). hs @ [(k, v)]) acc hdrs = acc @ hdrs" for acc hdrs :: "(string \<times> bytes) list"
    by (induction hdrs arbitrary: acc) auto
  then show ?thesis by (simp add: build_record_def Let_def split: option.splits)
qed

text \<open>
  C27 (safety). An acknowledged send is one delivery. In any state that calls of Python can reach, when
  a send returns a partition and an offset, the client was asked exactly once, with exactly the
  given topic, key, payload, partition and headers, it answered that position, and it is the
  client that a successful initialisation before created from the settings of this producer.
\<close>

theorem acknowledged_send_is_one_delivery:
  assumes "p = foldl producer_step (PyProducer_new config) ops"
    "PyProducer_send kc dies topic key payload part headers p = (p', Inr r, calls)"
  shows "\<exists>pt off. r = SentReply pt off
     \<and> kc_send kc \<lparr>fr_topic = topic, fr_key = key, fr_payload = payload, fr_partition = part, fr_headers = headers\<rparr> = Inr (pt, off)
     \<and> calls = [ClientSend (producer_client_config config)
         \<lparr>fr_topic = topic, fr_key = key, fr_payload = payload, fr_partition = part, fr_headers = headers\<rparr> 30000]
     \<and> list_ex (good_init config) ops \<and> p' = p"
proof -
  from producer_inv_run [of config ops] have inv: "producer_inv config ops p" by (simp add: assms(1))
  have run: "prod_worker p = Some ThreadRunning" "\<not> dies"
    using assms(2) by (auto simp: producer_defs split: option.splits worker_thread.splits if_splits)
  then have sent: "map_sum PyRuntimeError id (fst (do_send kc (prod_client p) topic key payload part headers)) = Inr r"
    "snd (do_send kc (prod_client p) topic key payload part headers) = calls" "p' = p"
    using assms(2) by (auto simp: producer_defs split: prod.splits)
  then obtain c where c: "prod_client p = Some c" by (cases "prod_client p") (auto simp: do_send_def)
  with inv have good: "list_ex (good_init config) ops" "c = producer_client_config config"
    by (auto simp: producer_inv_def split: if_splits)
  from sent(1,2) c obtain pt off where
    "kc_send kc (build_record topic key payload part headers) = Inr (pt, off)" "r = SentReply pt off"
    "calls = [ClientSend c (build_record topic key payload part headers) 30000]"
    by (auto simp: do_send_def Let_def split: sum.splits prod.splits)
  then show ?thesis using good sent(3) by (simp add: build_record_eq)
qed

definition quiet_client :: kafka_client where
  \<comment> \<open>a client that can be created and puts every record at partition 0, offset 41\<close>
  "quiet_client = \<lparr>kc_create = (\<lambda>c. None), kc_send = (\<lambda>r. Inr (0, 41)), kc_flush = (\<lambda>t. None), kc_in_flight = 0\<rparr>"

theorem acknowledged_send_is_one_delivery_witness:
  "\<exists>p p' calls. p = foldl producer_step (PyProducer_new (PyProducerConfig_default ''b'')) [OpInit quiet_client Answers False]
     \<and> PyProducer_send quiet_client False ''t'' None (Some []) None None p = (p', Inr (SentReply 0 41), calls)
     \<and> list_ex (good_init (PyProducerConfig_default ''b'')) [OpInit quiet_client Answers False]
     \<and> length calls = 1"
proof -
  let ?p = "foldl producer_step (PyProducer_new (PyProducerConfig_default ''b'')) [OpInit quiet_client Answers False]"
  obtain p' calls where send: "PyProducer_send quiet_client False ''t'' None (Some []) None None ?p = (p', Inr (SentReply 0 41), calls)"
    by (simp add: producer_defs PyProducer_new_def do_send_def quiet_client_def Let_def)
  from acknowledged_send_is_one_delivery [OF refl send] send show ?thesis by auto
qed

text \<open>
  What a call answers when it cannot be served, in any reachable state: before
  any initialisation every call fails and the client is asked nothing; after failed ones no call
  reaches a client either; and while the thread runs after a successful one, a call
  fails only when the client does.
\<close>

lemma unserved_calls_fail:
  assumes "p = foldl producer_step (PyProducer_new config) ops" "task \<noteq> InitTask"
  shows "(list_ex is_init ops \<or> request kc dies task p = (p, Inl (PyRuntimeError not_initialized), []))
     \<and> (list_ex (good_init config) ops \<or> (\<exists>e. fst (snd (request kc dies task p)) = Inl (PyRuntimeError e))
          \<and> snd (snd (request kc dies task p)) = [])"
proof -
  from producer_inv_run [of config ops] have inv: "producer_inv config ops p" by (simp add: assms(1))
  have "request kc dies task p = (p, Inl (PyRuntimeError not_initialized), [])" if "\<not> list_ex is_init ops"
    using inv that by (simp add: producer_inv_def request_def)
  moreover have "(\<exists>e. fst (snd (request kc dies task p)) = Inl (PyRuntimeError e))
      \<and> snd (snd (request kc dies task p)) = []" if "\<not> list_ex (good_init config) ops"
    using inv that assms(2)
    by (cases task) (auto simp: producer_inv_def request_def do_send_def do_flush_def do_in_flight_count_def
        split: option.splits worker_thread.splits)
  ultimately show ?thesis by blast
qed

text \<open>A failed re-initialisation leaves the client of an earlier one in use.\<close>

lemma failed_reinit_keeps_client:
  "kc_create kc (producer_client_config (prod_config p)) = Some e \<Longrightarrow>
     prod_client (fst (PyProducer_init kc Answers raced p)) = prod_client p
     \<and> fst (snd (PyProducer_init kc Answers raced p)) = Inl (PyRuntimeError e)"
  by (simp add: PyProducer_init_def Let_def)

section \<open>Settings reach the client\<close>

lemma producer_setting_values:
  "producer_client_config c ''bootstrap.servers'' = Some (pp_brokers c)"
  "producer_client_config c ''message.timeout.ms'' = Some (show_nat (pp_message_timeout_ms c))"
  "producer_client_config c ''queue.buffering.max.messages'' = Some (show_nat (pp_queue_buffering_max_messages c))"
  "producer_client_config c ''queue.buffering.max.kbytes'' = Some (show_nat (pp_queue_buffering_max_kbytes c))"
  "producer_client_config c ''batch.num.messages'' = Some (show_nat (pp_batch_num_messages c))"
  "producer_client_config c ''compression.type'' = Some (pp_compression_type c)"
  "producer_client_config c ''linger.ms'' = Some (show_nat (pp_linger_ms c))"
  "producer_client_config c ''request.timeout.ms'' = Some (show_nat (pp_request_timeout_ms c))"
  "producer_client_config c ''retry.backoff.ms'' = Some (show_nat (pp_retry_backoff_ms c))"
  "producer_client_config c ''retries'' = Some (show_nat (pp_retries c))"
  "producer_client_config c ''max.in.flight.requests.per.connection'' = Some (show_nat (pp_max_in_flight c))"
  "producer_client_config c ''enable.idempotence'' = Some (show_bool (pp_enable_idempotence c))"
  "producer_client_config c ''acks'' = Some (pp_acks c)"
  "producer_client_config c ''security.protocol'' = pp_security_protocol c"
  "producer_client_config c ''sasl.mechanism'' = pp_sasl_mechanism c"
  "producer_client_config c ''sasl.username'' = pp_sasl_username c"
  "producer_client_config c ''sasl.password'' = pp_sasl_password c"
  by (simp_all add: producer_client_config_def set_opt_apply)

lemma show_bool_inject [simp]: "show_bool a = show_bool b \<longleftrightarrow> a = b"
  by (simp add: show_bool_def)

lemma producer_settings_determine: "producer_client_config c = producer_client_config c' \<longleftrightarrow> c = c'"
proof
  assume "producer_client_config c = producer_client_config c'"
  then have same: "producer_client_config c k = producer_client_config c' k" for k by simp
  show "c = c'"
    using same [of "''bootstrap.servers''"] same [of "''message.timeout.ms''"]
      same [of "''queue.buffering.max.messages''"] same [of "''queue.buffering.max.kbytes''"]
      same [of "''batch.num.messages''"] same [of "''compression.type''"] same [of "''linger.ms''"]
      same [of "''request.timeout.ms''"] same [of "''retry.backoff.ms''"] same [of "''retries''"]
      same [of "''max.in.flight.requests.per.connection''"] same [of "''enable.idempotence''"]
      same [of "''acks''"] same [of "''security.protocol''"] same [of "''sasl.mechanism''"]
      same [of "''sasl.username''"] same [of "''sasl.password''"]
    by (simp add: producer_setting_values)
qed simp

end
