(* ===== verification/Logging.thy ===== *)
theory Logging
  imports Parsing
begin

text \<open>
  The bridge from the log macros to the \<^verbatim>\<open>logging\<close> module of Python (\<^verbatim>\<open>src/log.rs\<close>): levels and filters per
  module path, the cache of Python loggers as a tree over path segments, the bounded channel to the
  worker thread, and what the worker does with a record. Python answers through an argument. It shows
  that the filter of the longest registered path decides, that the cache returns what was stored,
  that caching changes nothing about what reaches Python, and that the level installed for the process is high enough.
\<close>

section \<open>Levels\<close>

datatype Level = ErrorLevel | WarnLevel | InfoLevel | DebugLevel | TraceLevel

datatype LevelFilter = OffFilter | UpTo Level

primrec level_number :: "Level \<Rightarrow> nat" where
  "level_number ErrorLevel = 1"
| "level_number WarnLevel = 2"
| "level_number InfoLevel = 3"
| "level_number DebugLevel = 4"
| "level_number TraceLevel = 5"

primrec filter_number :: "LevelFilter \<Rightarrow> nat" where
  "filter_number OffFilter = 0"
| "filter_number (UpTo l) = level_number l"

lemma level_number_inject [simp]: "level_number a = level_number b \<longleftrightarrow> a = b"
  by (cases a; cases b) simp_all

lemma level_number_pos [simp]: "level_number l \<noteq> 0" "0 \<noteq> level_number l"
  by (cases l; simp)+

lemma filter_number_inject [simp]: "filter_number a = filter_number b \<longleftrightarrow> a = b"
  by (cases a; cases b) simp_all

instantiation LevelFilter :: linorder
begin

definition less_eq_LevelFilter :: "LevelFilter \<Rightarrow> LevelFilter \<Rightarrow> bool" where
  "less_eq_LevelFilter a b = (filter_number a \<le> filter_number b)"

definition less_LevelFilter :: "LevelFilter \<Rightarrow> LevelFilter \<Rightarrow> bool" where
  "less_LevelFilter a b = (filter_number a < filter_number b)"

instance
  by standard (auto simp: less_eq_LevelFilter_def less_LevelFilter_def)

end

definition LevelFilter_max :: LevelFilter where "LevelFilter_max = UpTo TraceLevel"

definition admits :: "LevelFilter \<Rightarrow> Level \<Rightarrow> bool" where
  \<comment> \<open>\<open>level <= filter\<close>\<close>
  "admits f l = (UpTo l \<le> f)"

lemma admits_max [simp]: "admits LevelFilter_max l"
  by (cases l) (simp_all add: admits_def LevelFilter_max_def less_eq_LevelFilter_def)

lemma admits_mono: "admits f l \<Longrightarrow> f \<le> g \<Longrightarrow> admits g l"
  unfolding admits_def by (rule order_trans)

primrec map_level :: "Level \<Rightarrow> nat" where
  "map_level ErrorLevel = 40"
| "map_level WarnLevel = 30"
| "map_level InfoLevel = 20"
| "map_level DebugLevel = 10"
| "map_level TraceLevel = 5"

section \<open>Module paths\<close>

fun split_path :: "string \<Rightarrow> string list" where
  \<comment> \<open>\<open>split("::")\<close>\<close>
  "split_path [] = [[]]"
| "split_path [c] = [[c]]"
| "split_path (c # d # cs) =
     (if c = CHR '':'' \<and> d = CHR '':'' then [] # split_path cs
      else (case split_path (d # cs) of [] \<Rightarrow> [[c]] | w # ws \<Rightarrow> (c # w) # ws))"

fun join_path :: "string list \<Rightarrow> string" where
  "join_path [] = []"
| "join_path [w] = w"
| "join_path (w # v # ws) = w @ ''::'' @ join_path (v # ws)"

fun find_sep :: "string \<Rightarrow> nat option" where
  \<comment> \<open>\<open>find("::")\<close>\<close>
  "find_sep [] = None"
| "find_sep [c] = None"
| "find_sep (c # d # cs) =
     (if c = CHR '':'' \<and> d = CHR '':'' then Some 0 else map_option Suc (find_sep (d # cs)))"

definition replace_sep :: "string \<Rightarrow> string" where
  \<comment> \<open>\<open>replace("::", ".")\<close>\<close>
  "replace_sep s = str_join CHR ''.'' (split_path s)"

section \<open>The cache\<close>

text \<open>A Python logger object is identified by a number.\<close>

record CacheEntry =
  ce_filter :: LevelFilter
  ce_logger :: nat

datatype CacheNode = CacheNode (node_local: "CacheEntry option") (node_children: "string \<Rightarrow> CacheNode option")

definition CacheNode_default :: CacheNode where
  "CacheNode_default = CacheNode None Map.empty"

fun store_to_cache_recursive :: "CacheNode \<Rightarrow> string list \<Rightarrow> CacheEntry \<Rightarrow> CacheNode" where
  "store_to_cache_recursive (CacheNode loc children) [] entry = CacheNode (Some entry) children"
| "store_to_cache_recursive (CacheNode loc children) (segment # path) entry =
     CacheNode loc (children(segment \<mapsto>
       store_to_cache_recursive (case children segment of None \<Rightarrow> CacheNode_default | Some c \<Rightarrow> c) path entry))"

fun walk :: "CacheNode \<Rightarrow> string list \<Rightarrow> CacheNode option" where
  \<comment> \<open>the loop of \<open>lookup\<close>\<close>
  "walk node [] = Some node"
| "walk node (segment # path) = (case node_children node segment of None \<Rightarrow> None | Some sub \<Rightarrow> walk sub path)"

datatype Caching = NoCaching | Loggers | LoggersAndLevels

record OwnedRecord =
  rec_level :: Level
  rec_target :: string
  rec_message :: string
  rec_file :: "string option"
  rec_line :: "nat option"

record LoggerState =
  top_filter :: LevelFilter
  filters :: "string \<rightharpoonup> LevelFilter"
  log_prefix :: "string option"
  caching :: Caching
  cache :: CacheNode

definition lookup :: "LoggerState \<Rightarrow> string \<Rightarrow> CacheNode option" where
  "lookup s target = (if caching s = NoCaching then None else walk (cache s) (split_path target))"

text \<open>The loop over the separators of a path; \<open>start\<close> is where the rest of it begins.\<close>

lemma find_sep_bound: "find_sep s = Some i \<Longrightarrow> i + 2 \<le> length s"
proof (induction s arbitrary: i rule: find_sep.induct)
  case (3 c d cs)
  then show ?case
    by (cases "c = CHR '':'' \<and> d = CHR '':''") (auto simp del: find_sep.simps(1,2))
qed simp_all

function filter_loop :: "(string \<rightharpoonup> LevelFilter) \<Rightarrow> string \<Rightarrow> nat \<Rightarrow> LevelFilter \<Rightarrow> LevelFilter" where
  "filter_loop fs target start filt =
     (case find_sep (drop start target) of
        None \<Rightarrow> filt
      | Some i \<Rightarrow> filter_loop fs target (start + i + 2)
                    (case fs (take (start + i) target) of Some f \<Rightarrow> f | None \<Rightarrow> filt))"
  by pat_completeness auto
termination
  by (relation "measure (\<lambda>(fs, target, start, filt). length target - start)")
    (auto dest!: find_sep_bound)

declare filter_loop.simps [simp del]

definition filter_for :: "LoggerState \<Rightarrow> string \<Rightarrow> LevelFilter" where
  "filter_for s target =
     (let filt = filter_loop (filters s) target 0 (top_filter s)
      in case filters s target of Some f \<Rightarrow> f | None \<Rightarrow> filt)"

definition cached_entry :: "CacheNode option \<Rightarrow> CacheEntry option" where
  "cached_entry c = (case c of None \<Rightarrow> None | Some node \<Rightarrow> node_local node)"

definition enabled_inner :: "LoggerState \<Rightarrow> Level \<Rightarrow> string \<Rightarrow> CacheNode option \<Rightarrow> bool" where
  "enabled_inner s level target c =
     (let cache_filter = (case cached_entry c of Some e \<Rightarrow> ce_filter e | None \<Rightarrow> LevelFilter_max)
      in admits cache_filter level \<and> admits (filter_for s target) level)"

definition store_to_cache :: "bool \<Rightarrow> string \<Rightarrow> CacheEntry \<Rightarrow> LoggerState \<Rightarrow> LoggerState" where
  \<comment> \<open>compare and swap: when a reset comes between load and swap (\<open>raced\<close>), the reset wins\<close>
  "store_to_cache raced target entry s =
     s\<lparr>cache := if raced then CacheNode_default else store_to_cache_recursive (cache s) (split_path target) entry\<rparr>"

definition reset_cache :: "LoggerState \<Rightarrow> LoggerState" where
  "reset_cache s = s\<lparr>cache := CacheNode_default\<rparr>"

section \<open>The worker thread\<close>

text \<open>
  What Python answers: the logger of a name, whether a logger is enabled for a numeric level, and
  whether a record is handled. An exception is its text.
\<close>

record pylogging =
  getLogger :: "string \<Rightarrow> string + nat"
  isEnabledFor :: "nat \<Rightarrow> nat \<Rightarrow> string + bool"
  handle_fails :: "nat \<Rightarrow> string option"

datatype py_log = Handled nat string nat "string option" nat string
  \<comment> \<open>logger, name, level, file, line and message of a record that was handed to \<open>handle\<close>\<close>

definition is_enabled_for :: "pylogging \<Rightarrow> nat \<Rightarrow> Level \<Rightarrow> string + bool" where
  "is_enabled_for py logger level = isEnabledFor py logger (map_level level)"

fun first_enabled :: "pylogging \<Rightarrow> nat \<Rightarrow> Level list \<Rightarrow> string + LevelFilter" where
  "first_enabled py logger [] = Inr OffFilter"
| "first_enabled py logger (l # ls) =
     try_bind (is_enabled_for py logger l) (\<lambda>yes. if yes then Inr (UpTo l) else first_enabled py logger ls)"

definition extract_max_level :: "pylogging \<Rightarrow> nat \<Rightarrow> string + LevelFilter" where
  "extract_max_level py logger = first_enabled py logger [TraceLevel, DebugLevel, InfoLevel, WarnLevel, ErrorLevel]"

definition python_name :: "LoggerState \<Rightarrow> string \<Rightarrow> string" where
  "python_name s target =
     (case log_prefix s of Some pre \<Rightarrow> pre @ ''.'' @ replace_sep target | None \<Rightarrow> replace_sep target)"

definition log_inner ::
  "pylogging \<Rightarrow> LoggerState \<Rightarrow> OwnedRecord \<Rightarrow> CacheNode option \<Rightarrow> py_log list \<times> (string + nat option)" where
  "log_inner py s r c =
     (let target = python_name s (rec_target r);
          (found, cached) = (case cached_entry c of Some e \<Rightarrow> (Inr (ce_logger e), True) | None \<Rightarrow> (getLogger py target, False))
      in case found of
           Inl e \<Rightarrow> ([], Inl e)
         | Inr logger \<Rightarrow>
            (case is_enabled_for py logger (rec_level r) of
               Inl e \<Rightarrow> ([], Inl e)
             | Inr yes \<Rightarrow>
                let calls = (if yes then [Handled logger target (map_level (rec_level r)) (rec_file r)
                               (case rec_line r of None \<Rightarrow> 0 | Some n \<Rightarrow> n) (rec_message r)] else []);
                    fails = (if yes then handle_fails py logger else None)
                in (calls, case fails of
                      Some e \<Rightarrow> Inl e
                    | None \<Rightarrow> Inr (if \<not> cached \<and> caching s \<noteq> NoCaching then Some logger else None))))"

definition process_record ::
  "pylogging \<Rightarrow> bool \<Rightarrow> OwnedRecord \<Rightarrow> LoggerState \<times> string option \<Rightarrow> (LoggerState \<times> string option) \<times> py_log list" where
  \<comment> \<open>the second component is the exception that is set in the interpreter\<close>
  "process_record py raced r st =
     (let (s, pending) = st;
          (calls, result) = log_inner py s r (lookup s (rec_target r));
          (s', err) =
            (case result of
               Inl e \<Rightarrow> (s, Some e)
             | Inr None \<Rightarrow> (s, None)
             | Inr (Some logger) \<Rightarrow>
                (let (filt, err) = (if caching s = LoggersAndLevels
                       then (case extract_max_level py logger of Inr f \<Rightarrow> (f, None) | Inl e \<Rightarrow> (LevelFilter_max, Some e))
                       else (LevelFilter_max, None))
                 in (store_to_cache raced (rec_target r) \<lparr>ce_filter = filt, ce_logger = logger\<rparr> s, err)))
      in ((s', case pending of Some e \<Rightarrow> Some e | None \<Rightarrow> err), calls))"

section \<open>The builder and the installed logger\<close>

definition Logger_new :: "Caching \<Rightarrow> LoggerState" where
  "Logger_new c =
     \<lparr>top_filter = UpTo DebugLevel, filters = Map.empty, log_prefix = None, caching = c, cache = CacheNode_default\<rparr>"

definition Logger_filter :: "LevelFilter \<Rightarrow> LoggerState \<Rightarrow> LoggerState" where
  "Logger_filter f s = s\<lparr>top_filter := f\<rparr>"

definition filter_target :: "string \<Rightarrow> LevelFilter \<Rightarrow> LoggerState \<Rightarrow> LoggerState" where
  "filter_target target f s = s\<lparr>filters := (filters s)(target \<mapsto> f)\<rparr>"

definition set_prefix :: "string \<Rightarrow> LoggerState \<Rightarrow> LoggerState" where
  "set_prefix p s = s\<lparr>log_prefix := Some (replace_sep p)\<rparr>"

definition install_level :: "string list \<Rightarrow> LoggerState \<Rightarrow> LevelFilter" where
  \<comment> \<open>the maximum over the top filter and all values of the map, whose keys are \<open>ks\<close>\<close>
  "install_level ks s = foldr max (concat (map (\<lambda>k. case filters s k of None \<Rightarrow> [] | Some f \<Rightarrow> [f]) ks)) (top_filter s)"

definition LOG_CHANNEL_CAPACITY :: nat where "LOG_CHANNEL_CAPACITY = 4096"

record AsyncLogger =
  al_state :: LoggerState
  al_queue :: "OwnedRecord list"
  al_pending :: "string option"

definition AsyncLogger_enabled :: "AsyncLogger \<Rightarrow> Level \<Rightarrow> string \<Rightarrow> bool" where
  "AsyncLogger_enabled a level target = enabled_inner (al_state a) level target (lookup (al_state a) target)"

definition AsyncLogger_log :: "AsyncLogger \<Rightarrow> OwnedRecord \<Rightarrow> AsyncLogger" where
  "AsyncLogger_log a r =
     (if AsyncLogger_enabled a (rec_level r) (rec_target r) \<and> length (al_queue a) < LOG_CHANNEL_CAPACITY
      then a\<lparr>al_queue := al_queue a @ [r]\<rparr> else a)"

definition worker_turn :: "pylogging \<Rightarrow> bool \<Rightarrow> AsyncLogger \<Rightarrow> AsyncLogger \<times> py_log list" where
  \<comment> \<open>one round of the worker thread\<close>
  "worker_turn py raced a =
     (case al_queue a of
        [] \<Rightarrow> (a, [])
      | r # rest \<Rightarrow>
         (let ((s, pending), calls) = process_record py raced r (al_state a, al_pending a)
          in (a\<lparr>al_state := s, al_queue := rest, al_pending := pending\<rparr>, calls)))"

datatype install_call = SpawnWorker | SetBoxedLogger | SetMaxLevel LevelFilter

definition Logger_install :: "bool \<Rightarrow> bool \<Rightarrow> string list \<Rightarrow> LoggerState \<Rightarrow> (install_call list \<times> AsyncLogger option) res" where
  \<comment> \<open>whether a thread can be spawned, whether the \<open>log\<close> crate takes the logger (it takes one per process);
    the calls made, and the logger if it was installed\<close>
  "Logger_install spawns set_ok ks s =
     (if \<not> spawns then Inl (Panic ''Failed to spawn logging worker thread'')
      else Inr (if set_ok
        then ([SpawnWorker, SetBoxedLogger, SetMaxLevel (install_level ks s)], Some \<lparr>al_state = s, al_queue = [], al_pending = None\<rparr>)
        else ([SpawnWorker, SetBoxedLogger], None)))"

definition Logger_default :: "bool \<Rightarrow> LoggerState res" where
  \<comment> \<open>whether the \<open>logging\<close> module can be imported\<close>
  "Logger_default imported =
     (if imported then Inr (Logger_new LoggersAndLevels) else Inl (Panic ''Failed to initialize python logging''))"

definition try_init :: "bool \<Rightarrow> bool \<Rightarrow> bool \<Rightarrow> (install_call list \<times> AsyncLogger option) res" where
  "try_init imported spawns set_ok = res_bind (Logger_default imported) (Logger_install spawns set_ok [])"

definition init :: "bool \<Rightarrow> bool \<Rightarrow> bool \<Rightarrow> AsyncLogger res" where
  "init imported spawns set_ok =
     res_bind (try_init imported spawns set_ok) (\<lambda>(calls, logger).
       case logger of Some a \<Rightarrow> Inr a | None \<Rightarrow> Inl (Panic ''called Result::unwrap() on an Err value: SetLoggerError''))"

definition reset_handle :: "AsyncLogger \<Rightarrow> AsyncLogger" where
  \<comment> \<open>what a reset through a handle does: builder, handles and logger share the cache\<close>
  "reset_handle a = a\<lparr>al_state := reset_cache (al_state a)\<rparr>"

section \<open>Paths and filters\<close>

lemma split_path_nonempty [simp]: "split_path s \<noteq> []"
  by (induction s rule: split_path.induct) (auto split: list.splits)

lemma join_path_Cons: "ws \<noteq> [] \<Longrightarrow> join_path (w # ws) = w @ ''::'' @ join_path ws"
  by (cases ws) simp_all

lemma join_split [simp]: "join_path (split_path s) = s"
proof (induction s rule: split_path.induct)
  case (3 c d cs)
  show ?case
  proof (cases "c = CHR '':'' \<and> d = CHR '':''")
    case True
    with 3 show ?thesis by (simp add: join_path_Cons)
  next
    case False
    obtain w ws where sp: "split_path (d # cs) = w # ws" by (cases "split_path (d # cs)") auto
    with 3 False have "join_path (w # ws) = d # cs" by auto
    then have "join_path ((c # w) # ws) = c # d # cs" by (cases ws) simp_all
    with False sp show ?thesis by auto
  qed
qed simp_all

lemma split_path_inject [simp]: "split_path a = split_path b \<longleftrightarrow> a = b"
  by (metis join_split)

lemma split_path_find:
  "split_path s = (case find_sep s of None \<Rightarrow> [s] | Some i \<Rightarrow> take i s # split_path (drop (i + 2) s))"
proof (induction s rule: find_sep.induct)
  case (3 c d cs)
  show ?case
  proof (cases "c = CHR '':'' \<and> d = CHR '':''")
    case False
    with 3 have "split_path (d # cs) =
      (case find_sep (d # cs) of None \<Rightarrow> [d # cs] | Some i \<Rightarrow> take i (d # cs) # split_path (drop (i + 2) (d # cs)))"
      by simp
    with False show ?thesis by (auto split: option.splits)
  qed simp
qed simp_all

lemma find_sep_split: "find_sep s = Some i \<Longrightarrow> s = take i s @ ''::'' @ drop (i + 2) s"
proof (induction s arbitrary: i rule: find_sep.induct)
  case (3 c d cs)
  show ?case
  proof (cases "c = CHR '':'' \<and> d = CHR '':''")
    case True
    with "3.prems" show ?thesis by auto
  next
    case False
    with "3.prems" obtain j where j: "find_sep (d # cs) = Some j" "i = Suc j" by auto
    with 3 False have "d # cs = take j (d # cs) @ ''::'' @ drop (j + 2) (d # cs)" by blast
    with j(2) show ?thesis by simp
  qed
qed simp_all

definition pick :: "(string \<rightharpoonup> LevelFilter) \<Rightarrow> LevelFilter \<Rightarrow> string \<Rightarrow> LevelFilter" where
  "pick fs f p = (case fs p of Some g \<Rightarrow> g | None \<Rightarrow> f)"

definition path_prefixes :: "string \<Rightarrow> string list" where
  "path_prefixes target = map (\<lambda>k. join_path (take (Suc k) (split_path target))) [0..<length (split_path target)]"

lemma path_prefixes_find:
  "path_prefixes s = (case find_sep s of None \<Rightarrow> [s]
     | Some i \<Rightarrow> take i s # map (\<lambda>p. take i s @ ''::'' @ p) (path_prefixes (drop (i + 2) s)))"
proof (cases "find_sep s")
  case None
  then show ?thesis using split_path_find [of s] by (simp add: path_prefixes_def)
next
  case (Some i)
  let ?rest = "split_path (drop (i + 2) s)"
  have sp: "split_path s = take i s # ?rest" using split_path_find [of s] Some by simp
  have "join_path (take (Suc (Suc k)) (take i s # ?rest)) = take i s @ ''::'' @ join_path (take (Suc k) ?rest)" for k
    by (simp add: join_path_Cons)
  then show ?thesis
    unfolding path_prefixes_def sp Some
    by (simp add: upt_conv_Cons map_Suc_upt [symmetric] comp_def del: upt_Suc)
qed

lemma path_prefixes_last: "path_prefixes s \<noteq> []" "last (path_prefixes s) = s"
  by (simp_all add: path_prefixes_def last_map)

lemma butlast_map_append: "butlast (map f xs) = map f (butlast xs)"
  by (rule map_butlast [symmetric])

lemma filter_loop_prefixes:
  "filter_loop fs (b @ rest) (length b) f = foldl (pick fs) f (map (\<lambda>p. b @ p) (butlast (path_prefixes rest)))"
proof (induction "length rest" arbitrary: b rest f rule: less_induct)
  case less
  show ?case
  proof (cases "find_sep rest")
    case None
    then show ?thesis by (simp add: filter_loop.simps path_prefixes_find [of rest])
  next
    case (Some i)
    let ?b = "b @ take i rest @ ''::''" and ?rest = "drop (i + 2) rest"
    have len: "length rest \<ge> i + 2" using find_sep_bound [OF Some] .
    have split: "b @ rest = ?b @ ?rest" using find_sep_split [OF Some] by simp
    have next_start: "length b + i + 2 = length ?b" using len by simp
    have "filter_loop fs (b @ rest) (length b) f
        = filter_loop fs (?b @ ?rest) (length ?b) (pick fs f (b @ take i rest))"
      using Some split next_start by (simp add: filter_loop.simps [of fs "b @ rest" "length b"] pick_def)
    also have "\<dots> = foldl (pick fs) (pick fs f (b @ take i rest)) (map (\<lambda>p. ?b @ p) (butlast (path_prefixes ?rest)))"
      by (rule less) (use len in simp)
    also have "\<dots> = foldl (pick fs) f (map (\<lambda>p. b @ p) (butlast (path_prefixes rest)))"
      using Some path_prefixes_last(1) [of ?rest]
      by (simp add: path_prefixes_find [of rest] butlast_map_append comp_def)
    finally show ?thesis .
  qed
qed

lemma filter_for_longest_eq:
  "filter_for s target = foldl (pick (filters s)) (top_filter s) (path_prefixes target)"
proof -
  have "filter_loop (filters s) target 0 (top_filter s)
      = foldl (pick (filters s)) (top_filter s) (butlast (path_prefixes target))"
    using filter_loop_prefixes [of "filters s" "[]" target] by simp
  moreover have "path_prefixes target = butlast (path_prefixes target) @ [target]"
    using append_butlast_last_id [OF path_prefixes_last(1) [of target]] path_prefixes_last(2) [of target] by simp
  ultimately show ?thesis
    by (metis (no_types, lifting) filter_for_def foldl_append foldl_Cons foldl_Nil pick_def)
qed

text \<open>
  C35 (equivalence). Which filter decides: the byte-wise scan over separators computes the
  same as going through the module path segment by segment from the outside in and taking the
  last registered filter, that is the filter of the longest registered prefix, and the
  top filter when none is registered.
\<close>

theorem filter_for_longest_prefix:
  "filter_for s target = foldl (pick (filters s)) (top_filter s) (path_prefixes target)"
  by (rule filter_for_longest_eq)

text \<open>The level at which the logger is installed lets through whatever a filter admits.\<close>

lemma foldl_pick_cases: "foldl (pick fs) f ps = f \<or> (\<exists>p \<in> set ps. fs p = Some (foldl (pick fs) f ps))"
proof (induction ps arbitrary: f)
  case (Cons p ps)
  from Cons [of "pick fs f p"] show ?case by (auto simp: pick_def split: option.splits)
qed simp

lemma foldr_max_upper: "(f :: LevelFilter) \<le> foldr max xs f" "x \<in> set xs \<Longrightarrow> x \<le> foldr max xs (f :: LevelFilter)"
  by (induction xs) (auto simp: le_max_iff_disj)

lemma install_level_covers:
  assumes "iterates ks (filters s)" "admits (filter_for s target) level"
  shows "admits (install_level ks s) level"
proof -
  have "filter_for s target \<le> install_level ks s"
    using foldl_pick_cases [of "filters s" "top_filter s" "path_prefixes target"]
  proof
    assume "\<exists>p\<in>set (path_prefixes target). filters s p
      = Some (foldl (pick (filters s)) (top_filter s) (path_prefixes target))"
    then obtain p where p: "filters s p = Some (filter_for s target)"
      by (auto simp: filter_for_longest_eq)
    with assms(1) have "p \<in> set ks" by (auto simp: iterates_mem)
    with p have "filter_for s target \<in> set (concat (map (\<lambda>k. case filters s k of None \<Rightarrow> [] | Some f \<Rightarrow> [f]) ks))"
      by (auto intro!: bexI [of _ p])
    then show ?thesis unfolding install_level_def by (rule foldr_max_upper(2))
  qed (simp add: filter_for_longest_eq install_level_def foldr_max_upper(1))
  with assms(2) show ?thesis by (rule admits_mono)
qed

section \<open>The cache\<close>

definition local_at :: "CacheNode \<Rightarrow> string list \<Rightarrow> CacheEntry option" where
  "local_at node path = cached_entry (walk node path)"

lemma local_at_default [simp]: "local_at CacheNode_default path = None"
  by (cases path) (simp_all add: local_at_def cached_entry_def CacheNode_default_def)

lemma local_at_Cons: "local_at node (seg # path) =
     (case node_children node seg of None \<Rightarrow> None | Some sub \<Rightarrow> local_at sub path)"
  by (simp add: local_at_def cached_entry_def split: option.splits)

lemma local_at_Nil: "local_at node [] = node_local node"
  by (simp add: local_at_def cached_entry_def)

lemma cache_store_lookup:
  "local_at (store_to_cache_recursive node path entry) q = (if q = path then Some entry else local_at node q)"
proof (induction node path entry arbitrary: q rule: store_to_cache_recursive.induct)
  case (1 loc children entry)
  then show ?case by (cases q) (simp_all add: local_at_Nil local_at_Cons)
next
  case (2 loc children segment path entry)
  show ?case
  proof (cases q)
    case Nil
    then show ?thesis by (simp add: local_at_Nil)
  next
    case (Cons seg rest)
    then show ?thesis using "2.IH" [of rest]
      by (cases "seg = segment"; cases "children segment") (simp_all add: local_at_Cons)
  qed
qed

section \<open>Caching is transparent\<close>

text \<open>
  What the cache may hold while Python's configuration stays the same: under a path only the
  logger that Python returns for it, with a filter that refuses only levels that Python refuses.
\<close>

definition cache_ok :: "pylogging \<Rightarrow> LoggerState \<Rightarrow> bool" where
  "cache_ok py s \<longleftrightarrow> (\<forall>target e. local_at (cache s) (split_path target) = Some e \<longrightarrow>
     getLogger py (python_name s target) = Inr (ce_logger e)
     \<and> (\<forall>l. admits (ce_filter e) l \<or> is_enabled_for py (ce_logger e) l = Inr False))"

lemma cache_okD:
  assumes "cache_ok py s" "cached_entry (lookup s target) = Some e"
  shows "getLogger py (python_name s target) = Inr (ce_logger e)"
    "\<not> admits (ce_filter e) l \<Longrightarrow> is_enabled_for py (ce_logger e) l = Inr False"
  using assms by (auto simp: cache_ok_def local_at_def lookup_def cached_entry_def split: if_splits)

lemma extract_max_level_refused:
  "extract_max_level py lg = Inr f \<Longrightarrow> admits f l \<or> is_enabled_for py lg l = Inr False"
  by (cases l) (auto simp: extract_max_level_def try_bind_Inr_iff admits_def less_eq_LevelFilter_def split: if_splits)

lemma log_inner_cached_calls:
  assumes "cache_ok py s"
  shows "fst (log_inner py s r (lookup s (rec_target r))) = fst (log_inner py s r None)"
proof (cases "cached_entry (lookup s (rec_target r))")
  case (Some e)
  with cache_okD(1) [OF assms Some] show ?thesis
    by (auto simp: log_inner_def Let_def cached_entry_def split: sum.splits)
qed (simp add: log_inner_def cached_entry_def)

lemma process_record_calls: "snd (process_record py raced r (s, pending)) = fst (log_inner py s r (lookup s (rec_target r)))"
  by (auto simp: process_record_def Let_def split: prod.splits)

lemma log_inner_caching:
  "fst (log_inner py (s\<lparr>caching := c\<rparr>) r None) = fst (log_inner py s r None)"
  by (auto simp: log_inner_def Let_def cached_entry_def python_name_def split: sum.splits)

lemma log_inner_logger:
  "snd (log_inner py s r c) = Inr (Some lg) \<Longrightarrow> getLogger py (python_name s (rec_target r)) = Inr lg"
  by (cases "cached_entry c") (auto simp: log_inner_def Let_def split: sum.splits if_splits option.splits)

lemma cache_ok_store:
  assumes "cache_ok py s" "getLogger py (python_name s target) = Inr lg"
    "\<And>l. admits filt l \<or> is_enabled_for py lg l = Inr False"
  shows "cache_ok py (store_to_cache raced target \<lparr>ce_filter = filt, ce_logger = lg\<rparr> s)"
  using assms by (auto simp: cache_ok_def store_to_cache_def cache_store_lookup python_name_def)

datatype cache_event = Processed bool OwnedRecord | WasReset

fun cache_step :: "pylogging \<Rightarrow> LoggerState \<Rightarrow> cache_event \<Rightarrow> LoggerState" where
  "cache_step py s (Processed raced r) = fst (fst (process_record py raced r (s, None)))"
| "cache_step py s WasReset = reset_cache s"

lemma cache_ok_processed:
  assumes "cache_ok py s"
  shows "cache_ok py (fst (fst (process_record py raced r (s, pending))))"
proof -
  obtain calls result where li: "log_inner py s r (lookup s (rec_target r)) = (calls, result)" by fastforce
  show ?thesis
  proof (cases "\<exists>lg. result = Inr (Some lg)")
    case True
    then obtain lg where lg: "result = Inr (Some lg)" by blast
    with li have name: "getLogger py (python_name s (rec_target r)) = Inr lg"
      using log_inner_logger [of py s r "lookup s (rec_target r)" lg] by simp
    have keep: "cache_ok py (store_to_cache raced (rec_target r) \<lparr>ce_filter = LevelFilter_max, ce_logger = lg\<rparr> s)"
      by (rule cache_ok_store [OF assms name]) simp
    have "cache_ok py (store_to_cache raced (rec_target r) \<lparr>ce_filter = f, ce_logger = lg\<rparr> s)"
      if "extract_max_level py lg = Inr f" for f
      by (rule cache_ok_store [OF assms name extract_max_level_refused [OF that]])
    with keep show ?thesis
      by (auto simp: process_record_def li lg Let_def split: sum.splits)
  next
    case False
    with li assms show ?thesis
      by (cases result) (auto simp: process_record_def Let_def split: option.splits)
  qed
qed

interpretation log_cache: event_invariant "cache_step py" "cache_ok py" for py
proof
  fix s e
  assume "cache_ok py s"
  then show "cache_ok py (cache_step py s e)"
    by (cases e) (simp_all add: cache_ok_processed, simp add: cache_ok_def reset_cache_def)
qed

text \<open>
  C33 (equivalence). Caching is transparent. After any sequence of records and resets, while Python's
  configuration stays the same, a record makes the same calls of Python as without a cache,
  and a record that only the cached level keeps out of the channel would have made none.
\<close>

theorem caching_transparent:
  assumes "cache s0 = CacheNode_default" "s = foldl (cache_step py) s0 es"
  shows "snd (process_record py raced r (s, pending)) = snd (process_record py raced r (s\<lparr>caching := NoCaching\<rparr>, pending))
     \<and> (enabled_inner s (rec_level r) (rec_target r) (lookup s (rec_target r))
        \<or> \<not> admits (filter_for s (rec_target r)) (rec_level r)
        \<or> snd (process_record py raced r (s, pending)) = [])"
proof -
  have "cache_ok py s0" using assms(1) by (simp add: cache_ok_def)
  then have ok: "cache_ok py s" unfolding assms(2) by (rule log_cache.run_inv)
  have plain: "lookup (s\<lparr>caching := NoCaching\<rparr>) (rec_target r) = None" by (simp add: lookup_def)
  have "snd (process_record py raced r (s, pending)) = []"
    if "\<not> enabled_inner s (rec_level r) (rec_target r) (lookup s (rec_target r))"
      "admits (filter_for s (rec_target r)) (rec_level r)"
  proof -
    from that obtain e where e: "cached_entry (lookup s (rec_target r)) = Some e" "\<not> admits (ce_filter e) (rec_level r)"
      by (auto simp: enabled_inner_def Let_def split: option.splits)
    from cache_okD(2) [OF ok e] show ?thesis by (simp add: process_record_calls log_inner_def e(1) Let_def)
  qed
  moreover have "snd (process_record py raced r (s, pending)) = snd (process_record py raced r (s\<lparr>caching := NoCaching\<rparr>, pending))"
    by (simp add: process_record_calls log_inner_cached_calls [OF ok] plain log_inner_caching)
  ultimately show ?thesis by blast
qed

definition sample_python :: pylogging where
  \<comment> \<open>one logger, enabled from warnings upwards\<close>
  "sample_python = \<lparr>getLogger = (\<lambda>n. Inr 1), isEnabledFor = (\<lambda>lg l. Inr (30 \<le> l)), handle_fails = (\<lambda>lg. None)\<rparr>"

definition sample_record :: "Level \<Rightarrow> OwnedRecord" where
  "sample_record l = \<lparr>rec_level = l, rec_target = ''a::b'', rec_message = ''m'', rec_file = None, rec_line = None\<rparr>"

theorem caching_transparent_witness:
  "\<exists>s. s = foldl (cache_step sample_python) (Logger_new LoggersAndLevels) [Processed False (sample_record WarnLevel)]
     \<and> snd (process_record sample_python False (sample_record ErrorLevel) (s, None))
       = snd (process_record sample_python False (sample_record ErrorLevel) (s\<lparr>caching := NoCaching\<rparr>, None))"
  using caching_transparent [of "Logger_new LoggersAndLevels" _ sample_python "[Processed False (sample_record WarnLevel)]"
      False "sample_record ErrorLevel" None]
  by (simp add: Logger_new_def)

text \<open>The channel never holds more than its capacity; a record that finds it full is dropped.\<close>

lemma log_queue_bounded:
  "length (al_queue a) \<le> LOG_CHANNEL_CAPACITY \<Longrightarrow> length (al_queue (AsyncLogger_log a r)) \<le> LOG_CHANNEL_CAPACITY"
  "length (al_queue (fst (worker_turn py raced a))) \<le> length (al_queue a)"
  by (auto simp: AsyncLogger_log_def worker_turn_def Let_def split: list.splits prod.splits)

text \<open>An exception that was set before a record is processed is still set afterwards.\<close>

lemma pending_exception_kept: "snd (fst (process_record py raced r (s, Some e))) = Some e"
  by (auto simp: process_record_def Let_def split: prod.splits)

text \<open>
  The level set for the whole process lets every record through that the installed logger takes, whatever its cache
  holds; when another logger is there already, neither the level nor the logger changes.
\<close>

lemma installed_level_is_enough:
  assumes "Logger_install spawns set_ok ks s = Inr (calls, logger)" "iterates ks (filters s)"
  shows "case logger of
       None \<Rightarrow> \<not> set_ok \<and> (\<forall>l. SetMaxLevel l \<notin> set calls)
     | Some a \<Rightarrow> set_ok \<and> (\<forall>c level target. AsyncLogger_enabled (a\<lparr>al_state := (al_state a)\<lparr>cache := c\<rparr>\<rparr>) level target
         \<longrightarrow> (\<exists>l. SetMaxLevel l \<in> set calls \<and> admits l level))"
proof -
  have "filter_for (s\<lparr>cache := c\<rparr>) target = filter_for s target" for c target by (simp add: filter_for_def)
  then have "admits (install_level ks s) level"
    if "enabled_inner (s\<lparr>cache := c\<rparr>) level target (lookup (s\<lparr>cache := c\<rparr>) target)" for c level target
    using that install_level_covers [OF assms(2), of target level] by (simp add: enabled_inner_def Let_def)
  with assms(1) show ?thesis
    by (auto simp: Logger_install_def AsyncLogger_enabled_def split: if_splits)
qed

lemma init_outcome: "init imported spawns set_ok = Inr a \<longleftrightarrow> imported \<and> spawns \<and> set_ok
     \<and> a = \<lparr>al_state = Logger_new LoggersAndLevels, al_queue = [], al_pending = None\<rparr>"
  by (auto simp: init_def try_init_def Logger_default_def Logger_install_def)

end
