(* ===== verification/Bindings.thy ===== *)
theory Bindings
  imports Config FanOut
begin

text \<open>
  The settings and failure classes that Python sees (\<^verbatim>\<open>src/bindings.rs\<close>) and the observability settings they
  become (\<^verbatim>\<open>src/observability/config.rs\<close>): constructors with the defaults of their signatures, conversions
  in both directions, and representations. The text of a floating point number is an argument. It
  shows that the Python defaults are the Rust defaults, that a failure reason given to Python is
  determined by its description, and that strings can be read back from their debug texts.
\<close>

section \<open>Retry policy\<close>

definition PyRetryPolicy_new :: "nat \<Rightarrow> nat \<Rightarrow> nat \<Rightarrow> real \<Rightarrow> PyRetryPolicy" where
  "PyRetryPolicy_new max_att base_ms max_ms jitter =
     \<lparr>prp_max_attempts = max_att, prp_base_delay_ms = base_ms, prp_max_delay_ms = max_ms, prp_jitter_factor = jitter\<rparr>"

definition PyRetryPolicy_default :: "(real \<Rightarrow> real) \<Rightarrow> PyRetryPolicy" where
  \<comment> \<open>the defaults of the signature; \<open>0.1\<close> is rounded to a double\<close>
  "PyRetryPolicy_default rnd = PyRetryPolicy_new 3 100 30000 (rnd (1 / 10))"

definition PyRetryPolicy_repr :: "(real \<Rightarrow> string) \<Rightarrow> PyRetryPolicy \<Rightarrow> string" where
  "PyRetryPolicy_repr show_f64 p =
     ''RetryPolicy(max_attempts='' @ show_nat (prp_max_attempts p) @ '', base_delay_ms='' @ show_nat (prp_base_delay_ms p)
     @ '', max_delay_ms='' @ show_nat (prp_max_delay_ms p) @ '', jitter_factor='' @ show_f64 (prp_jitter_factor p) @ '')''"

section \<open>Observability\<close>

datatype LogFormat = JsonFormat | PrettyFormat | SimpleFormat

record ObservabilityConfig =
  oc_otlp_endpoint :: "string option"
  oc_service_name :: string
  oc_sampling_ratio :: real
  oc_log_format :: LogFormat

definition ObservabilityConfig_default :: ObservabilityConfig where
  "ObservabilityConfig_default =
     \<lparr>oc_otlp_endpoint = None, oc_service_name = ''kafpy'', oc_sampling_ratio = 1, oc_log_format = PrettyFormat\<rparr>"

definition PyObservabilityConfig_new :: "string option \<Rightarrow> string \<Rightarrow> real \<Rightarrow> string \<Rightarrow> PyObservabilityConfig" where
  "PyObservabilityConfig_new endpoint service ratio format =
     \<lparr>obs_otlp_endpoint = endpoint, obs_service_name = service, obs_sampling_ratio = ratio, obs_log_format = format\<rparr>"

definition PyObservabilityConfig_default :: PyObservabilityConfig where
  "PyObservabilityConfig_default = PyObservabilityConfig_new None ''kafpy'' 1 ''pretty''"

definition log_format_of :: "string \<Rightarrow> LogFormat" where
  "log_format_of s =
     (if s = ''json'' then JsonFormat else if s = ''simple'' then SimpleFormat else PrettyFormat)"

definition observability_to_rust :: "PyObservabilityConfig \<Rightarrow> ObservabilityConfig" where
  "observability_to_rust c =
     \<lparr>oc_otlp_endpoint = obs_otlp_endpoint c, oc_service_name = obs_service_name c,
      oc_sampling_ratio = obs_sampling_ratio c, oc_log_format = log_format_of (obs_log_format c)\<rparr>"

section \<open>Failures\<close>

datatype PyFailureCategory = PyRetryable | PyTerminal | PyNonRetryable

fun PyFailureCategory_repr :: "PyFailureCategory \<Rightarrow> string" where
  "PyFailureCategory_repr PyRetryable = ''FailureCategory.Retryable''"
| "PyFailureCategory_repr PyTerminal = ''FailureCategory.Terminal''"
| "PyFailureCategory_repr PyNonRetryable = ''FailureCategory.NonRetryable''"

fun PyFailureCategory_from :: "FailureCategory \<Rightarrow> PyFailureCategory" where
  "PyFailureCategory_from RetryableCat = PyRetryable"
| "PyFailureCategory_from TerminalCat = PyTerminal"
| "PyFailureCategory_from NonRetryableCat = PyNonRetryable"

record PyFailureReason =
  pfr_category :: PyFailureCategory
  pfr_description :: string

definition PyFailureReason_new :: "PyFailureCategory \<Rightarrow> string \<Rightarrow> PyFailureReason" where
  "PyFailureReason_new cat description = \<lparr>pfr_category = cat, pfr_description = description\<rparr>"

definition PyFailureReason_from :: "FailureReason \<Rightarrow> PyFailureReason" where
  "PyFailureReason_from reason =
     \<lparr>pfr_category = PyFailureCategory_from (category reason), pfr_description = FailureReason_str reason\<rparr>"

section \<open>Debug texts\<close>

definition debug_hex :: "nat \<Rightarrow> string" where
  \<comment> \<open>the shortest hexadecimal text of a byte\<close>
  "debug_hex n = (if n < 16 then [hex_digit n] else [hex_digit (n div 16), hex_digit (n mod 16)])"

definition debug_escape :: "nat \<Rightarrow> string" where
  \<comment> \<open>what follows the backslash, for an ASCII character that is escaped\<close>
  "debug_escape n =
     (if n = 0 then ''0'' else if n = 9 then ''t'' else if n = 10 then ''n'' else if n = 13 then ''r''
      else if n = 34 then [CHR 0x22] else if n = 92 then [CHR 0x5C]
      else ''u{'' @ debug_hex n @ ''}'')"

definition debug_escaped :: "nat \<Rightarrow> bool" where
  "debug_escaped n \<longleftrightarrow> n < 32 \<or> n = 34 \<or> n = 92 \<or> n = 127"

definition debug_char :: "char \<Rightarrow> string" where
  "debug_char c = (if debug_escaped (of_char c) then CHR 0x5C # debug_escape (of_char c) else [c])"

definition debug_str :: "string \<Rightarrow> string" where
  \<comment> \<open>\<open>{:?}\<close> of a string of ASCII characters\<close>
  "debug_str s = CHR 0x22 # concat (map debug_char s) @ [CHR 0x22]"

definition debug_option :: "string option \<Rightarrow> string" where
  "debug_option x = (case x of None \<Rightarrow> ''None'' | Some s \<Rightarrow> ''Some('' @ debug_str s @ '')'')"

definition PyObservabilityConfig_repr :: "(real \<Rightarrow> string) \<Rightarrow> PyObservabilityConfig \<Rightarrow> string" where
  "PyObservabilityConfig_repr show_f64 c =
     ''ObservabilityConfig(otlp_endpoint='' @ debug_option (obs_otlp_endpoint c) @ '', service_name='' @ debug_str (obs_service_name c)
     @ '', sampling_ratio='' @ show_f64 (obs_sampling_ratio c) @ '', log_format='' @ debug_str (obs_log_format c) @ '')''"

definition PyFailureReason_repr :: "PyFailureReason \<Rightarrow> string" where
  "PyFailureReason_repr r =
     ''FailureReason(category='' @ PyFailureCategory_repr (pfr_category r) @ '', description='' @ debug_str (pfr_description r) @ '')''"

definition DefaultDlqRouter_str :: "DefaultDlqRouter \<Rightarrow> string" where
  "DefaultDlqRouter_str r = ''DefaultDlqRouter(prefix='' @ debug_str (dlq_topic_prefix r) @ '')''"

section \<open>Lemmas\<close>

lemma python_retry_defaults: "to_rust (PyRetryPolicy_default rnd) = RetryPolicy_default rnd"
  by (simp add: to_rust_def PyRetryPolicy_default_def PyRetryPolicy_new_def RetryPolicy_new_def
      RetryPolicy_default_def from_millis_def from_secs_def nanos_per_sec_def)

lemma python_observability_defaults: "observability_to_rust PyObservabilityConfig_default = ObservabilityConfig_default"
  by (simp add: observability_to_rust_def PyObservabilityConfig_default_def PyObservabilityConfig_new_def
      ObservabilityConfig_default_def log_format_of_def)

lemma category_from_inject: "PyFailureCategory_from a = PyFailureCategory_from b \<longleftrightarrow> a = b"
  by (cases a; cases b) simp_all

lemma failure_reason_determined: "PyFailureReason_from a = PyFailureReason_from b \<longleftrightarrow> a = b"
  by (auto simp: PyFailureReason_from_def dest: FailureReason_str_inject)

text \<open>
  Debug texts can be read back: a quoted string ends at its first quote that is not escaped, and determines the characters in it.
\<close>

lemma of_char_hex_digit: "n < 16 \<Longrightarrow> of_char (hex_digit n) = (if n < 10 then 48 + n else 87 + n :: nat)"
  by simp

lemma hex_digit_inject: "a < 16 \<Longrightarrow> b < 16 \<Longrightarrow> hex_digit a = hex_digit b \<longleftrightarrow> a = b"
proof
  assume "a < 16" "b < 16" "hex_digit a = hex_digit b"
  then have "(if a < 10 then 48 + a else 87 + a) = (if b < 10 then 48 + b else 87 + b)"
    by (metis of_char_hex_digit)
  then show "a = b" by (simp split: if_splits)
qed simp

lemma hex_digit_not_brace: "a < 16 \<Longrightarrow> hex_digit a \<noteq> CHR 0x7D"
proof
  assume "a < 16" "hex_digit a = CHR 0x7D"
  then have "(if a < 10 then 48 + a else 87 + a) = (of_char CHR 0x7D :: nat)"
    by (metis of_char_hex_digit)
  with \<open>a < 16\<close> show False by (simp split: if_splits)
qed

lemma hex_pair_inject: "n div 16 = m div 16 \<Longrightarrow> n mod 16 = m mod 16 \<Longrightarrow> n = (m :: nat)"
  by (metis div_mult_mod_eq)

lemma debug_hex_prefix:
  assumes "n < 128" "m < 128" "debug_hex n @ CHR 0x7D # xs = debug_hex m @ CHR 0x7D # ys"
  shows "n = m \<and> xs = ys"
proof -
  have d: "n div 16 < 16" "n mod 16 < 16" "m div 16 < 16" "m mod 16 < 16" using assms(1,2) by auto
  note no = hex_digit_not_brace [OF d(2)] hex_digit_not_brace [OF d(4)]
  from assms(3) consider "n < 16" "m < 16" "hex_digit n = hex_digit m" "xs = ys"
    | "16 \<le> n" "16 \<le> m" "hex_digit (n div 16) = hex_digit (m div 16)" "hex_digit (n mod 16) = hex_digit (m mod 16)" "xs = ys"
    using no no [symmetric] by (simp add: debug_hex_def del: hex_digit.simps split: if_splits)
  then show ?thesis using d by cases (auto simp: hex_digit_inject simp del: hex_digit.simps intro: hex_pair_inject)
qed

lemma debug_escape_prefix:
  assumes "n < 128" "m < 128" "debug_escape n @ xs = debug_escape m @ ys"
  shows "n = m \<and> xs = ys"
  using assms(3) debug_hex_prefix [OF assms(1,2), of xs ys] by (simp add: debug_escape_def split: if_splits)

definition ascii :: "string \<Rightarrow> bool" where
  "ascii s \<longleftrightarrow> list_all (\<lambda>c. of_char c < (128 :: nat)) s"

lemma debug_char_prefix:
  assumes "of_char c < (128 :: nat)" "of_char d < (128 :: nat)" "debug_char c @ xs = debug_char d @ ys"
  shows "c = d \<and> xs = ys"
proof -
  have "debug_escaped (of_char CHR 0x5C)" by (simp add: debug_escaped_def)
  then have "debug_escaped (of_char c) \<longleftrightarrow> debug_escaped (of_char d)"
    using assms(3) by (auto simp: debug_char_def split: if_splits)
  with assms debug_escape_prefix [OF assms(1,2), of xs ys] show ?thesis
    by (auto simp: debug_char_def split: if_splits)
qed

lemma debug_char_start: "\<exists>c' cs. debug_char c = c' # cs \<and> c' \<noteq> CHR 0x22"
proof (cases "c = CHR 0x22")
  case True
  then show ?thesis by (simp add: debug_char_def debug_escaped_def)
qed (simp add: debug_char_def)

lemma debug_str_prefix:
  assumes "ascii s" "ascii t" "debug_str s @ xs = debug_str t @ ys"
  shows "s = t \<and> xs = ys"
proof -
  have "s = t \<and> xs = ys" if "concat (map debug_char s) @ CHR 0x22 # xs = concat (map debug_char t) @ CHR 0x22 # ys"
    using assms(1,2) that
  proof (induction s arbitrary: t)
    case Nil
    then show ?case using debug_char_start [of "hd t"] by (cases t) auto
  next
    case (Cons c s)
    show ?case
    proof (cases t)
      case Nil
      then show ?thesis using Cons.prems(3) debug_char_start [of c] by auto
    next
      case (Cons d t')
      with Cons.prems debug_char_prefix [of c d] have "c = d"
        "concat (map debug_char s) @ CHR 0x22 # xs = concat (map debug_char t') @ CHR 0x22 # ys"
        by (auto simp: ascii_def)
      with Cons.IH [of t'] Cons Cons.prems(1,2) show ?thesis by (simp add: ascii_def)
    qed
  qed
  with assms(3) show ?thesis by (simp add: debug_str_def)
qed

lemma category_repr_prefix:
  "PyFailureCategory_repr a @ CHR 0x2C # xs = PyFailureCategory_repr b @ CHR 0x2C # ys \<Longrightarrow> a = b \<and> xs = ys"
  by (cases a; cases b) simp_all

text \<open>What Python prints for a failure reason with an ASCII description determines it, and what is logged of a router its prefix.\<close>

lemma failure_repr_determines:
  assumes "ascii (pfr_description a)" "ascii (pfr_description b)" "PyFailureReason_repr a = PyFailureReason_repr b"
  shows "a = (b :: PyFailureReason)"
proof -
  let ?rest = "\<lambda>r. '' description='' @ debug_str (pfr_description r) @ '')''"
  have "PyFailureCategory_repr (pfr_category a) @ CHR 0x2C # ?rest a = PyFailureCategory_repr (pfr_category b) @ CHR 0x2C # ?rest b"
    using assms(3) by (simp add: PyFailureReason_repr_def)
  from category_repr_prefix [OF this] have "pfr_category a = pfr_category b" and
    desc: "debug_str (pfr_description a) @ '')'' = debug_str (pfr_description b) @ '')''" by simp_all
  with debug_str_prefix [OF assms(1,2) desc] show ?thesis by simp
qed

lemma router_text_determines:
  assumes "ascii (dlq_topic_prefix a)" "ascii (dlq_topic_prefix b)" "DefaultDlqRouter_str a = DefaultDlqRouter_str b"
  shows "dlq_topic_prefix a = dlq_topic_prefix b"
proof -
  from assms(3) have "debug_str (dlq_topic_prefix a) @ '')'' = debug_str (dlq_topic_prefix b) @ '')''"
    by (simp add: DefaultDlqRouter_str_def)
  from debug_str_prefix [OF assms(1,2) this] show ?thesis by simp
qed

end
