(* ===== verification/MessageViews.thy ===== *)
theory MessageViews
  imports Messages
begin

text \<open>
  Views of messages (\<^verbatim>\<open>src/consumer/message.rs\<close>, \<^verbatim>\<open>src/kafka_message.rs\<close>): timestamps, the text of payload and key when
  it is valid UTF-8, and the object that Python receives. It shows that text survives the way through
  bytes, and what becomes of a negative timestamp.
\<close>

section \<open>Timestamps\<close>

datatype KafkaTimestamp = KafkaCreateTime i64 | KafkaLogAppendTime i64 | KafkaNotAvailable
  \<comment> \<open>the timestamp of the client library\<close>

fun from_kafka :: "KafkaTimestamp \<Rightarrow> MessageTimestamp" where
  "from_kafka (KafkaCreateTime ms) = CreateTime ms"
| "from_kafka (KafkaLogAppendTime ms) = LogAppendTime ms"
| "from_kafka KafkaNotAvailable = NotAvailable"

definition as_system_time :: "MessageTimestamp \<Rightarrow> int option" where
  \<comment> \<open>nanoseconds after the epoch; \<open>ms as u64\<close> wraps\<close>
  "as_system_time ts = map_option (\<lambda>ms. (ms mod 2 ^ 64) * 1000000) (as_millis ts)"

section \<open>Text\<close>

definition between :: "nat \<Rightarrow> nat \<Rightarrow> u8 \<Rightarrow> bool" where
  "between lo hi b = (lo \<le> unat b \<and> unat b \<le> hi)"

definition continuation :: "u8 \<Rightarrow> bool" where
  "continuation b = between 0x80 0xBF b"

fun valid_utf8 :: "bytes \<Rightarrow> bool" where
  \<comment> \<open>\<open>std::str::from_utf8\<close>: no overlong forms, no surrogates, nothing above U+10FFFF\<close>
  "valid_utf8 [] = True"
| "valid_utf8 (a # bs) =
     (if between 0 0x7F a then valid_utf8 bs
      else case bs of
        [] \<Rightarrow> False
      | b # cs \<Rightarrow>
         if between 0xC2 0xDF a then continuation b \<and> valid_utf8 cs
         else case cs of
           [] \<Rightarrow> False
         | c # ds \<Rightarrow>
            if between 0xE0 0xEF a
            then between (if unat a = 0xE0 then 0xA0 else 0x80) (if unat a = 0xED then 0x9F else 0xBF) b
                 \<and> continuation c \<and> valid_utf8 ds
            else case ds of
              [] \<Rightarrow> False
            | d # es \<Rightarrow>
               between 0xF0 0xF4 a
               \<and> between (if unat a = 0xF0 then 0x90 else 0x80) (if unat a = 0xF4 then 0x8F else 0xBF) b
               \<and> continuation c \<and> continuation d \<and> valid_utf8 es)"

declare valid_utf8.simps(2) [simp del]

definition from_utf8 :: "bytes \<Rightarrow> string option" where
  \<comment> \<open>a text is the list of its bytes\<close>
  "from_utf8 bs = (if valid_utf8 bs then Some (map (\<lambda>b. char_of (unat b)) bs) else None)"

definition payload_str :: "OwnedMessage \<Rightarrow> string option" where
  "payload_str m = Option.bind (msg_payload m) from_utf8"

definition key_str :: "OwnedMessage \<Rightarrow> string option" where
  "key_str m = Option.bind (msg_key m) from_utf8"

section \<open>The object for Python\<close>

definition KafkaMessage_new ::
  "string \<Rightarrow> i32 \<Rightarrow> i64 \<Rightarrow> bytes option \<Rightarrow> bytes option \<Rightarrow> i64 option \<Rightarrow> header list \<Rightarrow> KafkaMessage" where
  "KafkaMessage_new topic part offset key payload timestamp_millis headers =
     \<lparr>km_topic = topic, km_partition = part, km_offset = offset, km_key = key, km_payload = payload,
      km_timestamp_millis = timestamp_millis, km_headers = headers\<rparr>"

definition get_headers :: "KafkaMessage \<Rightarrow> header list" where
  "get_headers m = km_headers m"

definition get_timestamp_millis :: "KafkaMessage \<Rightarrow> i64 option" where
  "get_timestamp_millis m = km_timestamp_millis m"

definition KafkaMessage_repr :: "KafkaMessage \<Rightarrow> string" where
  "KafkaMessage_repr m =
     ''KafkaMessage(topic='' @ km_topic m @ '', partition='' @ show_int (km_partition m)
     @ '', offset='' @ show_int (km_offset m) @ '')''"

section \<open>Lemmas\<close>

lemma unat_of_char: "unat (of_char c :: u8) = of_char c"
proof -
  have "(of_char c :: u8) = word_of_nat (of_char c)" by (simp add: of_nat_of_char)
  then show ?thesis by (simp add: unat_of_nat of_char_mod_256)
qed

lemma of_char_char_of: "(of_char (char_of (unat b)) :: u8) = b"
proof -
  have "unat (of_char (char_of (unat b)) :: u8) = unat b mod 256" by (simp add: unat_of_char)
  also have "\<dots> = unat b" using unsigned_less [of b, where ?'a = nat] by simp
  finally show ?thesis by (rule word_unat_eq_iff [THEN iffD2])
qed

text \<open>A view as text determines the bytes, and ASCII text always has one.\<close>

lemma from_utf8_bytes: "from_utf8 bs = Some s \<Longrightarrow> str_bytes s = bs"
  by (auto simp: from_utf8_def str_bytes_def comp_def of_char_char_of split: if_splits)

lemma from_utf8_ascii: "list_all (\<lambda>c. of_char c < (128 :: nat)) s \<Longrightarrow> from_utf8 (str_bytes s) = Some s"
proof -
  assume "list_all (\<lambda>c. of_char c < (128 :: nat)) s"
  then have "valid_utf8 (str_bytes s)"
    by (induction s) (simp_all add: str_bytes_def valid_utf8.simps(2) between_def unat_of_char)
  then show ?thesis by (simp add: from_utf8_def str_bytes_def comp_def unat_of_char)
qed

lemma payload_text_determines: "payload_str m = Some s \<Longrightarrow> msg_payload m = Some (str_bytes s)"
  by (cases "msg_payload m") (auto simp: payload_str_def dest: from_utf8_bytes)

text \<open>The conversion for Python keeps every field; of the timestamp it keeps the number.\<close>

lemma KafkaMessage_from_new:
  "KafkaMessage_from m = KafkaMessage_new (msg_topic m) (msg_partition m) (msg_offset m) (msg_key m) (msg_payload m)
     (as_millis (msg_timestamp m)) (msg_headers m)"
  by (simp add: KafkaMessage_from_def KafkaMessage_new_def)

text \<open>A timestamp before the epoch is read as one in the far future.\<close>

lemma negative_timestamp_wraps:
  "- (2 ^ 63) \<le> ms \<Longrightarrow> ms < 0 \<Longrightarrow> as_system_time (CreateTime ms) = Some ((ms + 2 ^ 64) * 1000000)"
proof -
  assume "- (2 ^ 63) \<le> ms" "ms < 0"
  then have "ms mod 2 ^ 64 = ms + 2 ^ 64" by (subst mod_add_self2 [symmetric], intro mod_pos_pos_trivial) simp_all
  then show "as_system_time (CreateTime ms) = Some ((ms + 2 ^ 64) * 1000000)" by (simp add: as_system_time_def)
qed

end
