(* ===== verification/HandlerBuilders.thy ===== *)
theory HandlerBuilders
  imports Handlers
begin

text \<open>
  The builders of handlers and of what is attached to them: handler metadata
  (\<^verbatim>\<open>src/consumer/runtime.rs\<close>), Python handlers (\<^verbatim>\<open>src/execution/callback.rs\<close>), fan-out groups
  (\<^verbatim>\<open>src/execution/fan_out.rs\<close>) and middleware chains (\<^verbatim>\<open>src/middleware/chain.rs\<close>). It shows that a builder whose
  setters are all called equals the constructor, and that the fan-out degree stays within its cap.
\<close>

section \<open>Handler metadata\<close>

definition HandlerMode_default :: HandlerMode where "HandlerMode_default = SingleSync"

definition HandlerMetadataBuilder_new :: "nat \<Rightarrow> ConsumerHandlerMetadata" where
  \<comment> \<open>the builder has the fields of the metadata it builds\<close>
  "HandlerMetadataBuilder_new callback =
     \<lparr>meta_callback = Some callback, meta_mode = HandlerMode_default, meta_batch_max_size = None,
      meta_batch_max_wait_ms = None, meta_timeout_ms = None, meta_concurrency = None, meta_middleware = None,
      meta_fan_out_config = None\<rparr>"

definition hmb_mode :: "HandlerMode \<Rightarrow> ConsumerHandlerMetadata \<Rightarrow> ConsumerHandlerMetadata" where
  "hmb_mode v b = b\<lparr>meta_mode := v\<rparr>"

definition hmb_batch_max_size :: "nat \<Rightarrow> ConsumerHandlerMetadata \<Rightarrow> ConsumerHandlerMetadata" where
  "hmb_batch_max_size v b = b\<lparr>meta_batch_max_size := Some v\<rparr>"

definition hmb_batch_max_wait_ms :: "nat \<Rightarrow> ConsumerHandlerMetadata \<Rightarrow> ConsumerHandlerMetadata" where
  "hmb_batch_max_wait_ms v b = b\<lparr>meta_batch_max_wait_ms := Some v\<rparr>"

definition hmb_timeout_ms :: "nat \<Rightarrow> ConsumerHandlerMetadata \<Rightarrow> ConsumerHandlerMetadata" where
  "hmb_timeout_ms v b = b\<lparr>meta_timeout_ms := Some v\<rparr>"

definition hmb_concurrency :: "nat \<Rightarrow> ConsumerHandlerMetadata \<Rightarrow> ConsumerHandlerMetadata" where
  "hmb_concurrency v b = b\<lparr>meta_concurrency := Some v\<rparr>"

definition hmb_middleware :: "nat list \<Rightarrow> ConsumerHandlerMetadata \<Rightarrow> ConsumerHandlerMetadata" where
  "hmb_middleware v b = b\<lparr>meta_middleware := Some v\<rparr>"

definition hmb_fan_out_config :: "FanOutConfig \<Rightarrow> ConsumerHandlerMetadata \<Rightarrow> ConsumerHandlerMetadata" where
  "hmb_fan_out_config v b = b\<lparr>meta_fan_out_config := Some v\<rparr>"

definition ConsumerHandlerMetadata_new ::
  "nat \<Rightarrow> HandlerMode \<Rightarrow> nat option \<Rightarrow> nat option \<Rightarrow> nat option \<Rightarrow> nat option \<Rightarrow> nat list option \<Rightarrow> FanOutConfig option
   \<Rightarrow> ConsumerHandlerMetadata" where
  "ConsumerHandlerMetadata_new callback mode bsize bwait timeout concurrency mw fan_out =
     \<lparr>meta_callback = Some callback, meta_mode = mode, meta_batch_max_size = bsize, meta_batch_max_wait_ms = bwait,
      meta_timeout_ms = timeout, meta_concurrency = concurrency, meta_middleware = mw, meta_fan_out_config = fan_out\<rparr>"

definition hmb_build :: "ConsumerHandlerMetadata \<Rightarrow> ConsumerHandlerMetadata" where
  "hmb_build b =
     \<lparr>meta_callback = meta_callback b, meta_mode = meta_mode b, meta_batch_max_size = meta_batch_max_size b,
      meta_batch_max_wait_ms = meta_batch_max_wait_ms b, meta_timeout_ms = meta_timeout_ms b,
      meta_concurrency = meta_concurrency b, meta_middleware = meta_middleware b, meta_fan_out_config = meta_fan_out_config b\<rparr>"

section \<open>Python handlers\<close>

definition PythonHandlerBuilder_new :: "nat \<Rightarrow> string \<Rightarrow> PythonHandler" where
  "PythonHandlerBuilder_new callback name =
     \<lparr>ph_callback = callback, ph_retry_policy = None, ph_mode = HandlerMode_default, ph_batch_policy = None,
      ph_timeout = None, ph_name = name, ph_middleware = None, ph_fan_out = None\<rparr>"

definition phb_retry_policy :: "RetryPolicy \<Rightarrow> PythonHandler \<Rightarrow> PythonHandler" where
  "phb_retry_policy v b = b\<lparr>ph_retry_policy := Some v\<rparr>"

definition phb_mode :: "HandlerMode \<Rightarrow> PythonHandler \<Rightarrow> PythonHandler" where
  "phb_mode v b = b\<lparr>ph_mode := v\<rparr>"

definition phb_batch_policy :: "BatchPolicy \<Rightarrow> PythonHandler \<Rightarrow> PythonHandler" where
  "phb_batch_policy v b = b\<lparr>ph_batch_policy := Some v\<rparr>"

definition phb_handler_timeout :: "duration \<Rightarrow> PythonHandler \<Rightarrow> PythonHandler" where
  "phb_handler_timeout v b = b\<lparr>ph_timeout := Some v\<rparr>"

definition phb_middleware :: "nat list \<Rightarrow> PythonHandler \<Rightarrow> PythonHandler" where
  "phb_middleware v b = b\<lparr>ph_middleware := Some v\<rparr>"

definition phb_build :: "PythonHandler \<Rightarrow> PythonHandler" where
  \<comment> \<open>the builder has no fan-out; it is attached later\<close>
  "phb_build b =
     \<lparr>ph_callback = ph_callback b, ph_retry_policy = ph_retry_policy b, ph_mode = ph_mode b, ph_batch_policy = ph_batch_policy b,
      ph_timeout = ph_timeout b, ph_name = ph_name b, ph_middleware = ph_middleware b, ph_fan_out = None\<rparr>"

section \<open>Fan-out groups\<close>

record FanOutBuilderRust =
  fob_group_name :: string
  fob_sink_topics :: "string list"
  fob_callback :: nat
  fob_mode :: HandlerMode
  fob_timeout_ms :: "nat option"
  fob_max_fan_out :: "u8 option"

definition FanOutBuilderRust_new :: "string \<Rightarrow> string list \<Rightarrow> nat \<Rightarrow> HandlerMode \<Rightarrow> nat option \<Rightarrow> FanOutBuilderRust" where
  "FanOutBuilderRust_new group_name sink_topics callback mode timeout =
     \<lparr>fob_group_name = group_name, fob_sink_topics = sink_topics, fob_callback = callback, fob_mode = mode,
      fob_timeout_ms = timeout, fob_max_fan_out = None\<rparr>"

definition fob_set_max_fan_out :: "u8 \<Rightarrow> FanOutBuilderRust \<Rightarrow> FanOutBuilderRust" where
  "fob_set_max_fan_out n b = b\<lparr>fob_max_fan_out := Some (min n 64)\<rparr>"

section \<open>Middleware chains\<close>

definition MiddlewareChain_new :: "Middleware list" where "MiddlewareChain_new = []"

definition add_middleware :: "Middleware \<Rightarrow> Middleware list \<Rightarrow> Middleware list" where
  "add_middleware m chain = chain @ [m]"

definition chain_is_empty :: "Middleware list \<Rightarrow> bool" where
  "chain_is_empty chain = (chain = [])"

section \<open>Lemmas\<close>

lemma metadata_builder_complete:
  "hmb_build (hmb_fan_out_config f (hmb_middleware mw (hmb_concurrency n (hmb_timeout_ms t (hmb_batch_max_wait_ms w
     (hmb_batch_max_size s (hmb_mode m (HandlerMetadataBuilder_new cb))))))))
   = ConsumerHandlerMetadata_new cb m (Some s) (Some w) (Some t) (Some n) (Some mw) (Some f)"
  by (simp add: hmb_build_def hmb_fan_out_config_def hmb_middleware_def hmb_concurrency_def hmb_timeout_ms_def
      hmb_batch_max_wait_ms_def hmb_batch_max_size_def hmb_mode_def HandlerMetadataBuilder_new_def
      ConsumerHandlerMetadata_new_def)

lemma handler_builder_complete:
  "phb_build (phb_middleware mw (phb_handler_timeout t (phb_batch_policy b (phb_mode m (phb_retry_policy p
     (PythonHandlerBuilder_new cb name))))))
   = PythonHandler_new cb (Some p) m (Some b) (Some t) name (Some mw)"
  by (simp add: phb_build_def phb_middleware_def phb_handler_timeout_def phb_batch_policy_def phb_mode_def phb_retry_policy_def
      PythonHandlerBuilder_new_def PythonHandler_new_def)

lemma fan_out_degree_capped: "fob_max_fan_out (fob_set_max_fan_out n b) = Some k \<Longrightarrow> k \<le> 64"
  by (auto simp: fob_set_max_fan_out_def)

lemma chain_keeps_order: "foldl (\<lambda>c m. add_middleware m c) MiddlewareChain_new ms = ms"
proof -
  have "foldl (\<lambda>c m. add_middleware m c) c ms = c @ ms" for c
    by (induction ms arbitrary: c) (simp_all add: add_middleware_def)
  then show ?thesis by (simp add: MiddlewareChain_new_def)
qed

end
