(* ===== verification/Spec2Isabelle.thy ===== *)
theory Spec2Isabelle
  imports DeadLetters Intake Observed Slots Producer Logging Bindings MessageViews HandlerBuilders
begin

text \<open>
  KafPy is a Kafka consumer written in Rust that runs Python handlers. This library models its
  core logic and proves what the model guarantees. Paths are relative to the crate.

  \<^bold>\<open>How the program works.\<close> A runner (\<^verbatim>\<open>src/consumer/runner.rs\<close>) turns what the client receives
  into owned messages. The dispatcher (\<^verbatim>\<open>src/dispatcher/\<close>) puts each message into the bounded queue
  of its topic's handler and pauses topics under backpressure. Workers (\<^verbatim>\<open>src/worker_pool/\<close>) take
  messages from the queues, one by one or in batches, and invoke the Python handler
  (\<^verbatim>\<open>src/execution/callback.rs\<close>) inside its middleware. A success acknowledges the offset with the
  offset tracker (\<^verbatim>\<open>src/offset/offset_tracker.rs\<close>); a failure is classified (\<^verbatim>\<open>src/failure/\<close>), retried with
  backoff (\<^verbatim>\<open>src/retry/\<close>) or sent to a dead-letter topic (\<^verbatim>\<open>src/dlq/\<close>). The committer
  (\<^verbatim>\<open>src/offset/commit_task.rs\<close>) hands the tracker's contiguous watermarks to the broker, rebalances
  (\<^verbatim>\<open>src/consumer/context.rs\<close>) store and seek offsets, and a shutdown coordinator
  (\<^verbatim>\<open>src/shutdown/shutdown.rs\<close>) orders the end of a run (\<^verbatim>\<open>src/runtime/builder.rs\<close>).

  \<^bold>\<open>Theories.\<close>
  \<^item> \<open>Prelude\<close>: machine types, results that may panic, strings and numbers as text, the environment
    that answers for clocks, random draws, rounding and channels, and two locales for invariants
    of event driven components.
  \<^item> \<open>Failure\<close>: kinds and categories of failures and the classifier of Python exceptions
    (\<^verbatim>\<open>failure/reason.rs\<close>, \<^verbatim>\<open>failure/classifier.rs\<close>).
  \<^item> \<open>Messages\<close>: message envelopes, execution contexts and results, the log line of a failure
    (\<^verbatim>\<open>consumer/message.rs\<close>, \<^verbatim>\<open>kafka_message.rs\<close>, \<^verbatim>\<open>execution/context.rs\<close>, \<^verbatim>\<open>execution/execution_result.rs\<close>).
  \<^item> \<open>Offsets\<close>: the state of a partition, the tracker, the coordinator interface as the locale
    \<open>offset_coordinator\<close>, and graceful shutdown. It shows that the watermark ends an unbroken run of
    acknowledged offsets, does not depend on the order of completion, never decreases, is blocked
    by terminal failures, stays inside 64 bits, and when the tracker panics.
  \<^item> \<open>Retry\<close>: the backoff schedule, with floating point as real arithmetic under an abstract rounding,
    and the retry coordinator, which refines a counter of failures per message. It shows the
    retry budget, that delays grow to the cap, and that no computation of a delay panics.
  \<^item> \<open>Dlq\<close>: metadata, headers, routing, the bounded dead-letter channel and the flush of failed offsets.
  \<^item> \<open>Dispatch\<close>: handler queues with 64-bit counters, dispatch on every path, the pausing loop. It shows
    the order in which a handler receives, the invariant of the counters, and two liveness hazards.
  \<^item> \<open>Shutdown\<close>: the four phases as a linear order and the transitions that panic out of order.
  \<^item> \<open>Commit\<close>: throttling, commit of one and of all partitions, one round of the committer's loop. It shows that
    whatever is committed was acknowledged.
  \<^item> \<open>Batch\<close>: buffers with deadlines, the accumulator, and every branch of the batch worker loop.
  \<^item> \<open>Worker\<close>: what a worker does with a result, the worker loop as a labelled transition relation in
    which other tasks may interfere arbitrarily, results of batches, assignment of queues to workers and
    the shutdown of the pool.
  \<^item> \<open>Config\<close>: the consumer configuration, its builder, the client settings, and how the runtime fills it.
  \<^item> \<open>Rebalance\<close>: revocation, assignment, prefetch of committed offsets, the receive loop.
  \<^item> \<open>Runtime\<close>: requests to stop, from Python and by signals on Unix and Windows, and what they lead to.
  \<^item> \<open>FanOut\<close>: tracker with 8-bit counters, slots, callbacks, and the interleaving of branches with
    the waiting task as a step relation.
  \<^item> \<open>Handlers\<close>: invocation of Python with timeouts, middleware, concurrency limits, registration.
  \<^item> \<open>HandlerBuilders\<close>: the builders of handler metadata, Python handlers, fan-out groups and middleware chains.
  \<^item> \<open>Pipeline\<close>: the abstract view of a run: messages are dispatched, taken, handled alone or in batches, and
    acknowledged offsets are committed, with no control flow of the tasks.
  \<^item> \<open>Parsing\<close>: Python errors as values, and numbers, booleans and environment variables as text.
  \<^item> \<open>PyConfig\<close>: the configuration classes of Python (\<^verbatim>\<open>config.rs\<close>), their defaults, environment readers and
    fluent builders. It shows which configurations a builder can build, and that reading inverts printing.
  \<^item> \<open>Bindings\<close>: the remaining settings and failure classes that Python sees (\<^verbatim>\<open>bindings.rs\<close>,
    \<^verbatim>\<open>observability/config.rs\<close>), with the debug texts of strings. It shows that a printed failure reason determines it.
  \<^item> \<open>MessageViews\<close>: timestamps, payload and key as text, the message object of Python.
  \<^item> \<open>Errors\<close>: errors of the consumer and the operations of the runner that report them.
  \<^item> \<open>Metrics\<close>: labels, the Prometheus sink, every recorder, and what workers record. It shows what a
    counter and a gauge hold after any sequence of records.
  \<^item> \<open>Snapshot\<close>: the status that workers post, polls, and the dictionary for Python. It shows that the posted
    status mirrors the worker and that only the first runtime of a process is ever visible.
  \<^item> \<open>Producer\<close>: the producer for Python (\<^verbatim>\<open>producer/runtime.rs\<close>), every method in every state.
  \<^item> \<open>Logging\<close>: the bridge to the logging module of Python (\<^verbatim>\<open>log.rs\<close>). It shows that caching loggers changes
    nothing, that the filter of the longest registered path decides, and that the level set for the process lets
    every record through that the installed logger takes.
  \<^item> \<open>Assembly\<close>: how the runtime is built and started from a Python configuration
    (\<^verbatim>\<open>runtime/builder.rs\<close>, \<^verbatim>\<open>consumer/runtime.rs\<close>). Every runtime it builds is an initial state of \<open>Program\<close> and of
    \<open>Pipeline\<close>.
  \<^item> \<open>Systems\<close>: systems whose events are enabled, may panic or lead to a successor; their runs, and the locales for
    invariants, rankings and simulations.
  \<^item> \<open>Program\<close>: the running program. Its state holds the shared services, every worker with the wait of its loop
    (\<^verbatim>\<open>worker_loop\<close>, \<^verbatim>\<open>batch_worker_loop\<close>) and the messages in its hands, the dispatcher's paused topics, the rebalance
    context, the shutdown token and coordinator, the committer, and a trace of what became of every message and of all calls
    to the Kafka client. An event is one step of one task: a dispatched message, a step of a worker, a round of
    the committer, a rebalance, a stop request, the shutdown of the pool, a letter given to the dead-letter producer. Its invariant is that the messages of a partition are
    finished, held and queued in the order in which they were accepted.
  \<^item> \<open>ProgramSafety\<close>: what follows for every run of a program that was built: no message is lost or overtaken, the in-flight
    counters are exact, nothing panics.
  \<^item> \<open>Drain\<close>: a ranking of the work that is left. Workers come to rest after a bounded number of steps, with every
    message finished.
  \<^item> \<open>Refinement\<close>: the program refines \<open>Pipeline\<close>, and the offsets that committer and revocations store are covered by
    successes.
  \<^item> \<open>Progress\<close>: the converse: delivered messages of a partition without dead letters get committed.
  \<^item> \<open>DeadLetters\<close>: the letters that the dead-letter task and its channel hold are those of the messages that failed.
  \<^item> \<open>Ending\<close>: which requests end workers, pool and committer in which order.
  \<^item> \<open>Intake\<close>: the program between the Kafka client in front (\<^verbatim>\<open>consumer/runner.rs\<close>) and \<open>start()\<close> behind: what becomes of
    every message that the client hands over, and exactly when \<open>start()\<close> returns.
  \<^item> \<open>Observed\<close>: the program with the status board that its workers post to, the metrics that workers and the dead-letter
    task record, and the snapshot task that polls queues, tracker and board. It shows that observing changes nothing, that what
    Python reads is a true picture of the program at the last poll, and what the counters count.
  \<^item> \<open>Slots\<close>: the slot counter of the fan-out tracker with the load and the compare-exchange of an attempt as two
    steps. It shows that concurrent callers never hold more slots than allowed, and that an attempt may fail with slots free.

  \<^bold>\<open>Interfaces.\<close> \<open>event_invariant\<close> and \<open>res_invariant\<close> (invariants of components driven by events, with and
  without panics), \<open>offset_coordinator\<close> (what workers and committer rely on of the tracker),
  \<open>separating_router\<close> (a router of dead letters that keeps partitions apart), \<open>metrics_sink\<close> (what
  recorders rely on of the sink), \<open>fluent_builder\<close> (a builder whose calls mutate and return a copy), and for systems of
  tasks \<open>step_invariant\<close>, extended by \<open>step_ranking\<close> and \<open>step_simulation\<close>. Each is interpreted on the definitions that
  model its provider.

  \<^bold>\<open>Conventions.\<close> Every struct is a record and every enum a datatype; definitions keep the names of the
  source, with the type in front where two types share a method name, and a short prefix on
  record fields. A panic is a value (\<open>Inl\<close> of the result type), and so are errors. Shared
  state behind a lock is threaded explicitly; the iteration order of a hash map is an argument, and
  theorems hold for every order. Atomic counters are words of their width, so that they wrap; Kafka
  partitions and offsets are integers with proved bounds. Durations are nanoseconds, clocks of the
  committer and of batch deadlines milliseconds.

  \<^bold>\<open>Parameters.\<close> The Kafka clients of consumer and producer, Python with its logging module, the
  clock, the random generator, the rounding and printing of floating point numbers, the process environment
  and the room in channels are arguments. The hypotheses on them are
  \<open>rounding\<close> (monotone and exact on small integers, as IEEE rounding is), \<open>sane_env\<close> (draws
  between zero and one) and \<open>bounded_channels\<close> (a bounded channel refuses a message when full).

  \<^bold>\<open>Fuel.\<close> Only the function that follows one message through its retries uses fuel; \<open>Worker\<close> proves that
  \<open>max_attempts\<close> (at least one) is enough. The loops of the running program need none: they are steps, and \<open>program_rank\<close>
  bounds how many the workers can take. The cursor loop of the tracker terminates because each
  round removes a pending offset.

  \<^bold>\<open>Atomicity.\<close> A task runs without interruption from one wait to the next: a worker from the answer of Python to its next wait, the
  dispatcher through one message, the committer through one round. The handler runs between two steps of its
  worker, and anything else may happen meanwhile. A batch worker decides on a message in one step and runs the batches that this
  takes out of the accumulator one by one. A fan-out branch records its result in one step; an attempt to get
  a slot is two. A poll reads queues, board and tracker in one step. The trace is a history
  variable: no step reads it.

  \<^bold>\<open>Not modelled.\<close> The loader of \<^verbatim>\<open>.env\<close> files and the text format and histogram buckets of the Prometheus client
  belong to libraries; what they are given and what they answer is modelled. The
  registration of the Python module (\<^verbatim>\<open>lib.rs\<close>), accessors and derived instances, and plain log statements have no logic. Trimming
  treats ASCII white space only. Fan-out is modelled on its own and is no task of \<open>Program\<close>: no handler that registration
  builds has a fan-out, as \<open>Handlers\<close> proves. Rounds in which the batch loop wakes up for an expired window over an empty accumulator
  change nothing and are no events. The status callbacks that a poll should
  invoke are never invoked by the code. The poller's timer is the occurrence of a tick.
\<close>

section \<open>Properties of the whole program\<close>

text \<open>
  C1 (safety). At-least-once, end to end, for every runtime that a program can build from a Python
  configuration and registered handlers. Take any interleaving of its dispatcher, of its workers, one per handler and handling
  messages one by one or in batches, of its committer, of rebalances and of the shutdown. Whenever an offset is
  handed to the client for a partition, by the committer or by a revocation, every message of that partition, from the
  first one handled up to that offset, had by then been accepted by the dispatcher and handled by Python without error.
\<close>

theorem commits_cover_handled_messages:
  assumes "RuntimeBuilder_build out ks config c g = Inr (Inr (rt, g'))" "iterates ks (pc_handlers c)"
    "runs (program_step (route (rt_router rt)) utf8 (rt_commit_config rt)) (program_new rt) es p"
    "pg_trace p = before @ Called call # later" "stores call = Some (topic, part, offset)"
  shows "\<exists>m. find (at_place (topic, part)) (told succeeded_in before) = Some m \<and> msg_offset m \<le> offset
     \<and> list_all (\<lambda>x. list_ex (\<lambda>m'. place m' = (topic, part, x) \<and> m' \<in> set (told accepted_in before)) (told succeeded_in before))
          [msg_offset m..offset]"
proof -
  have "distinct ks" using assms(2) by (simp add: iterates_def)
  from stores_covered [OF assms(1) this assms(3-5)] show ?thesis
    by (simp add: covered_def split: option.splits)
qed

theorem commits_cover_handled_messages_witness:
  "\<exists>(rt :: Runtime) p before later. runs (program_step (route (rt_router rt)) (\<lambda>b. []) (rt_commit_config rt)) (program_new rt) sample_program_events p
     \<and> pg_trace p = before @ Called (ToConsumer (StoreOffset ''t'' 0 4)) # later
     \<and> (\<exists>m. find (at_place (''t'', 0)) (told succeeded_in before) = Some m \<and> msg_offset m \<le> 4)"
proof -
  obtain rt p where rt: "RuntimeBuilder_build calm_outside [''t''] sample_py_config one_consumer snapshot_globals_new
       = Inr (Inr (rt, RuntimeSnapshotTask_spawn snapshot_globals_new))"
    "runs (program_step (route (rt_router rt)) (\<lambda>b. []) (rt_commit_config rt)) (program_new rt) sample_program_events p"
    "pg_trace p = [Accepted (sample_message ''t'' 4), Succeeded (sample_message ''t'' 4), Accepted (sample_message ''t'' 5)]
         @ Called (ToConsumer (StoreOffset ''t'' 0 4)) # [Called (ToConsumer CommitState)]"
    using sample_started by auto
  from commits_cover_handled_messages [OF rt(1) iterates_one_consumer rt(2,3), of "''t''" 0 4] rt(2,3) show ?thesis
    unfolding stores.simps by blast
qed

end
